(* ===== verification/Uzi_Prelude.thy ===== *)
theory Uzi_Prelude
  imports Main "HOL-Library.Word"
begin

text \<open>
  Shared vocabulary of the development: the fixed-width integer types of the C sources, the
  collections of rewrite rules the component theories fill, and the generic lemmas on words,
  lists and finite sums that more than one component uses.
\<close>

unbundle bit_operations_syntax

section \<open>Types\<close>

text \<open>The typedefs of src/include/uzi/wtypes.h. Signed types are words read with \<^const>\<open>sint\<close>.\<close>

type_synonym u8 = "8 word"
type_synonym u16 = "16 word"
type_synonym u32 = "32 word"
type_synonym u64 = "64 word"
type_synonym LONG = "32 word"
type_synonym ULONG = "32 word"
type_synonym DWORD = "32 word"

text \<open>Addresses of heap objects; the null pointer is address 0.\<close>

type_synonym addr = nat

abbreviation (input) NULL :: addr where
  "NULL \<equiv> 0"

section \<open>Collections\<close>

named_theorems wordnat \<open>transfer of word expressions to natural numbers\<close>

named_theorems heap_frame \<open>updates of cells that a heap predicate does not mention\<close>

section \<open>Words\<close>

lemma unat_of_nat_small: "n < 2 ^ LENGTH('a::len) \<Longrightarrow> unat (word_of_nat n :: 'a word) = n"
  by (simp add: unat_of_nat take_bit_nat_eq_self)

lemma unat_ucast_up: "LENGTH('a::len) \<le> LENGTH('b::len) \<Longrightarrow> unat (ucast (x :: 'a word) :: 'b word) = unat x"
  by (simp add: unsigned_ucast_eq take_bit_nat_eq_self_iff)
    (meson less_le_trans unsigned_less power_increasing one_le_numeral)

lemma unat_ucast_mod: "unat (ucast (x :: 'a::len word) :: 'b::len word) = unat x mod 2 ^ LENGTH('b)"
  by (simp add: unsigned_ucast_eq take_bit_eq_mod)

lemma unat_and_mask [wordnat]: "unat ((x :: 'a::len word) AND mask n) = unat x mod 2 ^ n"
  by (metis take_bit_eq_mask take_bit_eq_mod unsigned_take_bit_eq)

lemma unat_drop_bit [wordnat]: "unat (drop_bit n (x :: 'a::len word)) = unat x div 2 ^ n"
  by (simp add: unat_drop_bit_eq flip: drop_bit_eq_div)

lemma word_or_disjoint: "(x :: 'a::len word) AND y = 0 \<Longrightarrow> x OR y = x + y"
  by (metis add_0 word_plus_and_or)

lemma word_and_mask_self: "unat (x :: 'a::len word) < 2 ^ n \<Longrightarrow> x AND mask n = x"
  by (metis mod_less unat_and_mask unsigned_word_eqI)

lemma word_eq_of_nat_iff: "n < 2 ^ LENGTH('a::len) \<Longrightarrow> (x :: 'a word) = word_of_nat n \<longleftrightarrow> unat x = n"
  by (simp add: word_unat_eq_iff unat_of_nat_small)

lemma sint_word_of_int_small:
  "- (2 ^ 31) \<le> k \<Longrightarrow> k < 2 ^ 31 \<Longrightarrow> sint (word_of_int k :: LONG) = k"
  by (simp only: sint_sbintrunc') (simp add: signed_take_bit_int_eq_self)

section \<open>Units of time\<close>

text \<open>Splitting a time into a coarse and a fine part, each converted to the finest unit.\<close>

lemma scale_div_mod: "x div a * (a * b) + x mod a * b = x * (b :: int)"
  by (metis div_mult_mod_eq distrib_right mult.assoc)

lemmas split_ms_ns = scale_div_mod [of _ 1000 1000000, simplified] and split_ticks_ns = scale_div_mod [of _ 10000000 100, simplified]

section \<open>Conversion to int\<close>

text \<open>A size or pointer difference stored in an \<^verbatim>\<open>int\<close> keeps its low 32 bits, read as signed.\<close>

definition c_int :: "nat \<Rightarrow> int" where
  "c_int n = signed_take_bit 31 (int n)"

lemma c_int_small [simp]: "n < 2 ^ 31 \<Longrightarrow> c_int n = int n"
  by (simp add: c_int_def signed_take_bit_int_eq_self)

section \<open>Buffers\<close>

text \<open>The effect of writing the elements \<open>bs\<close> into a buffer from index \<open>t\<close> on.\<close>

definition overwrite :: "nat \<Rightarrow> 'a list \<Rightarrow> 'a list \<Rightarrow> 'a list" where
  "overwrite t bs buf = take t buf @ bs @ drop (t + length bs) buf"

lemma overwrite_Nil [simp]: "overwrite t [] buf = buf"
  by (simp add: overwrite_def)

lemma overwrite_Cons:
  "t < length buf \<Longrightarrow> overwrite t (b # bs) buf = (overwrite (Suc t) bs buf)[t := b]"
  by (simp add: overwrite_def take_Suc_conv_app_nth list_update_append)

lemma length_overwrite [simp]:
  "t + length bs \<le> length buf \<Longrightarrow> length (overwrite t bs buf) = length buf"
  by (simp add: overwrite_def)

lemma overwrite_append:
  "t + length as + length bs \<le> length buf \<Longrightarrow>
   overwrite (t + length as) bs (overwrite t as buf) = overwrite t (as @ bs) buf"
  by (simp add: overwrite_def ac_simps)

lemma take_overwrite_window:
  "t + length bs \<le> length buf \<Longrightarrow> take (length bs) (drop t (overwrite t bs buf)) = bs"
  by (simp add: overwrite_def)

lemma nth_overwrite_outside:
  "t + length bs \<le> length buf \<Longrightarrow> i < t \<or> t + length bs \<le> i \<Longrightarrow> overwrite t bs buf ! i = buf ! i"
  by (auto simp: overwrite_def nth_append)

lemma drop_Cons_nth:
  assumes "drop s xs = y # ys"
  shows "s < length xs" and "xs ! s = y" and "drop (Suc s) xs = ys"
proof -
  show s: "s < length xs" using assms by (metis drop_eq_Nil leI list.distinct(1))
  then show "xs ! s = y" using assms by (simp flip: hd_drop_conv_nth)
  show "drop (Suc s) xs = ys" using assms by (metis drop_Suc drop_tl list.sel(3))
qed

lemma drop_append_length: "drop s xs = ys @ zs \<Longrightarrow> drop (s + length ys) xs = zs"
  by (metis add.commute append_eq_conv_conj drop_drop)

section \<open>Zero-terminated buffers\<close>

text \<open>
  The scan of \<open>strlen\<close> and of \<open>uzi_wcslen\<close>: the index of the first zero element; \<open>None\<close> when the
  buffer has none, where the C loop reads past the end of the buffer.
\<close>

fun zscan :: "'a::zero list \<Rightarrow> nat option" where
  "zscan [] = None"
| "zscan (c # cs) = (if c \<noteq> 0 then map_option Suc (zscan cs) else Some 0)"

lemma zscan_zero_free: "0 \<notin> set cs \<Longrightarrow> zscan (cs @ 0 # rest) = Some (length cs)"
  by (induction cs) auto

end
