(* ===== verification/Unicode_Types.thy ===== *)
theory Unicode_Types
  imports Main
begin

text \<open>The two enumerations of src/libuzi/unicode.c that its interface is stated with.\<close>

datatype ConversionResult =
    conversionOK
  | sourceExhausted
  | targetExhausted
  | sourceIllegal

datatype ConversionFlags = strictConversion | lenientConversion

end
