(* ===== verification/Transcoder.thy ===== *)
theory Transcoder
  imports Uzi_Prelude Unicode_Types
begin

text \<open>
  The contract of a strict transcoder. Unicode scalar values are natural numbers; \<open>utf8_enc\<close> and
  \<open>utf16_enc\<close> are the encoding forms of the Unicode standard (section 3.9), written with division
  and remainder. The locale \<open>transcoder\<close> states what one iteration of a conversion loop promises
  about the text at the source position, and derives what the whole loop does with any text: it
  converts the longest prefix of accepted characters that fits the target and reports why it
  stopped. Both loops of src/libuzi/unicode.c interpret it; what a character is (\<open>'c\<close>, \<open>valid\<close>) is a
  parameter, since the UTF-8 reader accepts a few sequences that encode no scalar value.
\<close>

section \<open>Scalar values and their encoding forms\<close>

definition scalar :: "nat \<Rightarrow> bool" where
  "scalar c \<longleftrightarrow> c < 0xD800 \<or> 0xE000 \<le> c \<and> c < 0x110000"

definition utf8_enc :: "nat \<Rightarrow> u8 list" where
  "utf8_enc c =
     (if c < 0x80 then [word_of_nat c]
      else if c < 0x800 then [word_of_nat (0xC0 + c div 64), word_of_nat (0x80 + c mod 64)]
      else if c < 0x10000 then
        [word_of_nat (0xE0 + c div 4096), word_of_nat (0x80 + c div 64 mod 64),
         word_of_nat (0x80 + c mod 64)]
      else
        [word_of_nat (0xF0 + c div 262144), word_of_nat (0x80 + c div 4096 mod 64),
         word_of_nat (0x80 + c div 64 mod 64), word_of_nat (0x80 + c mod 64)])"

definition utf16_enc :: "nat \<Rightarrow> u16 list" where
  "utf16_enc c =
     (if c < 0x10000 then [word_of_nat c]
      else [word_of_nat (0xD800 + (c - 0x10000) div 1024), word_of_nat (0xDC00 + (c - 0x10000) mod 1024)])"

abbreviation encs :: "('c \<Rightarrow> 'a list) \<Rightarrow> 'c list \<Rightarrow> 'a list" where
  "encs enc cs \<equiv> concat (map enc cs)"

section \<open>Targets\<close>

text \<open>\<open>te\<close> is the end of the target; \<open>None\<close> asks for the length only.\<close>

definition fits :: "nat option \<Rightarrow> nat \<Rightarrow> 'a list \<Rightarrow> bool" where
  "fits te t bs = (case te of None \<Rightarrow> True | Some e \<Rightarrow> t + length bs \<le> e)"

definition store :: "nat option \<Rightarrow> nat \<Rightarrow> 'a list \<Rightarrow> 'a list \<Rightarrow> 'a list" where
  "store te t bs buf = (case te of None \<Rightarrow> buf | Some e \<Rightarrow> overwrite t bs buf)"

definition room :: "nat option \<Rightarrow> 'a list \<Rightarrow> bool" where
  "room te buf = (case te of None \<Rightarrow> True | Some e \<Rightarrow> e \<le> length buf)"

fun fit :: "nat option \<Rightarrow> ('c \<Rightarrow> 'a list) \<Rightarrow> nat \<Rightarrow> 'c list \<Rightarrow> 'c list" where
  "fit te enc t [] = []"
| "fit te enc t (c # cs) = (if fits te t (enc c) then c # fit te enc (t + length (enc c)) cs else [])"

lemma room_store: "room te buf \<Longrightarrow> fits te t bs \<Longrightarrow> room te (store te t bs buf)"
  by (auto simp: room_def store_def fits_def split: option.splits)

lemma store_append:
  "room te buf \<Longrightarrow> fits te t (as @ bs) \<Longrightarrow> store te (t + length as) bs (store te t as buf) = store te t (as @ bs) buf"
  by (auto simp: room_def store_def fits_def overwrite_append split: option.splits)

lemma fits_fit: "fits te t ([] :: 'a list) \<Longrightarrow> fits te t (encs (enc :: 'c \<Rightarrow> 'a list) (fit te enc t cs))"
proof (induction cs arbitrary: t)
  case (Cons c cs)
  show ?case
  proof (cases "fits te t (enc c)")
    case True
    then have "fits te (t + length (enc c)) ([] :: 'a list)" by (simp add: fits_def split: option.splits)
    with True Cons.IH [of "t + length (enc c)"] show ?thesis
      by (simp add: fits_def add.assoc split: option.splits)
  qed (use Cons.prems in simp)
qed simp

lemma fit_all: "fits te t (encs enc cs) \<Longrightarrow> fit te enc t cs = cs"
proof (induction cs arbitrary: t)
  case (Cons c cs)
  then have "fits te t (enc c)" and "fits te (t + length (enc c)) (encs enc cs)"
    by (simp_all add: fits_def split: option.splits)
  with Cons.IH show ?case by simp
qed simp

lemma fit_None [simp]: "fit None enc t cs = cs"
  by (rule fit_all) (simp add: fits_def)

lemma fit_prefix: "\<exists>ds. cs = fit te enc t cs @ ds"
  by (induction cs arbitrary: t) auto

section \<open>The contract of a conversion loop\<close>

locale transcoder =
  fixes loop :: "nat \<Rightarrow> nat \<Rightarrow> 'b list \<Rightarrow> ConversionResult \<times> nat \<times> nat \<times> 'b list"
    and text_at :: "nat \<Rightarrow> 'a list"
    and te :: "nat option"
    and valid :: "'c \<Rightarrow> bool"
    and enc_in :: "'c \<Rightarrow> 'a list"
    and enc_out :: "'c \<Rightarrow> 'b list"
    and stop :: "'a list \<Rightarrow> ConversionResult \<Rightarrow> bool"
  assumes text_advance: "text_at s = xs @ ys \<Longrightarrow> text_at (s + length xs) = ys"
    and loop_char: "valid c \<Longrightarrow> text_at s = enc_in c @ ys \<Longrightarrow> room te buf \<Longrightarrow> fits te t (enc_out c) \<Longrightarrow>
      loop s t buf = loop (s + length (enc_in c)) (t + length (enc_out c)) (store te t (enc_out c) buf)"
    and loop_full: "valid c \<Longrightarrow> text_at s = enc_in c @ ys \<Longrightarrow> \<not> fits te t (enc_out c) \<Longrightarrow>
      loop s t buf = (targetExhausted, s, t, buf)"
    and loop_stop: "stop (text_at s) r \<Longrightarrow> loop s t buf = (r, s, t, buf)"
    and enc_in_nonempty: "valid c \<Longrightarrow> enc_in c \<noteq> []"
    and cover: "(\<exists>r. stop xs r) \<or> (\<exists>c ys. valid c \<and> xs = enc_in c @ ys)"
    and stop_OK: "stop xs conversionOK \<longleftrightarrow> xs = []"
begin

lemma loop_text:
  assumes "\<forall>c\<in>set cs. valid c" and "text_at s = encs enc_in cs @ rest" and "stop rest r" and "room te buf"
  shows "loop s t buf =
    (let ds = fit te enc_out t cs in
     (if ds = cs then r else targetExhausted, s + length (encs enc_in ds),
      t + length (encs enc_out ds), store te t (encs enc_out ds) buf))"
  using assms
proof (induction cs arbitrary: s t buf)
  case Nil
  then have "loop s t buf = (r, s, t, buf)" by (intro loop_stop) simp
  then show ?case by (simp add: store_def split: option.splits)
next
  case (Cons c cs)
  then have at: "text_at s = enc_in c @ (encs enc_in cs @ rest)" and sc: "valid c" by auto
  show ?case
  proof (cases "fits te t (enc_out c)")
    case False
    with loop_full [OF sc at] show ?thesis by (simp add: store_def split: option.splits)
  next
    case True
    let ?t = "t + length (enc_out c)" and ?buf = "store te t (enc_out c) buf"
    let ?ds = "fit te enc_out ?t cs"
    have "fits te ?t ([] :: 'b list)" using True by (simp add: fits_def split: option.splits)
    then have "fits te ?t (encs enc_out ?ds)" by (rule fits_fit)
    then have "fits te t (enc_out c @ encs enc_out ?ds)"
      by (simp add: fits_def add.assoc split: option.splits)
    then have *: "store te ?t (encs enc_out ?ds) ?buf = store te t (enc_out c @ encs enc_out ?ds) buf"
      by (rule store_append [OF \<open>room te buf\<close>])
    have "loop s t buf = loop (s + length (enc_in c)) ?t ?buf"
      using sc at \<open>room te buf\<close> True by (rule loop_char)
    also have "\<dots> = (let ds = ?ds in
       (if ds = cs then r else targetExhausted, s + length (enc_in c) + length (encs enc_in ds),
        ?t + length (encs enc_out ds), store te ?t (encs enc_out ds) ?buf))"
      using Cons.prems True text_advance [OF at] by (intro Cons.IH) (auto intro: room_store)
    finally show ?thesis using True by (simp add: Let_def * add.assoc)
  qed
qed

lemma text_decomposes: "\<exists>cs rest r. (\<forall>c\<in>set cs. valid c) \<and> xs = encs enc_in cs @ rest \<and> stop rest r"
proof (induction xs rule: length_induct)
  case (1 xs)
  from cover [of xs] consider r where "stop xs r" | c ys where "valid c" and "xs = enc_in c @ ys" by blast
  then show ?case
  proof cases
    case 1
    then have "(\<forall>c\<in>set []. valid c) \<and> xs = encs enc_in [] @ xs \<and> stop xs r" by simp
    then show ?thesis by blast
  next
    case 2
    then have "length ys < length xs" using enc_in_nonempty [of c] by simp
    with 1 obtain cs rest r where "\<forall>c\<in>set cs. valid c" "ys = encs enc_in cs @ rest" "stop rest r" by blast
    with 2 have "(\<forall>c\<in>set (c # cs). valid c) \<and> xs = encs enc_in (c # cs) @ rest \<and> stop rest r" by simp
    then show ?thesis by blast
  qed
qed

lemma loop_all:
  assumes "\<forall>c\<in>set cs. valid c" and "text_at s = encs enc_in cs" and "room te buf"
    and "fits te t (encs enc_out cs)"
  shows "loop s t buf =
    (conversionOK, s + length (encs enc_in cs), t + length (encs enc_out cs), store te t (encs enc_out cs) buf)"
  using loop_text [of cs s "[]" conversionOK buf t] stop_OK [of "[]"] assms by (simp add: fit_all Let_def)

lemma loop_ok_iff:
  assumes "room te buf" and start: "fits te t ([] :: 'b list)"
  shows "fst (loop s t buf) = conversionOK \<longleftrightarrow>
    (\<exists>cs. (\<forall>c\<in>set cs. valid c) \<and> text_at s = encs enc_in cs \<and> fits te t (encs enc_out cs))"
proof
  obtain cs rest r where d: "\<forall>c\<in>set cs. valid c" "text_at s = encs enc_in cs @ rest" "stop rest r"
    using text_decomposes by blast
  assume ok: "fst (loop s t buf) = conversionOK"
  with loop_text [OF d assms(1), of t] have f: "fit te enc_out t cs = cs" and r: "r = conversionOK"
    by (auto simp: Let_def split: if_splits)
  with d have "text_at s = encs enc_in cs" by (simp add: stop_OK)
  moreover have "fits te t (encs enc_out cs)" using fits_fit [OF start, of enc_out cs] f by simp
  ultimately show "\<exists>cs. (\<forall>c\<in>set cs. valid c) \<and> text_at s = encs enc_in cs \<and> fits te t (encs enc_out cs)"
    using d(1) by blast
next
  assume "\<exists>cs. (\<forall>c\<in>set cs. valid c) \<and> text_at s = encs enc_in cs \<and> fits te t (encs enc_out cs)"
  with loop_all [OF _ _ assms(1)] show "fst (loop s t buf) = conversionOK" by fastforce
qed

end

end
