(* ===== verification/Unicode.thy ===== *)
theory Unicode
  imports Transcoder
begin

text \<open>
  src/libuzi/unicode.c: conversion between UTF-16 and UTF-8. Buffers are lists; a pointer into a
  buffer is an index; the pair \<open>target\<close>/\<open>targetEnd\<close> is an index and an optional end index, whose
  absence is the C code's null \<open>targetEnd\<close> (length computation only, nothing is written).
\<close>

section \<open>Constants and tables\<close>

abbreviation UNI_REPLACEMENT_CHAR :: u32 where "UNI_REPLACEMENT_CHAR \<equiv> 0xFFFD"
abbreviation UNI_MAX_BMP :: u32 where "UNI_MAX_BMP \<equiv> 0xFFFF"
abbreviation UNI_MAX_UTF16 :: u32 where "UNI_MAX_UTF16 \<equiv> 0x10FFFF"
abbreviation UNI_SUR_HIGH_START :: u32 where "UNI_SUR_HIGH_START \<equiv> 0xD800"
abbreviation UNI_SUR_HIGH_END :: u32 where "UNI_SUR_HIGH_END \<equiv> 0xDBFF"
abbreviation UNI_SUR_LOW_START :: u32 where "UNI_SUR_LOW_START \<equiv> 0xDC00"
abbreviation UNI_SUR_LOW_END :: u32 where "UNI_SUR_LOW_END \<equiv> 0xDFFF"

abbreviation halfShift :: nat where "halfShift \<equiv> 10"
abbreviation halfBase :: u32 where "halfBase \<equiv> 0x10000"
abbreviation halfMask :: u32 where "halfMask \<equiv> 0x3FF"

definition trailingBytesForUTF8 :: "nat list" where
  "trailingBytesForUTF8 =
     replicate 192 0 @ replicate 32 1 @ replicate 16 2 @ replicate 8 3 @ replicate 4 4 @ replicate 4 5"

definition offsetsFromUTF8 :: "u32 list" where
  "offsetsFromUTF8 = [0x00000000, 0x00003080, 0x000E2080, 0x03C82080, 0xFA082080, 0x82082080]"

definition firstByteMark :: "u8 list" where
  "firstByteMark = [0x00, 0x00, 0xC0, 0xE0, 0xF0, 0xF8, 0xFC]"

abbreviation byteMask :: u32 where "byteMask \<equiv> 0xBF"
abbreviation byteMark :: u32 where "byteMark \<equiv> 0x80"

section \<open>UTF-16 to UTF-8\<close>

text \<open>
  One iteration of the loop reads a character (\<open>utf16_fetch\<close>, the part up to the size computation),
  sizes it (\<open>utf8_size\<close>) and writes it backwards through the fall-through switch (\<open>utf8_put\<close>, whose
  first argument is the case label). \<open>Inl\<close> is a \<open>break\<close> with the result and the source position.
\<close>

definition utf16_fetch ::
  "u16 list \<Rightarrow> nat \<Rightarrow> ConversionFlags \<Rightarrow> nat \<Rightarrow> (ConversionResult \<times> nat) + (u32 \<times> nat)" where
  "utf16_fetch src sourceEnd flags oldSource =
     (let ch = ucast (src ! oldSource); source = oldSource + 1 in
      if UNI_SUR_HIGH_START \<le> ch \<and> ch \<le> UNI_SUR_HIGH_END then
        (if source < sourceEnd then
           (let ch2 = ucast (src ! source) in
            if UNI_SUR_LOW_START \<le> ch2 \<and> ch2 \<le> UNI_SUR_LOW_END then
              Inr (push_bit halfShift (ch - UNI_SUR_HIGH_START) + (ch2 - UNI_SUR_LOW_START) + halfBase,
                   source + 1)
            else if flags = strictConversion then Inl (sourceIllegal, source - 1)
            else Inr (ch, source))
         else Inl (sourceExhausted, source - 1))
      else if flags = strictConversion \<and> UNI_SUR_LOW_START \<le> ch \<and> ch \<le> UNI_SUR_LOW_END then
        Inl (sourceIllegal, source - 1)
      else Inr (ch, source))"

definition utf8_size :: "u32 \<Rightarrow> nat \<times> u32" where
  "utf8_size ch =
     (if ch < 0x80 then (1, ch)
      else if ch < 0x800 then (2, ch)
      else if ch < 0x10000 then (3, ch)
      else if ch < 0x110000 then (4, ch)
      else (3, UNI_REPLACEMENT_CHAR))"

fun utf8_put :: "nat \<Rightarrow> nat \<Rightarrow> nat \<Rightarrow> u32 \<Rightarrow> u8 list \<Rightarrow> nat \<times> u8 list" where
  "utf8_put 0 bytesToWrite target ch buf = (target, buf)"
| "utf8_put (Suc 0) bytesToWrite target ch buf =
     (target - 1, buf[target - 1 := ucast (ch OR ucast (firstByteMark ! bytesToWrite))])"
| "utf8_put (Suc (Suc k)) bytesToWrite target ch buf =
     utf8_put (Suc k) bytesToWrite (target - 1) (drop_bit 6 ch)
       (buf[target - 1 := ucast ((ch OR byteMark) AND byteMask)])"

function utf16to8_loop ::
  "u16 list \<Rightarrow> nat \<Rightarrow> nat option \<Rightarrow> ConversionFlags \<Rightarrow> nat \<Rightarrow> nat \<Rightarrow> u8 list
     \<Rightarrow> ConversionResult \<times> nat \<times> nat \<times> u8 list" where
  "utf16to8_loop src sourceEnd targetEnd flags source target buf =
     (if source < sourceEnd then
        (case utf16_fetch src sourceEnd flags source of
           Inl (result, source') \<Rightarrow> (result, source', target, buf)
         | Inr (ch, source') \<Rightarrow>
             (let (bytesToWrite, ch') = utf8_size ch; target' = target + bytesToWrite in
              case targetEnd of
                Some tend \<Rightarrow>
                  (if tend < target' then (targetExhausted, source, target' - bytesToWrite, buf)
                   else
                     (let (t, buf') = utf8_put bytesToWrite bytesToWrite target' ch' buf in
                      utf16to8_loop src sourceEnd targetEnd flags source' (t + bytesToWrite) buf'))
              | None \<Rightarrow>
                  utf16to8_loop src sourceEnd targetEnd flags source'
                    (target' - bytesToWrite + bytesToWrite) buf))
      else (conversionOK, source, target, buf))"
  by pat_completeness auto
termination
  by (relation "measure (\<lambda>(src, e, te, fl, s, t, b). e - s)")
    (auto simp: utf16_fetch_def Let_def split: if_splits)

declare utf16to8_loop.simps [simp del]

definition ConvertUTF16toUTF8 ::
  "u16 list \<Rightarrow> nat \<Rightarrow> nat \<Rightarrow> u8 list \<Rightarrow> nat \<Rightarrow> nat option \<Rightarrow> ConversionFlags
     \<Rightarrow> ConversionResult \<times> nat \<times> nat \<times> u8 list" where
  "ConvertUTF16toUTF8 src sourceStart sourceEnd buf targetStart targetEnd flags =
     utf16to8_loop src sourceEnd targetEnd flags sourceStart targetStart buf"

section \<open>Legality of a UTF-8 sequence\<close>

definition utf8_second_ok :: "u8 \<Rightarrow> u8 \<Rightarrow> bool" where
  "utf8_second_ok lead a =
     (if a > 0xBF then False
      else if lead = 0xE0 then \<not> a < 0xA0
      else if lead = 0xED then \<not> a > 0x9F
      else if lead = 0xF0 then \<not> a < 0x90
      else if lead = 0xF4 then \<not> a > 0x8F
      else \<not> a < 0x80)"

definition isLegalUTF8 :: "u8 list \<Rightarrow> nat \<Rightarrow> nat \<Rightarrow> bool" where
  "isLegalUTF8 src source len =
     (if len = 0 \<or> 4 < len then False
      else if 4 \<le> len \<and> (src ! (source + 3) < 0x80 \<or> src ! (source + 3) > 0xBF) then False
      else if 3 \<le> len \<and> (src ! (source + 2) < 0x80 \<or> src ! (source + 2) > 0xBF) then False
      else if 2 \<le> len \<and> \<not> utf8_second_ok (src ! source) (src ! (source + 1)) then False
      else if src ! source \<ge> 0x80 \<and> src ! source < 0xC2 then False
      else if src ! source > 0xF4 then False
      else True)"

definition isLegalUTF8Sequence :: "u8 list \<Rightarrow> nat \<Rightarrow> nat \<Rightarrow> bool" where
  "isLegalUTF8Sequence src source sourceEnd =
     (let len = trailingBytesForUTF8 ! unat (src ! source) + 1 in
      if source + len > sourceEnd then False else isLegalUTF8 src source len)"

section \<open>UTF-8 to UTF-16\<close>

text \<open>
  \<open>utf8_get\<close> is the fall-through switch that accumulates the bytes (its first argument is the case
  label), \<open>utf16_put\<close> the part of the iteration after the offset is subtracted. An iteration of
  the loop ends with \<open>Inl\<close> (a \<open>break\<close>) or \<open>Inr\<close> (the new target position and buffer).
\<close>

fun utf8_get :: "nat \<Rightarrow> u8 list \<Rightarrow> nat \<Rightarrow> u32 \<Rightarrow> nat \<times> u32" where
  "utf8_get 0 src source ch = (source + 1, ch + ucast (src ! source))"
| "utf8_get (Suc k) src source ch = utf8_get k src (source + 1) (push_bit 6 (ch + ucast (src ! source)))"

definition put16 :: "nat option \<Rightarrow> u16 \<Rightarrow> nat \<times> u16 list \<Rightarrow> nat \<times> u16 list" where
  "put16 targetEnd v tb =
     (case tb of (target, buf) \<Rightarrow>
        (target + 1, case targetEnd of None \<Rightarrow> buf | Some _ \<Rightarrow> buf[target := v]))"

definition utf16_put ::
  "nat option \<Rightarrow> ConversionFlags \<Rightarrow> u32 \<Rightarrow> nat \<Rightarrow> u16 list \<Rightarrow> ConversionResult + (nat \<times> u16 list)" where
  "utf16_put targetEnd flags ch target buf =
     (if (case targetEnd of None \<Rightarrow> False | Some tend \<Rightarrow> tend \<le> target) then Inl targetExhausted
      else if ch \<le> UNI_MAX_BMP then
        (if UNI_SUR_HIGH_START \<le> ch \<and> ch \<le> UNI_SUR_LOW_END then
           (if flags = strictConversion then Inl sourceIllegal
            else Inr (put16 targetEnd (ucast UNI_REPLACEMENT_CHAR) (target, buf)))
         else Inr (put16 targetEnd (ucast ch) (target, buf)))
      else if ch > UNI_MAX_UTF16 then
        (if flags = strictConversion then Inl sourceIllegal
         else Inr (put16 targetEnd (ucast UNI_REPLACEMENT_CHAR) (target, buf)))
      else if (case targetEnd of None \<Rightarrow> False | Some tend \<Rightarrow> tend \<le> target + 1) then Inl targetExhausted
      else
        (let ch' = ch - halfBase in
         Inr (put16 targetEnd (ucast ((ch' AND halfMask) + UNI_SUR_LOW_START))
               (put16 targetEnd (ucast (drop_bit halfShift ch' + UNI_SUR_HIGH_START)) (target, buf)))))"

lemma utf8_get_source: "fst (utf8_get k src s ch) = s + k + 1"
  by (induction k arbitrary: s ch) auto

function utf8to16_loop ::
  "u8 list \<Rightarrow> nat \<Rightarrow> nat option \<Rightarrow> ConversionFlags \<Rightarrow> nat \<Rightarrow> nat \<Rightarrow> u16 list
     \<Rightarrow> ConversionResult \<times> nat \<times> nat \<times> u16 list" where
  "utf8to16_loop src sourceEnd targetEnd flags source target buf =
     (if source < sourceEnd then
        (let extraBytesToRead = trailingBytesForUTF8 ! unat (src ! source) in
         if sourceEnd \<le> source + extraBytesToRead then (sourceExhausted, source, target, buf)
         else if \<not> isLegalUTF8 src source (extraBytesToRead + 1) then
           (sourceIllegal, source, target, buf)
         else
           (let (source', ch) = utf8_get extraBytesToRead src source 0;
                ch' = ch - offsetsFromUTF8 ! extraBytesToRead in
            case utf16_put targetEnd flags ch' target buf of
              Inl result \<Rightarrow> (result, source' - (extraBytesToRead + 1), target, buf)
            | Inr (target', buf') \<Rightarrow>
                utf8to16_loop src sourceEnd targetEnd flags source' target' buf'))
      else (conversionOK, source, target, buf))"
  by pat_completeness auto
termination
proof (relation "measure (\<lambda>(src, e, te, fl, s, t, b). e - s)", goal_cases)
  case 1
  then show ?case by simp
next
  case (2 src e te fl s t b k x s' ch ch' y t' b')
  then have "s' = s + k + 1" using utf8_get_source [of k src s 0] by (metis fst_conv)
  with 2 show ?case by auto
qed

declare utf8to16_loop.simps [simp del]

definition ConvertUTF8toUTF16 ::
  "u8 list \<Rightarrow> nat \<Rightarrow> nat \<Rightarrow> u16 list \<Rightarrow> nat \<Rightarrow> nat option \<Rightarrow> ConversionFlags
     \<Rightarrow> ConversionResult \<times> nat \<times> nat \<times> u16 list" where
  "ConvertUTF8toUTF16 src sourceStart sourceEnd buf targetStart targetEnd flags =
     utf8to16_loop src sourceEnd targetEnd flags sourceStart targetStart buf"

section \<open>The API\<close>

text \<open>
  A source buffer is a list; \<open>None\<close> is the undefined read past its end that an unterminated string
  causes when the length is to be computed. The result of the converters is a C \<open>int\<close>. Counts below
  zero put the end pointer before the start: the loops compare pointers, so they act as 0 does.
\<close>

definition uzi_wcslen :: "u16 list option \<Rightarrow> nat option" where
  "uzi_wcslen str = (case str of None \<Rightarrow> Some 0 | Some p \<Rightarrow> zscan p)"

definition UziUtf8toUtf16 :: "u8 list \<Rightarrow> int \<Rightarrow> u16 list \<Rightarrow> int \<Rightarrow> (int \<times> u16 list) option" where
  "UziUtf8toUtf16 src cchSrc dst cchDst =
     (case (if cchSrc = -1 then map_option (\<lambda>n. c_int (n + 1)) (zscan src) else Some cchSrc) of
        None \<Rightarrow> None
      | Some cch \<Rightarrow>
          (let (result, srcBeg, dstBeg, dst') =
             (if cchDst = 0 then ConvertUTF8toUTF16 src 0 (nat cch) dst 0 None strictConversion
              else ConvertUTF8toUTF16 src 0 (nat cch) dst 0 (Some (nat cchDst)) strictConversion) in
           Some (if result = conversionOK then c_int dstBeg else 0, dst')))"

definition UziUtf16toUtf8 :: "u16 list \<Rightarrow> int \<Rightarrow> u8 list \<Rightarrow> int \<Rightarrow> (int \<times> u8 list) option" where
  "UziUtf16toUtf8 src cchSrc dst cchDst =
     (case (if cchSrc = -1 then map_option (\<lambda>n. c_int (n + 1)) (uzi_wcslen (Some src)) else Some cchSrc) of
        None \<Rightarrow> None
      | Some cch \<Rightarrow>
          (let (result, srcBeg, dstBeg, dst') =
             (if cchDst = 0 then ConvertUTF16toUTF8 src 0 (nat cch) dst 0 None strictConversion
              else ConvertUTF16toUTF8 src 0 (nat cch) dst 0 (Some (nat cchDst)) strictConversion) in
           Some (if result = conversionOK then c_int dstBeg else 0, dst')))"

end
