(* ===== verification/Utf16_Reader.thy ===== *)
theory Utf16_Reader
  imports Unicode
begin

text \<open>
  The loop of \<open>ConvertUTF16toUTF8\<close> meets the contract of Transcoder: how the writer of UTF-8 bytes and
  the reader of UTF-16 units act on one character, what stops the loop, and the interpretation
  \<open>u16\<close>.
\<close>

lemma digits:
  fixes x r n :: nat
  assumes "r < n"
  shows "(x * n + r) div n = x" and "(x * n + r) mod n = r"
  using assms by (auto simp: div_mult_self3)

lemma digits64:
  fixes x y z w :: nat
  assumes "y < 64" "z < 64" "w < 64"
  shows "(x * 64 + y) div 64 = x" "(x * 64 + y) mod 64 = y"
    "(x * 4096 + y * 64 + z) div 4096 = x" "(x * 4096 + y * 64 + z) div 64 mod 64 = y"
    "(x * 4096 + y * 64 + z) mod 64 = z"
    "(x * 262144 + y * 4096 + z * 64 + w) div 262144 = x"
    "(x * 262144 + y * 4096 + z * 64 + w) div 4096 mod 64 = y"
    "(x * 262144 + y * 4096 + z * 64 + w) div 64 mod 64 = z"
    "(x * 262144 + y * 4096 + z * 64 + w) mod 64 = w"
proof -
  have a: "x * 4096 + y * 64 + z = (x * 64 + y) * 64 + z"
    and b: "x * 4096 + y * 64 + z = x * 4096 + (y * 64 + z)"
    and c: "x * 262144 + y * 4096 + z * 64 + w = (x * 4096 + y * 64 + z) * 64 + w"
    and d: "x * 262144 + y * 4096 + z * 64 + w = (x * 64 + y) * 4096 + (z * 64 + w)"
    and e: "x * 262144 + y * 4096 + z * 64 + w = x * 262144 + (y * 4096 + z * 64 + w)"
    by simp_all
  have l: "y * 64 + z < 4096" "z * 64 + w < 4096" "y * 4096 + z * 64 + w < 262144"
    using assms by linarith+
  note D = digits [OF assms(1)] digits [OF assms(2)] digits [OF assms(3)] l [THEN digits(1)] l [THEN digits(2)]
  show "(x * 64 + y) div 64 = x" "(x * 64 + y) mod 64 = y" by (simp_all only: D)
  show "(x * 4096 + y * 64 + z) div 4096 = x" by (simp only: b D)
  show "(x * 4096 + y * 64 + z) div 64 mod 64 = y" "(x * 4096 + y * 64 + z) mod 64 = z"
    by (simp_all only: a D)
  show "(x * 262144 + y * 4096 + z * 64 + w) div 262144 = x" by (simp only: e D)
  show "(x * 262144 + y * 4096 + z * 64 + w) div 4096 mod 64 = y" by (simp only: d D)
  show "(x * 262144 + y * 4096 + z * 64 + w) div 64 mod 64 = z" by (simp only: c a D)
  show "(x * 262144 + y * 4096 + z * 64 + w) mod 64 = w" by (simp only: c D)
qed

lemma trailing_eq:
  "trailingBytesForUTF8 ! unat (b :: u8) =
     (if unat b < 0xC0 then 0 else if unat b < 0xE0 then 1 else if unat b < 0xF0 then 2
      else if unat b < 0xF8 then 3 else if unat b < 0xFC then 4 else 5)"
proof -
  have "unat b < 256" using unsigned_less [of b] by simp
  then show ?thesis by (auto simp: trailingBytesForUTF8_def nth_append)
qed

lemma utf8_cont_byte: "(ucast (((x :: u32) OR byteMark) AND byteMask) :: u8) = word_of_nat (0x80 + unat x mod 64)"
proof -
  have 1: "(x OR byteMark) AND byteMask = byteMark OR (x AND mask 6)"
    by (rule bit_word_eqI) (auto simp: bit_simps numeral_eq_Suc less_Suc_eq)
  have 2: "byteMark AND (x AND mask 6) = 0"
    by (rule bit_word_eqI) (auto simp: bit_simps numeral_eq_Suc less_Suc_eq)
  have 3: "unat (x AND mask 6) = unat x mod 64" by (simp add: unat_and_mask)
  have "unat ((x OR byteMark) AND byteMask) = 0x80 + unat x mod 64"
    unfolding 1 word_or_disjoint [OF 2] using 3 by (simp add: unat_word_ariths)
  then show ?thesis
    by (intro word_eq_of_nat_iff [THEN iffD2]) (auto simp: unat_ucast_mod intro: less_le_trans [of _ "0x80 + 64"])
qed

lemma utf8_lead_byte:
  assumes "unat (x :: u32) < 2 ^ k" and "(m, k) \<in> {(0xC0, 5), (0xE0, 4), (0xF0, 3)}"
  shows "(ucast (x OR ucast (m :: u8)) :: u8) = word_of_nat (unat m + unat x)"
proof -
  have x: "x = x AND mask k" using assms(1) by (simp add: word_and_mask_self)
  have "(x AND mask k) AND ucast m = 0"
    using assms(2) by (intro bit_word_eqI) (auto simp: bit_simps numeral_eq_Suc less_Suc_eq)
  then have "x OR ucast m = x + ucast m" using x by (metis word_or_disjoint)
  moreover have "unat (x + ucast m) = unat m + unat x"
    using assms by (auto simp: unat_word_ariths unat_ucast_up)
  ultimately show ?thesis
    using assms by (intro word_eq_of_nat_iff [THEN iffD2]) (auto simp: unat_ucast_mod)
qed

lemma utf8_size_enc: "c < 0x110000 \<Longrightarrow> utf8_size (word_of_nat c) = (length (utf8_enc c), word_of_nat c)"
  by (simp add: utf8_size_def utf8_enc_def word_less_nat_alt unat_of_nat_small)

lemma unat_word_of_nat32 [simp]: "c < 0x110000 \<Longrightarrow> unat (word_of_nat c :: u32) = c"
  by (rule unat_of_nat_small) simp

lemma utf8_put_step:
  "utf8_put (Suc (Suc k)) n t ch buf =
     utf8_put (Suc k) n (t - 1) (drop_bit 6 ch) (buf[t - 1 := word_of_nat (0x80 + unat ch mod 64)])"
  by (simp only: utf8_put.simps utf8_cont_byte)

lemma firstByteMark_nth:
  "firstByteMark ! Suc 0 = 0" "firstByteMark ! Suc (Suc 0) = 0xC0"
  "firstByteMark ! Suc (Suc (Suc 0)) = 0xE0" "firstByteMark ! Suc (Suc (Suc (Suc 0))) = 0xF0"
  by (simp_all add: firstByteMark_def)

lemma unat_shift6: "unat (drop_bit 6 (ch :: u32)) = unat ch div 64"
  by (simp add: unat_drop_bit)

lemmas utf8_put_rules = utf8_put_step utf8_put.simps(2) firstByteMark_nth unat_shift6

lemma utf8_put_lead:
  assumes "unat (x :: u32) < 2 ^ k" and "(firstByteMark ! n, k) \<in> {(0xC0, 5), (0xE0, 4), (0xF0, 3)}"
  shows "utf8_put (Suc 0) n t x buf = (t - 1, buf[t - 1 := word_of_nat (unat (firstByteMark ! n) + unat x)])"
  by (simp only: utf8_put.simps utf8_lead_byte [OF assms])

lemma utf8_put_2:
  assumes "unat ch = c" and "c < 0x800" and "Suc t < length buf"
  shows "utf8_put (Suc (Suc 0)) (Suc (Suc 0)) (Suc (Suc t)) ch buf =
    (t, overwrite t [word_of_nat (0xC0 + c div 64), word_of_nat (0x80 + c mod 64)] buf)"
  using assms
  by (simp add: utf8_put_step utf8_put_lead [where k = 5] firstByteMark_nth overwrite_Cons unat_shift6
      div_less_iff_less_mult del: of_nat_add utf8_put.simps)

lemma utf8_put_3:
  assumes "unat ch = c" and "c < 0x10000" and "Suc (Suc t) < length buf"
  shows "utf8_put (Suc (Suc (Suc 0))) (Suc (Suc (Suc 0))) (Suc (Suc (Suc t))) ch buf =
    (t, overwrite t [word_of_nat (0xE0 + c div 4096), word_of_nat (0x80 + c div 64 mod 64),
       word_of_nat (0x80 + c mod 64)] buf)"
  using assms
  by (simp add: utf8_put_step utf8_put_lead [where k = 4] firstByteMark_nth overwrite_Cons unat_shift6
      div_less_iff_less_mult div_mult2_eq [symmetric] del: of_nat_add utf8_put.simps drop_bit_drop_bit)

lemma utf8_put_4:
  assumes "unat ch = c" and "c < 0x110000" and "Suc (Suc (Suc t)) < length buf"
  shows "utf8_put (Suc (Suc (Suc (Suc 0)))) (Suc (Suc (Suc (Suc 0)))) (Suc (Suc (Suc (Suc t)))) ch buf =
    (t, overwrite t [word_of_nat (0xF0 + c div 262144), word_of_nat (0x80 + c div 4096 mod 64),
       word_of_nat (0x80 + c div 64 mod 64), word_of_nat (0x80 + c mod 64)] buf)"
  using assms
  by (simp add: utf8_put_step utf8_put_lead [where k = 3] firstByteMark_nth overwrite_Cons unat_shift6
      div_less_iff_less_mult div_mult2_eq [symmetric] del: of_nat_add utf8_put.simps drop_bit_drop_bit)

lemma utf8_put_enc:
  assumes "c < 0x110000" and "t + length (utf8_enc c) \<le> length buf"
  shows "utf8_put (length (utf8_enc c)) (length (utf8_enc c)) (t + length (utf8_enc c)) (word_of_nat c) buf =
    (t, overwrite t (utf8_enc c) buf)"
proof -
  have x: "unat (word_of_nat c :: u32) = c" using assms(1) by simp
  have x1: "c < 0x80 \<Longrightarrow> (ucast (word_of_nat c :: u32) :: u8) = word_of_nat c"
    by (intro word_eq_of_nat_iff [THEN iffD2]) (auto simp: unat_ucast_mod)
  consider "c < 0x80" | "0x80 \<le> c" "c < 0x800" | "0x800 \<le> c" "c < 0x10000" | "0x10000 \<le> c" by linarith
  then show ?thesis
  proof cases
    case 1
    then show ?thesis using assms x1 by (simp add: utf8_enc_def firstByteMark_nth overwrite_Cons)
  qed (use assms in \<open>simp_all add: utf8_enc_def utf8_put_2 [OF x] utf8_put_3 [OF x] utf8_put_4 [OF x]
    del: utf8_put.simps of_nat_add\<close>)
qed

lemma utf16_fetch_bmp:
  assumes "scalar c" and "c < 0x10000" and "src ! s = word_of_nat c"
  shows "utf16_fetch src e flags s = Inr (word_of_nat c, s + 1)"
proof -
  have "unat (ucast (src ! s) :: u32) = c"
    using assms by (simp add: unat_ucast_up unat_of_nat_small)
  then have "(ucast (src ! s) :: u32) = word_of_nat c" using assms(2) by (subst word_eq_of_nat_iff) simp_all
  then show ?thesis using assms(1,2)
    by (auto simp: utf16_fetch_def Let_def scalar_def word_le_nat_alt)
qed

lemma unat_surrogate:
  "d < 0x400 \<Longrightarrow> unat (ucast (word_of_nat (0xD800 + d) :: u16) :: u32) = 0xD800 + d"
  "d < 0x400 \<Longrightarrow> unat (ucast (word_of_nat (0xDC00 + d) :: u16) :: u32) = 0xDC00 + d"
  by (simp_all add: unat_ucast_up unat_of_nat_small del: of_nat_add)

lemma surrogate_pair:
  assumes "h < 0x400" and "l < 0x400"
    and "unat (x :: u32) = 0xD800 + h" and "unat (y :: u32) = 0xDC00 + l"
  shows "push_bit halfShift (x - UNI_SUR_HIGH_START) + (y - UNI_SUR_LOW_START) + halfBase =
    word_of_nat (0x10000 + h * 0x400 + l)"
proof -
  have x: "x = word_of_nat (0xD800 + h)" and y: "y = word_of_nat (0xDC00 + l)"
    using assms by (simp_all add: word_eq_of_nat_iff del: of_nat_add)
  show ?thesis by (simp add: x y push_bit_eq_mult algebra_simps)
qed

lemma utf16_fetch_pair:
  assumes "scalar c" and "0x10000 \<le> c" and "Suc s < e"
    and "src ! s = word_of_nat (0xD800 + (c - 0x10000) div 1024)"
    and "src ! Suc s = word_of_nat (0xDC00 + (c - 0x10000) mod 1024)"
  shows "utf16_fetch src e flags s = Inr (word_of_nat c, s + 2)"
proof -
  let ?d = "c - 0x10000"
  have h: "?d div 1024 < 0x400" and l: "?d mod 1024 < 0x400"
    using assms(1,2) by (auto simp: scalar_def div_less_iff_less_mult)
  have u: "unat (ucast (src ! s) :: u32) = 0xD800 + ?d div 1024" 
    "unat (ucast (src ! Suc s) :: u32) = 0xDC00 + ?d mod 1024"
    using unat_surrogate(1) [OF h] unat_surrogate(2) [OF l] assms(4,5) by simp_all
  have "0x10000 + ?d div 1024 * 0x400 + ?d mod 1024 = c" using assms(2) by simp
  then show ?thesis
    using surrogate_pair [OF h l u] u h l assms(3)
    by (simp add: utf16_fetch_def Let_def word_le_nat_alt)
qed

definition high_surrogate :: "u16 \<Rightarrow> bool" where
  "high_surrogate u \<longleftrightarrow> 0xD800 \<le> unat u \<and> unat u < 0xDC00"

definition low_surrogate :: "u16 \<Rightarrow> bool" where
  "low_surrogate u \<longleftrightarrow> 0xDC00 \<le> unat u \<and> unat u < 0xE000"

fun utf16_stop :: "u16 list \<Rightarrow> ConversionResult \<Rightarrow> bool" where
  "utf16_stop [] r = (r = conversionOK)"
| "utf16_stop [u] r = (high_surrogate u \<and> r = sourceExhausted \<or> low_surrogate u \<and> r = sourceIllegal)"
| "utf16_stop (u # v # vs) r =
     ((high_surrogate u \<and> \<not> low_surrogate v \<or> low_surrogate u) \<and> r = sourceIllegal)"

lemma ucast_surrogate:
  "UNI_SUR_HIGH_START \<le> (ucast (u :: u16) :: u32) \<and> (ucast u :: u32) \<le> UNI_SUR_HIGH_END \<longleftrightarrow> high_surrogate u"
  "UNI_SUR_LOW_START \<le> (ucast u :: u32) \<and> (ucast u :: u32) \<le> UNI_SUR_LOW_END \<longleftrightarrow> low_surrogate u"
  by (auto simp: high_surrogate_def low_surrogate_def word_le_nat_alt unat_ucast_up)

lemma not_both_surrogates: "high_surrogate u \<Longrightarrow> \<not> low_surrogate u"
  by (simp add: high_surrogate_def low_surrogate_def)

lemma utf16_fetch_stop:
  assumes "drop s src = u # us" and "utf16_stop (u # us) r"
  shows "utf16_fetch (src @ junk) (length src) strictConversion s = Inl (r, s)"
proof (cases us)
  case Nil
  then have "\<not> Suc s < length src" using drop_Cons_nth(3) [OF assms(1)] by simp
  then show ?thesis using assms(2) Nil drop_Cons_nth [OF assms(1)]
    by (auto simp: utf16_fetch_def Let_def ucast_surrogate not_both_surrogates nth_append)
next
  case (Cons v vs)
  then have "drop (Suc s) src = v # vs" using drop_Cons_nth(3) [OF assms(1)] by simp
  from drop_Cons_nth [OF this] show ?thesis
    using assms(2) Cons drop_Cons_nth [OF assms(1)]
    by (auto simp: utf16_fetch_def Let_def ucast_surrogate not_both_surrogates nth_append)
qed

lemma utf16_fetch_enc:
  assumes "scalar c" and at: "drop s src = utf16_enc c @ ys"
  shows "s < length src"
    and "utf16_fetch (src @ junk) (length src) flags s = Inr (word_of_nat c, s + length (utf16_enc c))"
proof -
  obtain u us where u: "utf16_enc c = u # us" by (cases "utf16_enc c") (auto simp: utf16_enc_def split: if_splits)
  with at show s: "s < length src" using drop_Cons_nth(1) [of s src u "us @ ys"] by simp
  show "utf16_fetch (src @ junk) (length src) flags s = Inr (word_of_nat c, s + length (utf16_enc c))"
  proof (cases "c < 0x10000")
    case True
    with at have "(src @ junk) ! s = word_of_nat c"
      using drop_Cons_nth(2) [of s src "word_of_nat c" ys] s by (simp add: utf16_enc_def nth_append)
    from utf16_fetch_bmp [OF assms(1) True this] show ?thesis using True by (simp add: utf16_enc_def)
  next
    case False
    with at u obtain v where v: "utf16_enc c = [u, v]" by (auto simp: utf16_enc_def)
    with at have d: "drop s src = u # v # ys" by simp
    note 1 = drop_Cons_nth [OF d]
    note 2 = drop_Cons_nth [OF 1(3)]
    show ?thesis using utf16_fetch_pair [OF assms(1), of s "length src" "src @ junk" flags] 1 2 v False
      by (simp add: utf16_enc_def nth_append)
  qed
qed

lemma utf16to8_stop:
  assumes "utf16_stop (drop s src) r"
  shows "utf16to8_loop (src @ junk) (length src) te strictConversion s t buf = (r, s, t, buf)"
proof (cases "drop s src")
  case Nil
  then show ?thesis using assms by (subst utf16to8_loop.simps) simp
next
  case (Cons u us)
  then show ?thesis
    using utf16_fetch_stop [of s src u us r junk] drop_Cons_nth(1) [of s src u us] assms
    by (subst utf16to8_loop.simps) simp
qed

lemma utf16to8_char:
  assumes "scalar c" and "drop s src = utf16_enc c @ ys" and "room te buf" and "fits te t (utf8_enc c)"
  shows "utf16to8_loop (src @ junk) (length src) te flags s t buf =
    utf16to8_loop (src @ junk) (length src) te flags (s + length (utf16_enc c)) (t + length (utf8_enc c))
      (store te t (utf8_enc c) buf)"
proof -
  have "c < 0x110000" using assms(1) by (auto simp: scalar_def)
  then show ?thesis
    using utf16_fetch_enc [OF assms(1,2)] utf8_size_enc utf8_put_enc [of c t buf] assms(3,4)
    by (subst utf16to8_loop.simps)
      (simp add: Let_def store_def room_def fits_def split: option.splits)
qed

lemma utf16to8_full:
  assumes "scalar c" and "drop s src = utf16_enc c @ ys" and "\<not> fits te t (utf8_enc c)"
  shows "utf16to8_loop (src @ junk) (length src) te flags s t buf = (targetExhausted, s, t, buf)"
proof -
  have "c < 0x110000" using assms(1) by (auto simp: scalar_def)
  then show ?thesis
    using utf16_fetch_enc [OF assms(1,2)] utf8_size_enc assms(3)
    by (subst utf16to8_loop.simps)
      (simp add: Let_def fits_def split: option.splits)
qed

lemma unat_split_scalar: "\<not> high_surrogate u \<Longrightarrow> \<not> low_surrogate u \<Longrightarrow> scalar (unat (u :: u16)) \<and> utf16_enc (unat u) = [u]"
  using unsigned_less [of u] by (auto simp: high_surrogate_def low_surrogate_def scalar_def utf16_enc_def)

lemma pair_enc:
  assumes "high_surrogate u" and "low_surrogate v"
  shows "\<exists>c. scalar c \<and> utf16_enc c = [u, v]"
proof -
  let ?h = "unat u - 0xD800" and ?l = "unat v - 0xDC00"
  let ?c = "0x10000 + (?h * 1024 + ?l)"
  have b: "?h < 1024" "?l < 1024" and u: "0xD800 + ?h = unat u" "0xDC00 + ?l = unat v"
    using assms by (auto simp: high_surrogate_def low_surrogate_def)
  have "(?h * 1024 + ?l) div 1024 = ?h" "(?h * 1024 + ?l) mod 1024 = ?l" 
    using digits [OF b(2)] by simp_all
  then have "utf16_enc ?c = [word_of_nat (0xD800 + ?h), word_of_nat (0xDC00 + ?l)]"
    by (simp add: utf16_enc_def del: of_nat_add)
  then have "utf16_enc ?c = [u, v]" unfolding u by simp
  moreover have "scalar ?c" using b by (auto simp: scalar_def)
  ultimately show ?thesis by blast
qed

lemma utf16_cover: "(\<exists>r. utf16_stop us r) \<or> (\<exists>c ys. scalar c \<and> us = utf16_enc c @ ys)"
proof (cases us)
  case (Cons u vs)
  show ?thesis
  proof (cases "high_surrogate u \<or> low_surrogate u")
    case False
    with unat_split_scalar [of u] Cons have "scalar (unat u) \<and> us = utf16_enc (unat u) @ vs" by simp
    then show ?thesis by blast
  next
    case sur: True
    show ?thesis
    proof (cases vs)
      case Nil
      with sur Cons show ?thesis by auto
    next
      case (Cons v ws)
      show ?thesis
      proof (cases "high_surrogate u \<and> low_surrogate v")
        case True
        with pair_enc obtain c where "scalar c" "utf16_enc c = [u, v]" by blast
        with \<open>us = u # vs\<close> Cons have "scalar c \<and> us = utf16_enc c @ ws" by simp
        then show ?thesis by blast
      qed (use sur Cons \<open>us = u # vs\<close> in auto)
    qed
  qed
qed simp

lemma utf16_stop_OK: "utf16_stop us conversionOK \<longleftrightarrow> us = []"
  by (cases "(us, conversionOK)" rule: utf16_stop.cases) auto


lemma utf16_enc_nonempty: "utf16_enc c \<noteq> []"
  by (simp add: utf16_enc_def)

interpretation u16: transcoder "utf16to8_loop (src @ junk) (length src) te strictConversion"
  "\<lambda>s. drop s src" te scalar utf16_enc utf8_enc utf16_stop for src junk te
  by unfold_locales
    (use utf16_cover in \<open>auto simp: utf16_enc_nonempty utf16_stop_OK
      intro: drop_append_length utf16to8_char utf16to8_full utf16to8_stop\<close>)

end
