(* ===== verification/Utf8_Legality.thy ===== *)
theory Utf8_Legality
  imports Utf16_Reader
begin

text \<open>
  What \<open>isLegalUTF8\<close> accepts: the well-formed sequences of the Unicode standard and, because two cases
  of its switch lack the lower bound on the second byte, the sequences of \<open>utf8_defect\<close>.
\<close>

abbreviation trailing :: "u8 \<Rightarrow> nat" where
  "trailing b \<equiv> trailingBytesForUTF8 ! unat b"

definition cont :: "u8 \<Rightarrow> bool" where
  "cont b \<longleftrightarrow> 0x80 \<le> unat b \<and> unat b < 0xC0"

text \<open>Sequences that \<open>isLegalUTF8\<close> lets through although their second byte is an ASCII byte.\<close>

fun utf8_defect :: "u8 list \<Rightarrow> bool" where
  "utf8_defect [a, b, c] = (unat a = 0xED \<and> unat b < 0x80 \<and> cont c)"
| "utf8_defect [a, b, c, d] = (unat a = 0xF4 \<and> unat b < 0x80 \<and> cont c \<and> cont d)"
| "utf8_defect _ = False"

lemma isLegalUTF8_bytes:
  "s + n \<le> length xs \<Longrightarrow> isLegalUTF8 xs s n = isLegalUTF8 (take n (drop s xs)) 0 n"
  by (auto simp: isLegalUTF8_def)

lemmas legal_nat = isLegalUTF8_def utf8_second_ok_def cont_def word_le_nat_alt word_less_nat_alt
  word_unat_eq_iff trailing_eq

lemma legal_1: "isLegalUTF8 [a] 0 (Suc 0) \<and> trailing a = 0 \<longleftrightarrow> unat a < 0x80"
  by (auto simp: legal_nat split: if_splits)

lemma legal_2: "isLegalUTF8 [a, b] 0 (Suc (Suc 0)) \<and> trailing a = Suc 0 \<longleftrightarrow>
  0xC2 \<le> unat a \<and> unat a < 0xE0 \<and> cont b"
  by (auto simp: legal_nat split: if_splits)

lemma legal_3: "isLegalUTF8 [a, b, c] 0 (Suc (Suc (Suc 0))) \<and> trailing a = Suc (Suc 0) \<longleftrightarrow>
  0xE0 \<le> unat a \<and> unat a < 0xF0 \<and> cont b \<and> cont c \<and>
  (unat a = 0xE0 \<longrightarrow> 0xA0 \<le> unat b) \<and> (unat a = 0xED \<longrightarrow> unat b < 0xA0) \<or> utf8_defect [a, b, c]"
  by (auto simp: legal_nat split: if_splits)

lemma legal_4: "isLegalUTF8 [a, b, c, d] 0 (Suc (Suc (Suc (Suc 0)))) \<and> trailing a = Suc (Suc (Suc 0)) \<longleftrightarrow>
  0xF0 \<le> unat a \<and> unat a < 0xF5 \<and> cont b \<and> cont c \<and> cont d \<and>
  (unat a = 0xF0 \<longrightarrow> 0x90 \<le> unat b) \<and> (unat a = 0xF4 \<longrightarrow> unat b < 0x90) \<or> utf8_defect [a, b, c, d]"
  by (auto simp: legal_nat split: if_splits)

lemma utf8_unats:
  assumes "c < 0x110000"
  shows "map unat (utf8_enc c) =
     (if c < 0x80 then [c] else if c < 0x800 then [0xC0 + c div 64, 0x80 + c mod 64]
      else if c < 0x10000 then [0xE0 + c div 4096, 0x80 + c div 64 mod 64, 0x80 + c mod 64]
      else [0xF0 + c div 262144, 0x80 + c div 4096 mod 64, 0x80 + c div 64 mod 64, 0x80 + c mod 64])"
proof -
  have m: "x mod 64 < 64" for x :: nat by simp
  have "c div 262144 < 16" using assms by (simp add: div_less_iff_less_mult)
  moreover have "c < 0x10000 \<Longrightarrow> c div 4096 < 16" "c < 0x800 \<Longrightarrow> c div 64 < 32"
    by (simp_all add: div_less_iff_less_mult)
  ultimately show ?thesis
    by (auto simp: utf8_enc_def unat_of_nat_small trans_less_add1 add_less_le_mono intro!: unat_of_nat_small
        simp del: of_nat_add intro: order.strict_trans [OF add_strict_left_mono [OF m]])
qed

lemma utf8_enc_eq_iff: "c < 0x110000 \<Longrightarrow> bs = utf8_enc c \<longleftrightarrow> map unat bs = map unat (utf8_enc c)"
  by (metis inj_map_eq_map inj_on_def unsigned_word_eqI)

lemma mid_digit:
  fixes c :: nat
  shows "c div 64 mod 64 = c mod 4096 div 64" and "c div 4096 mod 64 = c mod 262144 div 4096"
proof -
  have "c mod (64 * 64) = 64 * (c div 64 mod 64) + c mod 64" by (rule mod_mult2_eq)
  then show "c div 64 mod 64 = c mod 4096 div 64" by simp
  have "c mod (4096 * 64) = 4096 * (c div 4096 mod 64) + c mod 4096" by (rule mod_mult2_eq)
  then show "c div 4096 mod 64 = c mod 262144 div 4096" by simp
qed

lemma scalar_bound: "scalar c \<Longrightarrow> c < 0x110000"
  by (auto simp: scalar_def)

lemma enc_1: "(\<exists>c. scalar c \<and> [a] = utf8_enc c) \<longleftrightarrow> unat a < 0x80"
proof
  assume "\<exists>c. scalar c \<and> [a] = utf8_enc c"
  then show "unat a < 0x80" by (auto simp: utf8_enc_eq_iff utf8_unats scalar_bound split: if_splits)
next
  assume a: "unat a < 0x80"
  then have "scalar (unat a) \<and> [a] = utf8_enc (unat a)"
    by (auto simp: utf8_enc_eq_iff utf8_unats scalar_def)
  then show "\<exists>c. scalar c \<and> [a] = utf8_enc c" by blast
qed

lemma enc_2: "(\<exists>c. scalar c \<and> [a, b] = utf8_enc c) \<longleftrightarrow> 0xC2 \<le> unat a \<and> unat a < 0xE0 \<and> cont b"
proof
  assume "\<exists>c. scalar c \<and> [a, b] = utf8_enc c"
  then show "0xC2 \<le> unat a \<and> unat a < 0xE0 \<and> cont b"
    by (auto simp: utf8_enc_eq_iff utf8_unats scalar_bound cont_def split: if_splits)
next
  assume ab: "0xC2 \<le> unat a \<and> unat a < 0xE0 \<and> cont b"
  define x y where "x = unat a - 0xC0" and "y = unat b - 0x80"
  with ab have u: "unat a = 0xC0 + x" "unat b = 0x80 + y" and l: "y < 64" "2 \<le> x" "x < 32" by (auto simp: cont_def)
  have "map unat [a, b] = map unat (utf8_enc (x * 64 + y))"
    using l by (subst utf8_unats) (auto simp: u digits64)
  moreover have "scalar (x * 64 + y)" using l by (auto simp: scalar_def)
  ultimately show "\<exists>c. scalar c \<and> [a, b] = utf8_enc c"
    by (metis utf8_enc_eq_iff scalar_bound)
qed

lemma enc_3: "(\<exists>c. scalar c \<and> [a, b, c'] = utf8_enc c) \<longleftrightarrow>
  0xE0 \<le> unat a \<and> unat a < 0xF0 \<and> cont b \<and> cont c' \<and>
  (unat a = 0xE0 \<longrightarrow> 0xA0 \<le> unat b) \<and> (unat a = 0xED \<longrightarrow> unat b < 0xA0)" (is "?E \<longleftrightarrow> ?L")
proof
  assume ?E
  then obtain c where c: "scalar c" "unat a = 0xE0 + c div 4096" "unat b = 0x80 + c div 64 mod 64"
    "unat c' = 0x80 + c mod 64" "0x800 \<le> c" "c < 0x10000"
    by (auto simp: utf8_enc_eq_iff utf8_unats scalar_bound split: if_splits)
  have "c div 4096 < 16" using c(6) by (simp add: div_less_iff_less_mult)
  moreover have "c div 4096 = 0 \<Longrightarrow> 32 \<le> c div 64 mod 64"
    using c(5) div_le_mono [OF c(5), of 64] by (simp add: mid_digit div_eq_0_iff)
  moreover have "c div 4096 = 13 \<Longrightarrow> c div 64 mod 64 < 32"
    using c(1) div_mult_mod_eq [of c 4096] mod_less_divisor [of 4096 c]
    by (auto simp: mid_digit scalar_def div_less_iff_less_mult)
  ultimately show ?L using c by (auto simp: cont_def)
next
  assume L: ?L
  define x y z where "x = unat a - 0xE0" and "y = unat b - 0x80" and "z = unat c' - 0x80"
  with L have u: "unat a = 0xE0 + x" "unat b = 0x80 + y" "unat c' = 0x80 + z" and l: "y < 64" "z < 64" "x < 16"
    and m: "x = 0 \<Longrightarrow> 32 \<le> y" "x = 13 \<Longrightarrow> y < 32" by (auto simp: cont_def)
  let ?c = "x * 4096 + y * 64 + z"
  have r: "0x800 \<le> ?c" "?c < 0x10000" using l m by (cases "x = 0"; simp)+
  have "map unat [a, b, c'] = map unat (utf8_enc ?c)"
    using l r by (subst utf8_unats) (auto simp: u digits64)
  moreover have "scalar ?c"
  proof -
    consider "x < 13" | "x = 13" | "13 < x" by linarith
    then show ?thesis using l m r by cases (auto simp: scalar_def)
  qed
  ultimately show ?E by (metis utf8_enc_eq_iff scalar_bound)
qed

lemma enc_4: "(\<exists>c. scalar c \<and> [a, b, c', d] = utf8_enc c) \<longleftrightarrow>
  0xF0 \<le> unat a \<and> unat a < 0xF5 \<and> cont b \<and> cont c' \<and> cont d \<and>
  (unat a = 0xF0 \<longrightarrow> 0x90 \<le> unat b) \<and> (unat a = 0xF4 \<longrightarrow> unat b < 0x90)" (is "?E \<longleftrightarrow> ?L")
proof
  assume ?E
  then obtain c where c: "scalar c" "unat a = 0xF0 + c div 262144" "unat b = 0x80 + c div 4096 mod 64"
    "unat c' = 0x80 + c div 64 mod 64" "unat d = 0x80 + c mod 64" "0x10000 \<le> c" "c < 0x110000"
    by (auto simp: utf8_enc_eq_iff utf8_unats scalar_bound split: if_splits)
  have "c div 262144 < 5" using c(7) by (simp add: div_less_iff_less_mult)
  moreover have "c div 262144 = 0 \<Longrightarrow> 16 \<le> c div 4096 mod 64"
    using c(6) div_le_mono [OF c(6), of 4096] by (simp add: mid_digit div_eq_0_iff)
  moreover have "c div 262144 = 4 \<Longrightarrow> c div 4096 mod 64 < 16"
    using c(7) div_mult_mod_eq [of c 262144] by (auto simp: mid_digit div_less_iff_less_mult)
  ultimately show ?L using c by (auto simp: cont_def)
next
  assume L: ?L
  define x y z w where "x = unat a - 0xF0" and "y = unat b - 0x80" and "z = unat c' - 0x80" and "w = unat d - 0x80"
  with L have u: "unat a = 0xF0 + x" "unat b = 0x80 + y" "unat c' = 0x80 + z" "unat d = 0x80 + w"
    and l: "y < 64" "z < 64" "w < 64" "x < 5"
    and m: "x = 0 \<Longrightarrow> 16 \<le> y" "x = 4 \<Longrightarrow> y < 16" by (auto simp: cont_def)
  let ?c = "x * 262144 + y * 4096 + z * 64 + w"
  have r: "0x10000 \<le> ?c" using l m by (cases "x = 0") simp_all
  have s: "?c < 0x110000" using l m by (cases "x = 4") simp_all
  have "map unat [a, b, c', d] = map unat (utf8_enc ?c)"
    using l r s by (subst utf8_unats) (auto simp: u digits64)
  moreover have "scalar ?c" using r s by (simp add: scalar_def)
  ultimately show ?E by (metis utf8_enc_eq_iff scalar_bound)
qed

definition utf8_accepted :: "u8 list \<Rightarrow> bool" where
  "utf8_accepted bs \<longleftrightarrow> (\<exists>c. scalar c \<and> bs = utf8_enc c) \<or> utf8_defect bs"

fun utf8_value :: "u8 list \<Rightarrow> nat" where
  "utf8_value [a] = unat a"
| "utf8_value [a, b] = (unat a * 64 + unat b) - 0x3080"
| "utf8_value [a, b, c] = ((unat a * 64 + unat b) * 64 + unat c) - 0xE2080"
| "utf8_value [a, b, c, d] = (((unat a * 64 + unat b) * 64 + unat c) * 64 + unat d) - 0x3C82080"
| "utf8_value _ = 0"

lemma utf8_enc_nonempty: "utf8_enc c \<noteq> []"
  by (simp add: utf8_enc_def)

lemma utf8_value_unats:
  "map unat bs = [a] \<Longrightarrow> utf8_value bs = a"
  "map unat bs = [a, b] \<Longrightarrow> utf8_value bs = (a * 64 + b) - 0x3080"
  "map unat bs = [a, b, c] \<Longrightarrow> utf8_value bs = ((a * 64 + b) * 64 + c) - 0xE2080"
  "map unat bs = [a, b, c, d] \<Longrightarrow> utf8_value bs = (((a * 64 + b) * 64 + c) * 64 + d) - 0x3C82080"
  by (auto simp: map_eq_Cons_conv)

lemma split_digits:
  fixes c :: nat
  shows "c div 64 * 64 + c mod 64 = c"
    and "(c div 4096 * 64 + c div 64 mod 64) * 64 + c mod 64 = c"
    and "((c div 262144 * 64 + c div 4096 mod 64) * 64 + c div 64 mod 64) * 64 + c mod 64 = c"
proof -
  have a: "c div 4096 = c div 64 div 64" and b: "c div 262144 = c div 4096 div 64"
    by (simp_all add: div_mult2_eq [symmetric])
  show 1: "c div 64 * 64 + c mod 64 = c" by (rule div_mult_mod_eq)
  show 2: "(c div 4096 * 64 + c div 64 mod 64) * 64 + c mod 64 = c" unfolding a by (simp only: div_mult_mod_eq)
  show "((c div 262144 * 64 + c div 4096 mod 64) * 64 + c div 64 mod 64) * 64 + c mod 64 = c"
    unfolding b by (simp only: div_mult_mod_eq 2)
qed

lemma utf8_offsets:
  fixes x y z w :: nat
  shows "(0xC0 + x) * 64 + (0x80 + y) - 0x3080 = x * 64 + y"
    and "((0xE0 + x) * 64 + (0x80 + y)) * 64 + (0x80 + z) - 0xE2080 = (x * 64 + y) * 64 + z"
    and "(((0xF0 + x) * 64 + (0x80 + y)) * 64 + (0x80 + z)) * 64 + (0x80 + w) - 0x3C82080 =
      ((x * 64 + y) * 64 + z) * 64 + w"
  by simp_all

lemma utf8_value_enc: "c < 0x110000 \<Longrightarrow> utf8_value (utf8_enc c) = c"
proof -
  assume c: "c < 0x110000"
  note u = utf8_unats [OF c]
  consider "c < 0x80" | "0x80 \<le> c" "c < 0x800" | "0x800 \<le> c" "c < 0x10000" | "0x10000 \<le> c" by linarith
  then show ?thesis
  proof cases
    case 1
    then show ?thesis using u by (intro utf8_value_unats(1)) simp
  next
    case 2
    then have "map unat (utf8_enc c) = [0xC0 + c div 64, 0x80 + c mod 64]" using u by simp
    from utf8_value_unats(2) [OF this] show ?thesis by (simp only: utf8_offsets split_digits)
  next
    case 3
    then have "map unat (utf8_enc c) = [0xE0 + c div 4096, 0x80 + c div 64 mod 64, 0x80 + c mod 64]" using u by simp
    from utf8_value_unats(3) [OF this] show ?thesis by (simp only: utf8_offsets split_digits)
  next
    case 4
    then have "map unat (utf8_enc c) = [0xF0 + c div 262144, 0x80 + c div 4096 mod 64, 0x80 + c div 64 mod 64, 0x80 + c mod 64]"
      using u by simp
    from utf8_value_unats(4) [OF this] show ?thesis by (simp only: utf8_offsets split_digits)
  qed
qed

lemma utf8_defect_cases:
  assumes "utf8_defect bs"
  obtains a b c where "bs = [a, b, c]" "unat a = 0xED" "unat b < 0x80" "cont c"
  | a b c d where "bs = [a, b, c, d]" "unat a = 0xF4" "unat b < 0x80" "cont c" "cont d"
  using assms by (cases bs rule: utf8_defect.cases) auto

lemma accepted_scalar: "utf8_accepted bs \<Longrightarrow> scalar (utf8_value bs)"
  unfolding utf8_accepted_def
  by (auto simp: utf8_value_enc scalar_bound elim!: utf8_defect_cases) (auto simp: scalar_def cont_def)

lemma legal_accepted:
  assumes "length bs = trailing (hd bs) + 1"
  shows "isLegalUTF8 bs 0 (length bs) \<longleftrightarrow> utf8_accepted bs"
proof -
  have "length bs \<noteq> 0" using assms by simp
  then consider a where "bs = [a]" | a b where "bs = [a, b]" | a b c where "bs = [a, b, c]"
    | a b c d where "bs = [a, b, c, d]" | "4 < length bs"
    by (cases bs rule: utf8_defect.cases) auto
  then show ?thesis
  proof cases
    case 1
    then show ?thesis using assms legal_1 [of a] enc_1 [of a] by (simp add: utf8_accepted_def)
  next
    case 2
    then have "trailing a = Suc 0" using assms by simp
    with 2 show ?thesis using legal_2 [of a b] enc_2 [of a b] by (simp add: utf8_accepted_def)
  next
    case 3
    then have "trailing a = Suc (Suc 0)" using assms by simp
    with 3 show ?thesis using legal_3 [of a b c] enc_3 [of a b c] by (simp add: utf8_accepted_def)
  next
    case 4
    then have "trailing a = Suc (Suc (Suc 0))" using assms by simp
    with 4 show ?thesis using legal_4 [of a b c d] enc_4 [of a b c d] by (simp add: utf8_accepted_def)
  next
    case 5
    then have "\<not> utf8_accepted bs"
      by (cases bs rule: utf8_defect.cases) (auto simp: utf8_accepted_def utf8_enc_def split: if_splits)
    then show ?thesis using 5 by (simp add: isLegalUTF8_def)
  qed
qed

lemma accepted_length:
  assumes "utf8_accepted bs"
  shows "length bs = trailing (hd bs) + 1"
  using assms unfolding utf8_accepted_def
proof
  assume "utf8_defect bs"
  then show ?thesis
  proof (cases rule: utf8_defect_cases)
    case (1 a b c)
    then show ?thesis using trailing_eq [of a] by simp
  next
    case (2 a b c d)
    then show ?thesis using trailing_eq [of a] by simp
  qed
next
  assume "\<exists>c. scalar c \<and> bs = utf8_enc c"
  then obtain c where c: "scalar c" "bs = utf8_enc c" by blast
  then have "unat (hd bs) = hd (map unat (utf8_enc c))" by (simp add: hd_map utf8_enc_nonempty)
  moreover have "length bs = length (map unat (utf8_enc c))" using c by simp
  moreover have "c < 0x10000 \<Longrightarrow> c div 4096 < 16" "c < 0x800 \<Longrightarrow> c div 64 < 32" "c div 262144 < 5"
    using scalar_bound [OF c(1)] by (simp_all add: div_less_iff_less_mult)
  ultimately show ?thesis
    unfolding utf8_unats [OF scalar_bound [OF c(1)]] trailing_eq [of "hd bs"] by (auto split: if_splits)
qed

end
