(* ===== verification/Utf8_Reader.thy ===== *)
theory Utf8_Reader
  imports Utf8_Legality
begin

text \<open>
  The loop of \<open>ConvertUTF8toUTF16\<close> meets the contract of Transcoder: the value the fall-through switch
  accumulates, the writer of UTF-16 units, what stops the loop, and the interpretation \<open>u8\<close>.
\<close>

lemma ucast_u8_nat: "(ucast (b :: u8) :: u32) = word_of_nat (unat b)"
  by (simp add: word_eq_of_nat_iff unat_ucast_up order.strict_trans [OF unsigned_less])

lemma offsets_nth:
  "offsetsFromUTF8 ! 0 = word_of_nat 0" "offsetsFromUTF8 ! Suc 0 = word_of_nat 0x3080"
  "offsetsFromUTF8 ! Suc (Suc 0) = word_of_nat 0xE2080" "offsetsFromUTF8 ! Suc (Suc (Suc 0)) = word_of_nat 0x3C82080"
  by (simp_all add: offsetsFromUTF8_def)

lemma of_nat_diff': "b \<le> a \<Longrightarrow> word_of_nat a - word_of_nat b = (word_of_nat (a - b) :: 'a::len word)"
  by (simp add: of_nat_diff)

text \<open>The sum the fall-through switch computes, as a natural number.\<close>

fun utf8_sum :: "u8 list \<Rightarrow> nat \<Rightarrow> nat" where
  "utf8_sum [] acc = acc"
| "utf8_sum [b] acc = acc + unat b"
| "utf8_sum (b # bs) acc = utf8_sum bs ((acc + unat b) * 64)"

lemma utf8_get_sum:
  assumes "drop s xs = bs @ ys" and "bs \<noteq> []"
  shows "utf8_get (length bs - 1) xs s (word_of_nat acc) = (s + length bs, word_of_nat (utf8_sum bs acc))"
  using assms
proof (induction bs acc arbitrary: s rule: utf8_sum.induct)
  case (2 b acc)
  then have d: "drop s xs = b # ys" by simp
  show ?case using drop_Cons_nth(2) [OF d]
    by (simp only: list.size Nat.add_0_right add_Suc_right add_0_left diff_Suc_1 diff_self_eq_0 utf8_get.simps utf8_sum.simps
        ucast_u8_nat of_nat_add One_nat_def)
next
  case (3 b b' bs acc)
  have two6: "(2 :: u32) ^ 6 = 64" by simp
  from 3 have d: "drop s xs = b # (b' # bs) @ ys" by simp
  note n = drop_Cons_nth [OF d]
  have p: "push_bit 6 (word_of_nat acc + ucast (xs ! s)) = (word_of_nat ((acc + unat b) * 64) :: u32)"
    using two6 by (simp only: n ucast_u8_nat push_bit_eq_mult of_nat_add of_nat_mult of_nat_numeral)
  have "utf8_get (length (b # b' # bs) - 1) xs s (word_of_nat acc) =
    utf8_get (length (b' # bs) - 1) xs (Suc s) (push_bit 6 (word_of_nat acc + ucast (xs ! s)))"
    by (simp only: list.size add_Suc_right Nat.add_0_right diff_Suc_Suc minus_nat.diff_0 utf8_get.simps One_nat_def)
  also have "\<dots> = (Suc s + length (b' # bs), word_of_nat (utf8_sum (b' # bs) ((acc + unat b) * 64)))"
    unfolding p by (rule 3(1) [OF n(3)]) simp
  finally show ?case by (simp only: list.size add_Suc_right Nat.add_0_right add_Suc_shift utf8_sum.simps)
qed simp

lemma utf8_sum_value:
  assumes "utf8_accepted bs"
  shows "word_of_nat (utf8_sum bs 0) - offsetsFromUTF8 ! (length bs - 1) = (word_of_nat (utf8_value bs) :: u32)"
proof -
  have "length bs \<noteq> 0" "length bs \<le> 4" using assms
    by (auto simp: utf8_accepted_def utf8_enc_def elim: utf8_defect_cases split: if_splits)
  then consider a where "bs = [a]" | a b where "bs = [a, b]" | a b c where "bs = [a, b, c]"
    | a b c d where "bs = [a, b, c, d]"
    by (cases bs rule: utf8_defect.cases) auto
  then show ?thesis
  proof cases
    case 1
    then show ?thesis by (simp add: offsets_nth)
  next
    case (2 a b)
    then have "0xC2 \<le> unat a" "0x80 \<le> unat b" using assms enc_2 [of a b] by (auto simp: utf8_accepted_def cont_def)
    then have "0x3080 \<le> unat a * 64 + unat b" by simp
    from of_nat_diff' [OF this, where 'a = 32] 2 show ?thesis
      by (simp only: offsets_nth utf8_sum.simps utf8_value.simps length_Cons list.size diff_Suc_1 add_0_left)
  next
    case (3 a b c)
    then have "0xED \<le> unat a \<or> 0xE0 \<le> unat a \<and> 0x80 \<le> unat b" "0x80 \<le> unat c"
      using assms enc_3 [of a b c] by (auto simp: utf8_accepted_def cont_def)
    then have "0xE2080 \<le> (unat a * 64 + unat b) * 64 + unat c" by auto
    from of_nat_diff' [OF this, where 'a = 32] 3 show ?thesis
      by (simp only: offsets_nth utf8_sum.simps utf8_value.simps length_Cons list.size diff_Suc_1 add_0_left)
  next
    case (4 a b c d)
    then have "0xF4 \<le> unat a \<or> 0xF0 \<le> unat a \<and> 0x80 \<le> unat b" "0x80 \<le> unat c" "0x80 \<le> unat d"
      using assms enc_4 [of a b c d] by (auto simp: utf8_accepted_def cont_def)
    then have "0x3C82080 \<le> ((unat a * 64 + unat b) * 64 + unat c) * 64 + unat d" by auto
    from of_nat_diff' [OF this, where 'a = 32] 4 show ?thesis
      by (simp only: offsets_nth utf8_sum.simps utf8_value.simps length_Cons list.size diff_Suc_1 add_0_left)
  qed
qed

lemma utf16_put_enc:
  assumes "scalar c"
  shows "room te buf \<Longrightarrow> fits te t (utf16_enc c) \<Longrightarrow>
      utf16_put te flags (word_of_nat c) t buf = Inr (t + length (utf16_enc c), store te t (utf16_enc c) buf)"
    and "\<not> fits te t (utf16_enc c) \<Longrightarrow> utf16_put te flags (word_of_nat c) t buf = Inl targetExhausted"
proof -
  have c: "c < 0x110000" using assms by (rule scalar_bound)
  let ?d = "(word_of_nat c - halfBase) :: u32"
  have d: "0x10000 \<le> c \<Longrightarrow> unat ?d = c - 0x10000"
    using c by (simp add: unat_sub word_le_nat_alt)
  have "(?d AND halfMask) = ?d AND mask 10" by (simp add: mask_eq_exp_minus_1)
  then have l: "0x10000 \<le> c \<Longrightarrow> (ucast ((?d AND halfMask) + UNI_SUR_LOW_START) :: u16) = word_of_nat (0xDC00 + (c - 0x10000) mod 1024)"
    by (intro word_eq_of_nat_iff [THEN iffD2])
      (auto simp: unat_ucast_mod unat_word_ariths unat_and_mask d intro: order.strict_trans [of _ "0xDC00 + 1024"])
  have "0x10000 \<le> c \<Longrightarrow> (c - 0x10000) div 1024 < 0x400" using c by (simp add: div_less_iff_less_mult)
  then have h: "0x10000 \<le> c \<Longrightarrow> (ucast (drop_bit halfShift ?d + UNI_SUR_HIGH_START) :: u16) = word_of_nat (0xD800 + (c - 0x10000) div 1024)"
    by (intro word_eq_of_nat_iff [THEN iffD2]) (auto simp: unat_ucast_mod unat_word_ariths unat_drop_bit d)
  have b: "c < 0x10000 \<Longrightarrow> (ucast (word_of_nat c :: u32) :: u16) = word_of_nat c"
    by (intro word_eq_of_nat_iff [THEN iffD2]) (auto simp: unat_ucast_mod)
  note defs = utf16_put_def put16_def fits_def room_def store_def utf16_enc_def word_le_nat_alt word_less_nat_alt
  show "room te buf \<Longrightarrow> fits te t (utf16_enc c) \<Longrightarrow>
      utf16_put te flags (word_of_nat c) t buf = Inr (t + length (utf16_enc c), store te t (utf16_enc c) buf)"
    using assms c l h b
    by (cases "c < 0x10000"; cases te)
      (auto simp: defs Let_def scalar_def overwrite_Cons list_update_swap simp del: of_nat_add)
  show "\<not> fits te t (utf16_enc c) \<Longrightarrow> utf16_put te flags (word_of_nat c) t buf = Inl targetExhausted"
    using assms c by (cases "c < 0x10000"; cases te) (auto simp: defs scalar_def)
qed

text \<open>Why the reader stops before a text that does not start with an accepted character.\<close>

fun utf8_stop :: "u8 list \<Rightarrow> ConversionResult \<Rightarrow> bool" where
  "utf8_stop [] r = (r = conversionOK)"
| "utf8_stop (b # bs) r =
     (if length bs < trailing b then r = sourceExhausted
      else \<not> utf8_accepted (take (Suc (trailing b)) (b # bs)) \<and> r = sourceIllegal)"

lemma utf8_stop_OK: "utf8_stop xs conversionOK \<longleftrightarrow> xs = []"
  by (cases xs) auto

lemma utf8_cover: "(\<exists>r. utf8_stop xs r) \<or> (\<exists>bs ys. utf8_accepted bs \<and> xs = bs @ ys)"
proof (cases xs)
  case (Cons b bs)
  have "xs = take (Suc (trailing b)) xs @ drop (Suc (trailing b)) xs" by simp
  then show ?thesis unfolding Cons by (metis utf8_stop.simps(2))
qed auto

lemma accepted_nonempty: "utf8_accepted bs \<Longrightarrow> bs \<noteq> []"
  using utf8_enc_nonempty [symmetric] by (auto simp: utf8_accepted_def)

lemma isLegalUTF8_at:
  assumes "drop s src = bs @ ys" and "length bs = trailing (hd bs) + 1"
  shows "isLegalUTF8 (src @ junk) s (length bs) = utf8_accepted bs"
proof -
  have "length src - s = length bs + length ys" using arg_cong [OF assms(1), of length] by simp
  then have "s + length bs \<le> length (src @ junk)" using assms(2) by simp
  moreover have "take (length bs) (drop s (src @ junk)) = bs" by (simp add: assms(1))
  ultimately show ?thesis using isLegalUTF8_bytes legal_accepted [OF assms(2)] by metis
qed

lemma utf8to16_stop:
  assumes "utf8_stop (drop s src) r"
  shows "utf8to16_loop (src @ junk) (length src) te flags s t buf = (r, s, t, buf)"
proof (cases "drop s src")
  case Nil
  then show ?thesis using assms by (subst utf8to16_loop.simps) simp
next
  case (Cons b bs)
  note n = drop_Cons_nth [OF Cons]
  have at: "(src @ junk) ! s = b" using n by (simp add: nth_append)
  have l: "length src = s + Suc (length bs)" using n(1) arg_cong [OF n(3), of length] by simp
  let ?n = "Suc (trailing b)" and ?cs = "take (Suc (trailing b)) (b # bs)"
  show ?thesis
  proof (cases "length bs < trailing b")
    case True
    then show ?thesis using assms Cons n(1) at l by (subst utf8to16_loop.simps) (simp add: Let_def)
  next
    case False
    have "drop s src = ?cs @ drop ?n (b # bs)" unfolding Cons by simp
    moreover have "length ?cs = trailing (hd ?cs) + 1" using False by simp
    ultimately have "isLegalUTF8 (src @ junk) s (length ?cs) = utf8_accepted ?cs" by (rule isLegalUTF8_at)
    then have "\<not> isLegalUTF8 (src @ junk) s (Suc (trailing b))" using assms Cons False by simp
    then show ?thesis using assms Cons n(1) at l False
      by (subst utf8to16_loop.simps) (simp add: Let_def)
  qed
qed

lemma utf8to16_iteration:
  assumes a: "utf8_accepted bs" and d: "drop s src = bs @ ys"
  shows "utf8to16_loop (src @ junk) (length src) te flags s t buf =
    (case utf16_put te flags (word_of_nat (utf8_value bs)) t buf of
       Inl result \<Rightarrow> (result, s, t, buf)
     | Inr (t', buf') \<Rightarrow> utf8to16_loop (src @ junk) (length src) te flags (s + length bs) t' buf')"
proof -
  obtain b bs' where b: "bs = b # bs'" using accepted_nonempty [OF a] by (cases bs) auto
  with d have d': "drop s src = b # bs' @ ys" by simp
  note n = drop_Cons_nth [OF d']
  have at: "(src @ junk) ! s = b" using n by (simp add: nth_append)
  have l: "length src = s + Suc (length bs' + length ys)" using n(1) arg_cong [OF n(3), of length] by simp
  have tr: "trailing b = length bs'" using accepted_length [OF a] b by simp
  have le: "isLegalUTF8 (src @ junk) s (Suc (length bs'))"
    using isLegalUTF8_at [OF d accepted_length [OF a]] a b by simp
  have "drop s (src @ junk) = bs @ (ys @ junk)" using d n(1) by simp
  from utf8_get_sum [OF this accepted_nonempty [OF a], of 0]
  have g: "utf8_get (length bs') (src @ junk) s 0 = (s + length bs, word_of_nat (utf8_sum bs 0))"
    using b by simp
  have v: "word_of_nat (utf8_sum bs 0) - offsetsFromUTF8 ! length bs' = (word_of_nat (utf8_value bs) :: u32)"
    using utf8_sum_value [OF a] b by simp
  show ?thesis
    apply (subst utf8to16_loop.simps)
    apply (simp only: at tr Let_def g v prod.case n(1) if_True)
    using l le b by (simp split: sum.splits)
qed

lemma utf8to16_char:
  assumes "utf8_accepted bs" and "drop s src = bs @ ys" and "room te buf" and "fits te t (utf16_enc (utf8_value bs))"
  shows "utf8to16_loop (src @ junk) (length src) te flags s t buf =
    utf8to16_loop (src @ junk) (length src) te flags (s + length bs) (t + length (utf16_enc (utf8_value bs)))
      (store te t (utf16_enc (utf8_value bs)) buf)"
  using utf8to16_iteration [OF assms(1,2)] utf16_put_enc(1) [OF accepted_scalar [OF assms(1)] assms(3,4)] by simp

lemma utf8to16_full:
  assumes "utf8_accepted bs" and "drop s src = bs @ ys" and "\<not> fits te t (utf16_enc (utf8_value bs))"
  shows "utf8to16_loop (src @ junk) (length src) te flags s t buf = (targetExhausted, s, t, buf)"
  using utf8to16_iteration [OF assms(1,2)] utf16_put_enc(2) [OF accepted_scalar [OF assms(1)] assms(3)] by simp

interpretation u8: transcoder "utf8to16_loop (src @ junk) (length src) te flags" "\<lambda>s. drop s src" te
  utf8_accepted "\<lambda>bs. bs" "\<lambda>bs. utf16_enc (utf8_value bs)" utf8_stop for src junk te flags
  by unfold_locales (use utf8_cover accepted_nonempty in \<open>auto simp: utf8_stop_OK
      intro: drop_append_length utf8to16_char utf8to16_full utf8to16_stop\<close>)

end
