(* ===== verification/Unicode_Correct.thy ===== *)
theory Unicode_Correct
  imports Utf8_Reader
begin

text \<open>
  Correctness of src/libuzi/unicode.c: what the two converters do with an arbitrary input, which
  byte sequences are accepted, where the converters write, and how the API functions fit together.
\<close>

section \<open>The write window\<close>

definition window_kept :: "nat \<Rightarrow> nat option \<Rightarrow> 'a list \<Rightarrow> 'a list \<Rightarrow> bool" where
  "window_kept t te buf buf' \<longleftrightarrow> length buf' = length buf \<and>
     (\<forall>i. i < t \<or> te = None \<or> the te \<le> i \<longrightarrow> buf' ! i = buf ! i)"

lemma window_refl [simp]: "window_kept t te buf buf"
  by (simp add: window_kept_def)

lemma window_trans: "window_kept t te a b \<Longrightarrow> window_kept t' te b c \<Longrightarrow> t \<le> t' \<Longrightarrow> window_kept t te a c"
  by (auto simp: window_kept_def)

lemma utf8_put_window:
  assumes "k \<le> t" and "t \<le> e"
  shows "fst (utf8_put k n t ch buf) = t - k \<and> window_kept (t - k) (Some e) buf (snd (utf8_put k n t ch buf))"
  using assms
proof (induction k n t ch buf rule: utf8_put.induct)
  case (2 n t ch buf)
  then show ?case by (auto simp: window_kept_def)
next
  case (3 k n t ch buf)
  let ?b = "buf[t - 1 := ucast ((ch OR byteMark) AND byteMask)]"
  have *: "fst (utf8_put (Suc k) n (t - 1) (drop_bit 6 ch) ?b) = t - 1 - Suc k \<and>
    window_kept (t - 1 - Suc k) (Some e) ?b (snd (utf8_put (Suc k) n (t - 1) (drop_bit 6 ch) ?b))"
    using 3 by simp
  moreover have "window_kept (t - 1 - Suc k) (Some e) buf ?b"
    using 3(2,3) by (auto simp: window_kept_def)
  ultimately show ?case by (auto intro: window_trans [OF _ _ order.refl])
qed simp

lemma utf16to8_window:
  "window_kept t te buf (snd (snd (snd (utf16to8_loop src e te flags s t buf))))"
proof (induction src e te flags s t buf rule: utf16to8_loop.induct)
  case (1 src e te flags s t buf)
  show ?case
  proof (cases "s < e")
    case False
    then show ?thesis by (subst utf16to8_loop.simps) simp
  next
    case se: True
    show ?thesis
    proof (cases "utf16_fetch src e flags s")
      case (Inl a)
      then show ?thesis using se by (subst utf16to8_loop.simps) (simp split: prod.splits)
    next
      case (Inr p)
      obtain ch s' where p: "p = (ch, s')" by (cases p)
      obtain n ch' where n: "utf8_size ch = (n, ch')" by (cases "utf8_size ch")
      show ?thesis
      proof (cases te)
        case None
        then show ?thesis using 1(1) [OF se Inr p [symmetric] refl n [symmetric] refl None] Inr p n se
          by (subst utf16to8_loop.simps) (simp add: window_kept_def)
      next
        case (Some e')
        show ?thesis
        proof (cases "e' < t + n")
          case True
          then show ?thesis using Some Inr p n se by (subst utf16to8_loop.simps) simp
        next
          case False
          obtain t2 b2 where q: "utf8_put n n (t + n) ch' buf = (t2, b2)"
            by (cases "utf8_put n n (t + n) ch' buf")
          have w: "t2 = t" "window_kept t (Some e') buf b2"
            using utf8_put_window [of n "t + n" e' n ch' buf] False q by simp_all
          have "window_kept (t2 + n) te b2 (snd (snd (snd (utf16to8_loop src e te flags s' (t2 + n) b2))))"
            using 1(2) [OF se Inr p [symmetric] refl n [symmetric] refl Some False refl q [symmetric]] .
          then show ?thesis using w Some Inr p n se False q
            by (subst utf16to8_loop.simps) (auto intro: window_trans)
        qed
      qed
    qed
  qed
qed


lemma put16_window:
  "t0 \<le> t \<Longrightarrow> (case te of None \<Rightarrow> True | Some e \<Rightarrow> t < e) \<Longrightarrow> window_kept t0 te buf (snd (put16 te v (t, buf)))"
  by (auto simp: put16_def window_kept_def nth_list_update split: option.splits)

lemma fst_put16 [simp]: "fst (put16 te v tb) = fst tb + 1"
  by (simp add: put16_def split: prod.splits)

lemma utf16_put_window:
  assumes "utf16_put te flags ch t buf = Inr (t', buf')"
  shows "t \<le> t' \<and> window_kept t te buf buf'"
proof -
  have two: "put16 te v (put16 te u (t, buf)) = put16 te v (t + 1, snd (put16 te u (t, buf)))" for u v
    by (metis fst_put16 fst_conv prod.collapse)
  have fst2: "fst (put16 te v (put16 te u (t, buf))) = t + 2" for u v by simp
  have w1: "window_kept t te buf (snd (put16 te u (t, buf)))"
    if "(case te of None \<Rightarrow> True | Some e \<Rightarrow> t < e)" for u using that by (rule put16_window [OF order.refl])
  have w2: "window_kept t te buf (snd (put16 te v (put16 te u (t, buf))))"
    if "(case te of None \<Rightarrow> True | Some e \<Rightarrow> t + 1 < e)" for u v
  proof -
    have "window_kept t te (snd (put16 te u (t, buf))) (snd (put16 te v (t + 1, snd (put16 te u (t, buf)))))"
      using that by (intro put16_window) simp_all
    moreover have "window_kept t te buf (snd (put16 te u (t, buf)))"
      using that by (intro w1) (auto split: option.splits)
    ultimately show ?thesis unfolding two by (auto intro: window_trans)
  qed
  consider u where "put16 te u (t, buf) = (t', buf')"
      "(case te of None \<Rightarrow> True | Some e \<Rightarrow> t < e)"
    | u v where "put16 te v (put16 te u (t, buf)) = (t', buf')"
      "(case te of None \<Rightarrow> True | Some e \<Rightarrow> t + 1 < e)"
    using assms by (auto simp: utf16_put_def Let_def split: if_splits option.splits)
  then show ?thesis
  proof cases
    case (1 u)
    with 1 w1 [OF 1(2), of u] fst_put16 [of te u "(t, buf)"] show ?thesis by simp
  next
    case (2 u v)
    with 2 w2 [OF 2(2), of v u] fst2 [of v u] show ?thesis by simp
  qed
qed

lemma utf8to16_window:
  "window_kept t te buf (snd (snd (snd (utf8to16_loop src e te flags s t buf))))"
proof (induction src e te flags s t buf rule: utf8to16_loop.induct)
  case (1 src e te flags s t buf)
  let ?k = "trailing (src ! s)"
  obtain s' ch where g: "utf8_get ?k src s 0 = (s', ch)" by (cases "utf8_get ?k src s 0")
  let ?p = "utf16_put te flags (ch - offsetsFromUTF8 ! ?k) t buf"
  show ?case
  proof (cases "s < e \<and> s + ?k < e \<and> isLegalUTF8 src s (?k + 1)")
    case False
    then show ?thesis by (subst utf8to16_loop.simps) (auto simp: Let_def not_less)
  next
    case True
    show ?thesis
    proof (cases ?p)
      case (Inl r)
      then show ?thesis using True g by (subst utf8to16_loop.simps) (simp add: Let_def)
    next
      case (Inr q)
      obtain t' b' where q: "q = (t', b')" by (cases q)
      have w: "t \<le> t' \<and> window_kept t te buf b'" using Inr q by (intro utf16_put_window) simp
      have "window_kept t' te b' (snd (snd (snd (utf8to16_loop src e te flags s' t' b'))))"
        using True g Inr q by (intro 1) auto
      then show ?thesis using True g Inr q w
        by (subst utf8to16_loop.simps) (auto simp: Let_def intro: window_trans)
    qed
  qed
qed


text \<open>
  C8: whatever the source holds and in both conversion modes, the converters write only inside the
  window from the start of the target up to its end: every other element of the target buffer keeps
  its value, and a null target end writes nothing.
\<close>

theorem converters_stay_in_window:
  "window_kept targetStart targetEnd buf
     (snd (snd (snd (ConvertUTF16toUTF8 src sourceStart sourceEnd buf targetStart targetEnd flags)))) \<and>
   window_kept targetStart targetEnd buf'
     (snd (snd (snd (ConvertUTF8toUTF16 src' sourceStart sourceEnd buf' targetStart targetEnd flags))))"
  unfolding ConvertUTF16toUTF8_def ConvertUTF8toUTF16_def by (intro conjI utf16to8_window utf8to16_window)

section \<open>What the converters compute\<close>

text \<open>
  C5: on any source text the strict UTF-16 to UTF-8 converter writes the UTF-8 form of the longest
  prefix of scalar values that fits the target, leaves the source pointer behind that prefix, and
  reports \<open>targetExhausted\<close> if it ran out of room and otherwise how the text goes on (its end, a
  truncated pair, an unpaired surrogate).
\<close>

theorem ConvertUTF16toUTF8_spec:
  assumes "room targetEnd buf"
  shows "\<exists>cs rest r. (\<forall>c\<in>set cs. scalar c) \<and> src = encs utf16_enc cs @ rest \<and> utf16_stop rest r \<and>
    ConvertUTF16toUTF8 (src @ junk) 0 (length src) buf t targetEnd strictConversion =
      (let ds = fit targetEnd utf8_enc t cs in
       (if ds = cs then r else targetExhausted, length (encs utf16_enc ds), t + length (encs utf8_enc ds),
        store targetEnd t (encs utf8_enc ds) buf))"
proof -
  obtain cs rest r where d: "\<forall>c\<in>set cs. scalar c" "src = encs utf16_enc cs @ rest" "utf16_stop rest r"
    using u16.text_decomposes [of src] by blast
  then have "drop 0 src = encs utf16_enc cs @ rest" by simp
  from u16.loop_text [where src = src and s = 0, OF d(1) this d(3) assms, of junk t] d show ?thesis
    unfolding ConvertUTF16toUTF8_def by (metis add_0)
qed

theorem ConvertUTF16toUTF8_spec_witness:
  "\<exists>cs rest r. (\<forall>c\<in>set cs. scalar c) \<and> [0x41, 0xD800] = encs utf16_enc cs @ rest \<and> utf16_stop rest r \<and>
    ConvertUTF16toUTF8 ([0x41, 0xD800] @ [0]) 0 (length [0x41 :: u16, 0xD800]) [0, 0] 0 (Some 2) strictConversion =
      (let ds = fit (Some 2) utf8_enc 0 cs in
       (if ds = cs then r else targetExhausted, length (encs utf16_enc ds), 0 + length (encs utf8_enc ds),
        store (Some 2) 0 (encs utf8_enc ds) [0, 0]))"
  by (rule ConvertUTF16toUTF8_spec) (simp add: room_def)

text \<open>
  C6: on any byte string the strict UTF-8 to UTF-16 converter writes the UTF-16 form of the longest
  prefix of accepted sequences that fits the target, leaves the source pointer behind that prefix,
  and reports \<open>targetExhausted\<close> if it ran out of room and otherwise why the bytes that follow are no
  accepted sequence (the end, a truncated sequence, an illegal one).
\<close>

theorem ConvertUTF8toUTF16_spec:
  assumes "room targetEnd buf"
  shows "\<exists>bss rest r. (\<forall>bs\<in>set bss. utf8_accepted bs) \<and> src = concat bss @ rest \<and> utf8_stop rest r \<and>
    ConvertUTF8toUTF16 (src @ junk) 0 (length src) buf t targetEnd flags =
      (let dss = fit targetEnd (\<lambda>bs. utf16_enc (utf8_value bs)) t bss; out = encs (\<lambda>bs. utf16_enc (utf8_value bs)) dss in
       (if dss = bss then r else targetExhausted, length (concat dss), t + length out, store targetEnd t out buf))"
proof -
  obtain bss rest r where d: "\<forall>bs\<in>set bss. utf8_accepted bs" "src = encs (\<lambda>bs. bs) bss @ rest" "utf8_stop rest r"
    using u8.text_decomposes [of src] by blast
  then have "drop 0 src = encs (\<lambda>bs. bs) bss @ rest" by simp
  from u8.loop_text [where src = src and s = 0, OF d(1) this d(3) assms, of junk flags t] d show ?thesis
    unfolding ConvertUTF8toUTF16_def by (intro exI [of _ bss] exI [of _ rest] exI [of _ r]) (simp add: Let_def)
qed

theorem ConvertUTF8toUTF16_spec_witness:
  "\<exists>bss rest r. (\<forall>bs\<in>set bss. utf8_accepted bs) \<and> [0xE2, 0x82, 0xAC, 0xFF] = concat bss @ rest \<and> utf8_stop rest r \<and>
    ConvertUTF8toUTF16 ([0xE2, 0x82, 0xAC, 0xFF] @ []) 0 (length [0xE2 :: u8, 0x82, 0xAC, 0xFF]) [0, 0] 0 (Some 2) strictConversion =
      (let dss = fit (Some 2) (\<lambda>bs. utf16_enc (utf8_value bs)) 0 bss; out = encs (\<lambda>bs. utf16_enc (utf8_value bs)) dss in
       (if dss = bss then r else targetExhausted, length (concat dss), 0 + length out, store (Some 2) 0 out [0, 0]))"
  by (rule ConvertUTF8toUTF16_spec) (simp add: room_def)

text \<open>
  the legality test accepts exactly the well-formed UTF-8 sequences of the scalar values, and
  beside them the sequences of \<open>utf8_defect\<close>: a lead byte 0xED or 0xF4 followed by an ASCII byte,
  which the switch on the lead byte fails to reject.
\<close>

theorem isLegalUTF8Sequence_exact:
  assumes "src \<noteq> []"
  shows "isLegalUTF8Sequence (src @ junk) 0 (length src) \<longleftrightarrow>
    (\<exists>bs ys. src = bs @ ys \<and> ((\<exists>c. scalar c \<and> bs = utf8_enc c) \<or> utf8_defect bs))"
proof -
  obtain b xs where src: "src = b # xs" using assms by (cases src) auto
  let ?n = "Suc (trailing b)"
  have "isLegalUTF8Sequence (src @ junk) 0 (length src) \<longleftrightarrow>
      trailing b \<le> length xs \<and> isLegalUTF8 (src @ junk) 0 ?n"
    by (auto simp: isLegalUTF8Sequence_def src Let_def)
  also have "\<dots> \<longleftrightarrow> trailing b \<le> length xs \<and> utf8_accepted (take ?n src)"
  proof (rule conj_cong [OF refl])
    assume "trailing b \<le> length xs"
    then have "length (take ?n src) = trailing (hd (take ?n src)) + 1" by (simp add: src)
    from isLegalUTF8_at [OF _ this, of 0 src "drop ?n src" junk]
    show "isLegalUTF8 (src @ junk) 0 ?n = utf8_accepted (take ?n src)"
      using \<open>trailing b \<le> length xs\<close> by (simp add: src)
  qed
  also have "\<dots> \<longleftrightarrow> (\<exists>bs ys. src = bs @ ys \<and> utf8_accepted bs)"
  proof
    assume "trailing b \<le> length xs \<and> utf8_accepted (take ?n src)"
    then show "\<exists>bs ys. src = bs @ ys \<and> utf8_accepted bs" by (metis append_take_drop_id)
  next
    assume "\<exists>bs ys. src = bs @ ys \<and> utf8_accepted bs"
    then obtain bs ys where *: "src = bs @ ys" "utf8_accepted bs" by blast
    then have "hd bs = b" using accepted_nonempty [OF *(2)] src by (cases bs) auto
    with accepted_length [OF *(2)] have "length bs = ?n" by simp
    with * have "take ?n src = bs" "?n \<le> length src" by simp_all
    moreover have "length src = Suc (length xs)" using src by simp
    ultimately show "trailing b \<le> length xs \<and> utf8_accepted (take ?n src)" using *(2) by simp
  qed
  finally show ?thesis by (simp add: utf8_accepted_def)
qed

theorem isLegalUTF8Sequence_exact_witness:
  "isLegalUTF8Sequence ([0xED, 0x41, 0x80] @ []) 0 (length [0xED :: u8, 0x41, 0x80]) \<longleftrightarrow>
    (\<exists>bs ys. [0xED, 0x41, 0x80] = bs @ ys \<and> ((\<exists>c. scalar c \<and> bs = utf8_enc c) \<or> utf8_defect bs))"
  by (rule isLegalUTF8Sequence_exact) simp

section \<open>The API functions\<close>

lemma UziUtf16toUtf8_text:
  assumes "\<forall>c\<in>set cs. scalar c" and "src = encs utf16_enc cs" and "length (encs utf8_enc cs) < 2 ^ 31"
  shows "UziUtf16toUtf8 (src @ junk) (int (length src)) dst 0 = Some (int (length (encs utf8_enc cs)), dst)"
    and "length (encs utf8_enc cs) \<le> n \<Longrightarrow> n \<le> length dst \<Longrightarrow> n \<noteq> 0 \<Longrightarrow>
      UziUtf16toUtf8 (src @ junk) (int (length src)) dst (int n) =
        Some (int (length (encs utf8_enc cs)), overwrite 0 (encs utf8_enc cs) dst)"
proof -
  have d: "drop 0 src = encs utf16_enc cs" using assms(2) by simp
  note all = u16.loop_all [where src = src and s = 0, OF assms(1) d, of _ dst 0 junk]
  show "UziUtf16toUtf8 (src @ junk) (int (length src)) dst 0 = Some (int (length (encs utf8_enc cs)), dst)"
    using all [of None] assms(3)
    by (simp add: UziUtf16toUtf8_def ConvertUTF16toUTF8_def room_def fits_def store_def)
  show "length (encs utf8_enc cs) \<le> n \<Longrightarrow> n \<le> length dst \<Longrightarrow> n \<noteq> 0 \<Longrightarrow>
      UziUtf16toUtf8 (src @ junk) (int (length src)) dst (int n) =
        Some (int (length (encs utf8_enc cs)), overwrite 0 (encs utf8_enc cs) dst)"
    using all [of "Some n"] assms(3)
    by (simp add: UziUtf16toUtf8_def ConvertUTF16toUTF8_def room_def fits_def store_def)
qed

lemma UziUtf8toUtf16_text:
  assumes "\<forall>c\<in>set cs. scalar c" and "src = encs utf8_enc cs" and "length (encs utf16_enc cs) < 2 ^ 31"
  shows "UziUtf8toUtf16 (src @ junk) (int (length src)) dst 0 = Some (int (length (encs utf16_enc cs)), dst)"
    and "length (encs utf16_enc cs) \<le> n \<Longrightarrow> n \<le> length dst \<Longrightarrow> n \<noteq> 0 \<Longrightarrow>
      UziUtf8toUtf16 (src @ junk) (int (length src)) dst (int n) =
        Some (int (length (encs utf16_enc cs)), overwrite 0 (encs utf16_enc cs) dst)"
proof -
  let ?bss = "map utf8_enc cs"
  have a: "\<forall>bs\<in>set ?bss. utf8_accepted bs" using assms(1) by (auto simp: utf8_accepted_def)
  have d: "drop 0 src = encs (\<lambda>bs. bs) ?bss" using assms(2) by simp
  have v: "encs (\<lambda>bs. utf16_enc (utf8_value bs)) ?bss = encs utf16_enc cs"
    using assms(1) by (induction cs) (auto simp: utf8_value_enc scalar_bound)
  note all = u8.loop_all [where src = src and s = 0, OF a d, unfolded v, of _ dst 0 junk strictConversion]
  show "UziUtf8toUtf16 (src @ junk) (int (length src)) dst 0 = Some (int (length (encs utf16_enc cs)), dst)"
    using all [of None] assms(3)
    by (simp add: UziUtf8toUtf16_def ConvertUTF8toUTF16_def room_def fits_def store_def)
  show "length (encs utf16_enc cs) \<le> n \<Longrightarrow> n \<le> length dst \<Longrightarrow> n \<noteq> 0 \<Longrightarrow>
      UziUtf8toUtf16 (src @ junk) (int (length src)) dst (int n) =
        Some (int (length (encs utf16_enc cs)), overwrite 0 (encs utf16_enc cs) dst)"
    using all [of "Some n"] assms(3)
    by (simp add: UziUtf8toUtf16_def ConvertUTF8toUTF16_def room_def fits_def store_def)
qed


lemma utf16_enc_0 [simp]: "utf16_enc 0 = [0]" and utf8_enc_0 [simp]: "utf8_enc 0 = [0]"
  by (simp_all add: utf16_enc_def utf8_enc_def)

lemma utf16_enc_zero: "scalar c \<Longrightarrow> 0 \<in> set (utf16_enc c) \<longleftrightarrow> c = 0"
proof -
  assume c: "scalar c"
  have "word_of_nat (0xD800 + d) \<noteq> (0 :: u16)" "word_of_nat (0xDC00 + d) \<noteq> (0 :: u16)" if "d < 0x400" for d
    using that word_eq_of_nat_iff [of "0xD800 + d" "0 :: u16"] word_eq_of_nat_iff [of "0xDC00 + d" "0 :: u16"]
    by fastforce+
  moreover have "(c - 0x10000) div 1024 < 0x400"
    using c by (auto simp: scalar_def div_less_iff_less_mult)
  moreover have "c < 0x10000 \<Longrightarrow> word_of_nat c = (0 :: u16) \<longleftrightarrow> c = 0"
    using word_eq_of_nat_iff [of c "0 :: u16"] by auto
  ultimately show ?thesis
    by (auto simp: utf16_enc_def simp del: of_nat_add)
qed

lemma UziUtf16toUtf8_terminated:
  assumes "0 \<notin> set us" and "length us < 2 ^ 31 - 1"
  shows "UziUtf16toUtf8 (us @ 0 # junk) (-1) dst cchDst =
    UziUtf16toUtf8 ((us @ [0]) @ junk) (int (length (us @ [0]))) dst cchDst"
  using zscan_zero_free [OF assms(1), of junk] assms(2) by (simp add: UziUtf16toUtf8_def uzi_wcslen_def)

text \<open>
  the two-call protocol of \<open>UziUtf16toUtf8\<close> on a zero-terminated string without embedded zeros: the
  call with no buffer returns the number of bytes, terminator included, and leaves the buffer
  alone; the call with a buffer of at least that size returns the same number and stores the UTF-8
  form with its terminator at the start of the buffer.
\<close>

theorem UziUtf16toUtf8_two_calls:
  assumes "\<forall>c\<in>set cs. scalar c \<and> c \<noteq> 0" and "length (encs utf8_enc cs) + 1 < 2 ^ 31"
    and "length (encs utf16_enc cs) + 1 < 2 ^ 31"
    and "length (encs utf8_enc cs) + 1 \<le> n" and "n \<le> length dst"
  shows "UziUtf16toUtf8 (encs utf16_enc cs @ 0 # junk) (-1) dst 0 = Some (int (length (encs utf8_enc cs) + 1), dst) \<and>
    UziUtf16toUtf8 (encs utf16_enc cs @ 0 # junk) (-1) dst (int n) =
      Some (int (length (encs utf8_enc cs) + 1), overwrite 0 (encs utf8_enc cs @ [0]) dst)"
proof -
  have "0 \<notin> set (encs utf16_enc cs)" using assms(1) by (auto simp: utf16_enc_zero)
  note t = UziUtf16toUtf8_terminated [OF this]
  have e: "encs utf16_enc cs @ [0] = encs utf16_enc (cs @ [0])" by simp
  have s: "\<forall>c\<in>set (cs @ [0]). scalar c" using assms(1) by (auto simp: scalar_def)
  note T = UziUtf16toUtf8_text [OF s e]
  have "UziUtf16toUtf8 (encs utf16_enc cs @ 0 # junk) (-1) dst 0 = Some (int (length (encs utf8_enc cs) + 1), dst)"
    using t [of junk dst 0] T(1) [of junk dst] assms(2,3) by simp
  moreover have "UziUtf16toUtf8 (encs utf16_enc cs @ 0 # junk) (-1) dst (int n) =
      Some (int (length (encs utf8_enc cs) + 1), overwrite 0 (encs utf8_enc cs @ [0]) dst)"
    using t [of junk dst "int n"] T(2) [of n dst junk] assms(2-5) by simp
  ultimately show ?thesis ..
qed

theorem UziUtf16toUtf8_two_calls_witness:
  "UziUtf16toUtf8 (encs utf16_enc [0x41, 0x20AC, 0x1F600] @ 0 # [7]) (-1) (replicate 10 1) 0 =
     Some (int (length (encs utf8_enc [0x41, 0x20AC, 0x1F600]) + 1), replicate 10 1)"
  by (rule UziUtf16toUtf8_two_calls [where n = 10, THEN conjunct1]) (simp_all add: scalar_def utf8_enc_def utf16_enc_def)

text \<open>
  C7: a UTF-16 text converted to UTF-8 and back by the API functions is the original text, with the
  original length, for every text of scalar values whose sizes fit an \<open>int\<close> and whose buffers are
  large enough.
\<close>

theorem utf16_utf8_roundtrip:
  assumes "\<forall>c\<in>set cs. scalar c" and "length (encs utf8_enc cs) < 2 ^ 31" and "length (encs utf16_enc cs) < 2 ^ 31"
    and "length (encs utf8_enc cs) \<le> n" and "n \<le> length dst8" and "n \<noteq> 0"
    and "length (encs utf16_enc cs) \<le> m" and "m \<le> length dst16" and "m \<noteq> 0"
  shows "\<exists>k out8 out16. UziUtf16toUtf8 (encs utf16_enc cs) (int (length (encs utf16_enc cs))) dst8 (int n) = Some (k, out8) \<and>
    UziUtf8toUtf16 out8 k dst16 (int m) = Some (int (length (encs utf16_enc cs)), out16) \<and>
    take (length (encs utf16_enc cs)) out16 = encs utf16_enc cs"
proof -
  let ?o8 = "overwrite 0 (encs utf8_enc cs) dst8"
  have "UziUtf16toUtf8 (encs utf16_enc cs) (int (length (encs utf16_enc cs))) dst8 (int n) =
    Some (int (length (encs utf8_enc cs)), ?o8)"
    using UziUtf16toUtf8_text(2) [OF assms(1) refl assms(2,4,5,6), of "[]"] by simp
  moreover have "?o8 = encs utf8_enc cs @ drop (length (encs utf8_enc cs)) dst8" by (simp add: overwrite_def)
  moreover have "take (length (encs utf16_enc cs)) (overwrite 0 (encs utf16_enc cs) dst16) = encs utf16_enc cs"
    by (simp add: overwrite_def)
  ultimately show ?thesis
    using UziUtf8toUtf16_text(2) [OF assms(1) refl assms(3,7,8,9)] by metis
qed

theorem utf16_utf8_roundtrip_witness:
  "\<exists>k out8 out16. UziUtf16toUtf8 (encs utf16_enc [0x41, 0x1F600]) (int (length (encs utf16_enc [0x41, 0x1F600]))) (replicate 5 0) (int 5) = Some (k, out8) \<and>
    UziUtf8toUtf16 out8 k (replicate 4 0) (int 4) = Some (int (length (encs utf16_enc [0x41, 0x1F600])), out16) \<and>
    take (length (encs utf16_enc [0x41, 0x1F600])) out16 = encs utf16_enc [0x41, 0x1F600]"
  by (rule utf16_utf8_roundtrip) (simp_all add: scalar_def utf8_enc_def utf16_enc_def)

end
