(* ===== verification/Critical_Section.thy ===== *)
theory Critical_Section
  imports Uzi_Prelude
begin

text \<open>
  src/libuzi/critical.c: critical sections on the POSIX side. The functions that run alone
  (initialisation, spin count, deletion) are functions on the record. Enter, TryEnter and Leave run
  concurrently: they are step functions of one thread, cut at every access to shared memory, and
  \<open>cs_reachable\<close> interleaves the steps of all threads over a sequentially consistent memory.
\<close>

section \<open>The data structure\<close>

text \<open>
  \<open>sem\<close> is the counter of the POSIX semaphore that \<open>LockSemaphore\<close> points to; \<open>DebugInfo\<close> is only ever
  set to null.
\<close>

record CRITICAL_SECTION =
  LockCount :: LONG
  RecursionCount :: LONG
  OwningThread :: u64
  LockSemaphore :: addr
  SpinCount :: u64
  sem :: nat

definition SetCriticalSectionSpinCount :: "u32 \<Rightarrow> CRITICAL_SECTION \<Rightarrow> DWORD \<Rightarrow> DWORD \<times> CRITICAL_SECTION" where
  "SetCriticalSectionSpinCount dwNumberOfProcessors cs dwSpinCount =
     (let dwPreviousSpinCount = ucast (SpinCount cs);
          spin = (if dwSpinCount \<noteq> 0 \<and> dwNumberOfProcessors < 2 then 0 else dwSpinCount) in
      (dwPreviousSpinCount, cs\<lparr>SpinCount := ucast spin\<rparr>))"

text \<open>\<open>block\<close> is the result of \<open>malloc\<close>, \<open>sem_ok\<close> the success of \<open>sem_init\<close>, \<open>nproc\<close> the processor count.\<close>

definition InitializeCriticalSectionEx ::
  "addr \<Rightarrow> bool \<Rightarrow> u32 \<Rightarrow> CRITICAL_SECTION \<Rightarrow> DWORD \<Rightarrow> DWORD \<Rightarrow> bool \<times> CRITICAL_SECTION" where
  "InitializeCriticalSectionEx block sem_ok nproc cs dwSpinCount Flags =
     (if Flags \<noteq> 0 then (False, cs)
      else
        (let cs1 = cs\<lparr>LockCount := -1, SpinCount := 0, RecursionCount := 0, OwningThread := 0,
                       LockSemaphore := block\<rparr> in
         if block = NULL then (False, cs1)
         else if \<not> sem_ok then (False, cs1)
         else (True, snd (SetCriticalSectionSpinCount nproc (cs1\<lparr>sem := 0\<rparr>) dwSpinCount))))"

definition InitializeCriticalSection :: "addr \<Rightarrow> bool \<Rightarrow> u32 \<Rightarrow> CRITICAL_SECTION \<Rightarrow> CRITICAL_SECTION" where
  "InitializeCriticalSection block sem_ok nproc cs =
     snd (InitializeCriticalSectionEx block sem_ok nproc cs 0 0)"

definition InitializeCriticalSectionAndSpinCount ::
  "addr \<Rightarrow> bool \<Rightarrow> u32 \<Rightarrow> CRITICAL_SECTION \<Rightarrow> DWORD \<Rightarrow> bool \<times> CRITICAL_SECTION" where
  "InitializeCriticalSectionAndSpinCount block sem_ok nproc cs dwSpinCount =
     InitializeCriticalSectionEx block sem_ok nproc cs dwSpinCount 0"

text \<open>The second component is the block that is destroyed and freed, if any.\<close>

definition DeleteCriticalSection :: "CRITICAL_SECTION \<Rightarrow> CRITICAL_SECTION \<times> addr option" where
  "DeleteCriticalSection cs =
     (let cs1 = cs\<lparr>LockCount := -1, SpinCount := 0, RecursionCount := 0, OwningThread := 0\<rparr> in
      if LockSemaphore cs1 \<noteq> NULL then (cs1\<lparr>LockSemaphore := NULL\<rparr>, Some (LockSemaphore cs1))
      else (cs1, None))"

text \<open>The wrappers of src/libuzi/uzi.c.\<close>

definition UziInitCS :: "addr \<Rightarrow> bool \<Rightarrow> u32 \<Rightarrow> CRITICAL_SECTION \<Rightarrow> u32 \<Rightarrow> u32 \<Rightarrow> bool \<times> CRITICAL_SECTION" where
  "UziInitCS block sem_ok nproc cs spinCount flags =
     InitializeCriticalSectionEx block sem_ok nproc cs (if spinCount = 0 then 4000 else spinCount) flags"

definition UziDeleteCS :: "CRITICAL_SECTION \<Rightarrow> CRITICAL_SECTION \<times> addr option" where
  "UziDeleteCS cs = DeleteCriticalSection cs"

section \<open>One thread\<close>

text \<open>
  The program points of a thread: between calls (\<open>Idle\<close>), in \<open>EnterCriticalSection\<close> (\<open>E_\<close>), in
  \<open>TryEnterCriticalSection\<close> (\<open>T_\<close>, with a flag for the call made by \<open>EnterCriticalSection\<close>) and in
  \<open>LeaveCriticalSection\<close> (\<open>L_\<close>). \<open>spin\<close> is the local variable \<open>SpinCount\<close> of Enter and \<open>ret\<close> the last
  result of TryEnter. \<open>depth\<close> is a ghost: the number of completed acquisitions the thread has not
  given back.
\<close>

datatype pc = Idle
  | E_start | E_loop | E_cas | E_inc | E_own | E_rec | E_wait | E_set1 | E_set2
  | T_cas bool | T_set1 bool | T_set2 bool | T_own bool | T_rec1 bool | T_rec2 bool
  | L_dec | L_clear | L_unlock | L_post | L_unlock_nested

record thread =
  at :: pc
  spin :: ULONG
  ret :: bool
  depth :: nat

definition acquired :: "thread \<Rightarrow> thread" where
  "acquired l = l\<lparr>at := Idle, depth := depth l + 1, ret := True\<rparr>"

definition try_failed :: "bool \<Rightarrow> thread \<Rightarrow> thread" where
  "try_failed from_enter l = l\<lparr>at := (if from_enter then E_loop else Idle), ret := False\<rparr>"

text \<open>\<open>EnterCriticalSection\<close>; \<open>tid\<close> is \<open>(HANDLE)(ULONG_PTR) GetCurrentThreadId()\<close>.\<close>

fun EnterCriticalSection_step :: "u64 \<Rightarrow> CRITICAL_SECTION \<Rightarrow> thread \<Rightarrow> (CRITICAL_SECTION \<times> thread) option" where
  "EnterCriticalSection_step tid cs l =
     (case at l of
        E_start \<Rightarrow>
          (let sp = ucast (SpinCount cs) in
           Some (cs, l\<lparr>spin := sp, at := (if sp \<noteq> 0 then T_cas True else E_loop)\<rparr>))
      | E_loop \<Rightarrow>
          Some (cs, l\<lparr>spin := spin l - 1,
                      at := (if spin l \<noteq> 0 \<and> sint (LockCount cs) < 1 then E_cas else E_inc)\<rparr>)
      | E_cas \<Rightarrow>
          (if LockCount cs = -1 then Some (cs\<lparr>LockCount := 0\<rparr>, l\<lparr>at := E_set1\<rparr>)
           else Some (cs, l\<lparr>at := E_loop\<rparr>))
      | E_inc \<Rightarrow>
          (let n = LockCount cs + 1 in
           Some (cs\<lparr>LockCount := n\<rparr>, l\<lparr>at := (if n \<noteq> 0 then E_own else E_set1)\<rparr>))
      | E_own \<Rightarrow> Some (cs, l\<lparr>at := (if OwningThread cs = tid then E_rec else E_wait)\<rparr>)
      | E_rec \<Rightarrow> Some (cs\<lparr>RecursionCount := RecursionCount cs + 1\<rparr>, acquired l)
      | E_wait \<Rightarrow> (if sem cs = 0 then None else Some (cs\<lparr>sem := sem cs - 1\<rparr>, l\<lparr>at := E_set1\<rparr>))
      | E_set1 \<Rightarrow> Some (cs\<lparr>RecursionCount := 1\<rparr>, l\<lparr>at := E_set2\<rparr>)
      | E_set2 \<Rightarrow> Some (cs\<lparr>OwningThread := tid\<rparr>, acquired l)
      | _ \<Rightarrow> None)"

fun TryEnterCriticalSection_step :: "u64 \<Rightarrow> CRITICAL_SECTION \<Rightarrow> thread \<Rightarrow> (CRITICAL_SECTION \<times> thread) option" where
  "TryEnterCriticalSection_step tid cs l =
     (case at l of
        T_cas e \<Rightarrow>
          (if LockCount cs = -1 then Some (cs\<lparr>LockCount := 0\<rparr>, l\<lparr>at := T_set1 e\<rparr>)
           else Some (cs, l\<lparr>at := T_own e\<rparr>))
      | T_set1 e \<Rightarrow> Some (cs\<lparr>RecursionCount := 1\<rparr>, l\<lparr>at := T_set2 e\<rparr>)
      | T_set2 e \<Rightarrow> Some (cs\<lparr>OwningThread := tid\<rparr>, acquired l)
      | T_own e \<Rightarrow> Some (cs, if OwningThread cs = tid then l\<lparr>at := T_rec1 e\<rparr> else try_failed e l)
      | T_rec1 e \<Rightarrow> Some (cs\<lparr>RecursionCount := RecursionCount cs + 1\<rparr>, l\<lparr>at := T_rec2 e\<rparr>)
      | T_rec2 e \<Rightarrow> Some (cs\<lparr>LockCount := LockCount cs + 1\<rparr>, acquired l)
      | _ \<Rightarrow> None)"

fun LeaveCriticalSection_step :: "CRITICAL_SECTION \<Rightarrow> thread \<Rightarrow> (CRITICAL_SECTION \<times> thread) option" where
  "LeaveCriticalSection_step cs l =
     (case at l of
        L_dec \<Rightarrow>
          (let n = RecursionCount cs - 1 in
           Some (cs\<lparr>RecursionCount := n\<rparr>, l\<lparr>at := (if sint n < 1 then L_clear else L_unlock_nested)\<rparr>))
      | L_clear \<Rightarrow> Some (cs\<lparr>OwningThread := 0\<rparr>, l\<lparr>at := L_unlock\<rparr>)
      | L_unlock \<Rightarrow>
          (let n = LockCount cs - 1 in
           Some (cs\<lparr>LockCount := n\<rparr>, l\<lparr>at := (if sint n \<ge> 0 then L_post else Idle), depth := depth l - 1\<rparr>))
      | L_post \<Rightarrow> Some (cs\<lparr>sem := sem cs + 1\<rparr>, l\<lparr>at := Idle\<rparr>)
      | L_unlock_nested \<Rightarrow>
          Some (cs\<lparr>LockCount := LockCount cs - 1\<rparr>, l\<lparr>at := Idle, depth := depth l - 1\<rparr>)
      | _ \<Rightarrow> None)"

definition UziEnterCS_step :: "u64 \<Rightarrow> CRITICAL_SECTION \<Rightarrow> thread \<Rightarrow> (CRITICAL_SECTION \<times> thread) option" where
  "UziEnterCS_step tid cs l = EnterCriticalSection_step tid cs l"

definition UziTryEnterCS_step :: "u64 \<Rightarrow> CRITICAL_SECTION \<Rightarrow> thread \<Rightarrow> (CRITICAL_SECTION \<times> thread) option" where
  "UziTryEnterCS_step tid cs l = TryEnterCriticalSection_step tid cs l"

definition UziLeaveCS_step :: "CRITICAL_SECTION \<Rightarrow> thread \<Rightarrow> (CRITICAL_SECTION \<times> thread) option" where
  "UziLeaveCS_step cs l = LeaveCriticalSection_step cs l"

definition thread_step :: "u64 \<Rightarrow> CRITICAL_SECTION \<Rightarrow> thread \<Rightarrow> (CRITICAL_SECTION \<times> thread) option" where
  "thread_step tid cs l =
     (case EnterCriticalSection_step tid cs l of
        Some r \<Rightarrow> Some r
      | None \<Rightarrow>
          (case TryEnterCriticalSection_step tid cs l of
             Some r \<Rightarrow> Some r
           | None \<Rightarrow> LeaveCriticalSection_step cs l))"

section \<open>All threads\<close>

text \<open>
  A call is made by an idle thread; a thread leaves only what it holds and nests at most \<open>D\<close>
  acquisitions.
\<close>

inductive cs_step ::
  "('t \<Rightarrow> u64) \<Rightarrow> nat \<Rightarrow> CRITICAL_SECTION \<times> ('t \<Rightarrow> thread) \<Rightarrow> CRITICAL_SECTION \<times> ('t \<Rightarrow> thread) \<Rightarrow> bool"
  for tid :: "'t \<Rightarrow> u64" and D :: nat where
  run: "thread_step (tid t) cs (th t) = Some (cs', l') \<Longrightarrow> cs_step tid D (cs, th) (cs', th(t := l'))"
| enter: "at (th t) = Idle \<Longrightarrow> depth (th t) < D \<Longrightarrow>
    cs_step tid D (cs, th) (cs, th(t := (th t)\<lparr>at := E_start\<rparr>))"
| try_enter: "at (th t) = Idle \<Longrightarrow> depth (th t) < D \<Longrightarrow>
    cs_step tid D (cs, th) (cs, th(t := (th t)\<lparr>at := T_cas False\<rparr>))"
| leave: "at (th t) = Idle \<Longrightarrow> 0 < depth (th t) \<Longrightarrow>
    cs_step tid D (cs, th) (cs, th(t := (th t)\<lparr>at := L_dec\<rparr>))"

inductive_cases cs_stepE: "cs_step tid D s s'"

inductive cs_reachable ::
  "('t \<Rightarrow> u64) \<Rightarrow> nat \<Rightarrow> CRITICAL_SECTION \<times> ('t \<Rightarrow> thread) \<Rightarrow> bool"
  for tid :: "'t \<Rightarrow> u64" and D :: nat where
  init: "InitializeCriticalSectionEx block sem_ok nproc cs0 dwSpinCount Flags = (True, cs) \<Longrightarrow>
    \<forall>t. at (th t) = Idle \<and> depth (th t) = 0 \<Longrightarrow> cs_reachable tid D (cs, th)"
| step: "cs_reachable tid D s \<Longrightarrow> cs_step tid D s s' \<Longrightarrow> cs_reachable tid D s'"

section \<open>The invariant\<close>

text \<open>
  The right to own the section is a token. It lies in the lock (\<open>LockCount\<close> is -1), in the semaphore,
  or with one thread.
\<close>

fun acquiring :: "pc \<Rightarrow> bool" where
  "acquiring p = (case p of E_set1 \<Rightarrow> True | E_set2 \<Rightarrow> True | T_set1 _ \<Rightarrow> True | T_set2 _ \<Rightarrow> True | _ \<Rightarrow> False)"

fun counted :: "pc \<Rightarrow> bool" where
  "counted p = (acquiring p \<or> p = E_own \<or> p = E_rec \<or> p = E_wait)"

definition tok :: "thread \<Rightarrow> nat" where
  "tok l = of_bool (0 < depth l \<or> acquiring (at l) \<or> at l = L_post)"

definition cnt :: "thread \<Rightarrow> nat" where
  "cnt l = depth l + of_bool (counted (at l))"

text \<open>The value of \<open>LockCount\<close> while \<open>n\<close> acquisitions are counted.\<close>

definition lockval :: "nat \<Rightarrow> LONG" where
  "lockval n = word_of_int (int n - 1)"

text \<open>The section is not owned by a thread of depth 0 and fully owned by a thread of depth above 0.\<close>

definition owned :: "u64 \<Rightarrow> CRITICAL_SECTION \<Rightarrow> nat \<Rightarrow> bool" where
  "owned tid cs d \<longleftrightarrow> OwningThread cs = tid \<and> RecursionCount cs = word_of_nat d"

definition consistent :: "u64 \<Rightarrow> CRITICAL_SECTION \<Rightarrow> thread \<Rightarrow> bool" where
  "consistent tid cs l \<longleftrightarrow> (if depth l = 0 then OwningThread cs \<noteq> tid else owned tid cs (depth l))"

definition local_inv :: "u64 \<Rightarrow> nat \<Rightarrow> CRITICAL_SECTION \<Rightarrow> thread \<Rightarrow> bool" where
  "local_inv tid D cs l \<longleftrightarrow>
     (case at l of
        Idle \<Rightarrow> depth l \<le> D \<and> consistent tid cs l
      | E_start \<Rightarrow> depth l < D \<and> consistent tid cs l
      | E_loop \<Rightarrow> depth l < D \<and> consistent tid cs l
      | E_cas \<Rightarrow> depth l < D \<and> consistent tid cs l
      | E_inc \<Rightarrow> depth l < D \<and> consistent tid cs l
      | E_own \<Rightarrow> depth l < D \<and> consistent tid cs l
      | E_rec \<Rightarrow> depth l < D \<and> 0 < depth l \<and> owned tid cs (depth l)
      | E_wait \<Rightarrow> depth l = 0 \<and> 0 < D \<and> OwningThread cs \<noteq> tid
      | E_set1 \<Rightarrow> depth l = 0 \<and> 0 < D
      | E_set2 \<Rightarrow> depth l = 0 \<and> 0 < D \<and> RecursionCount cs = 1
      | T_cas _ \<Rightarrow> depth l < D \<and> consistent tid cs l
      | T_set1 _ \<Rightarrow> depth l = 0 \<and> 0 < D
      | T_set2 _ \<Rightarrow> depth l = 0 \<and> 0 < D \<and> RecursionCount cs = 1
      | T_own _ \<Rightarrow> depth l < D \<and> consistent tid cs l
      | T_rec1 _ \<Rightarrow> depth l < D \<and> 0 < depth l \<and> owned tid cs (depth l)
      | T_rec2 _ \<Rightarrow> depth l < D \<and> 0 < depth l \<and> owned tid cs (depth l + 1)
      | L_dec \<Rightarrow> depth l \<le> D \<and> 0 < depth l \<and> owned tid cs (depth l)
      | L_clear \<Rightarrow> depth l = 1 \<and> 0 < D \<and> OwningThread cs = tid
      | L_unlock \<Rightarrow> depth l = 1 \<and> 0 < D \<and> OwningThread cs = 0
      | L_post \<Rightarrow> depth l = 0 \<and> OwningThread cs \<noteq> tid
      | L_unlock_nested \<Rightarrow> depth l \<le> D \<and> 1 < depth l \<and> owned tid cs (depth l - 1))"

definition cs_inv :: "('t::finite \<Rightarrow> u64) \<Rightarrow> nat \<Rightarrow> CRITICAL_SECTION \<times> ('t \<Rightarrow> thread) \<Rightarrow> bool" where
  "cs_inv tid D s \<longleftrightarrow> (case s of (cs, th) \<Rightarrow>
     LockCount cs = lockval (\<Sum>t\<in>UNIV. cnt (th t)) \<and>
     (\<Sum>t\<in>UNIV. tok (th t)) + sem cs + of_bool ((\<Sum>t\<in>UNIV. cnt (th t)) = 0) = 1 \<and>
     (\<forall>t. local_inv (tid t) D cs (th t)))"

section \<open>Values of the lock word\<close>

lemma sint_lockval: "n \<le> 2 ^ 31 \<Longrightarrow> sint (lockval n) = int n - 1"
  unfolding lockval_def by (intro sint_word_of_int_small) simp_all

lemma lockval_inc: "lockval n + 1 = lockval (Suc n)"
  by (simp add: lockval_def)

lemma lockval_dec: "0 < n \<Longrightarrow> lockval n - 1 = lockval (n - 1)"
  by (simp add: lockval_def of_nat_diff)

lemma lockval_values [simp]: "lockval 0 = -1" "lockval (Suc 0) = 0"
  by (simp_all add: lockval_def)

lemma lockval_eq_iff: "n \<le> 2 ^ 31 \<Longrightarrow> m \<le> 2 ^ 31 \<Longrightarrow> lockval n = lockval m \<longleftrightarrow> n = m"
  by (metis sint_lockval diff_add_cancel of_nat_eq_iff)

lemma lockval_free: "n \<le> 2 ^ 31 \<Longrightarrow> lockval n = -1 \<longleftrightarrow> n = 0" "n \<le> 2 ^ 31 \<Longrightarrow> lockval n = 0 \<longleftrightarrow> n = Suc 0"
  using lockval_eq_iff [of n 0] lockval_eq_iff [of n "Suc 0"] by simp_all

lemmas lockval_rules = lockval_inc lockval_dec lockval_free sint_lockval

lemma rec_last:
  assumes "0 < d" and "d < 2 ^ 31"
  shows "sint (word_of_nat d - 1 :: LONG) < 1 \<longleftrightarrow> d = 1"
proof -
  have "(word_of_nat d - 1 :: LONG) = word_of_int (int d - 1)" by simp
  then have "sint (word_of_nat d - 1 :: LONG) = int d - 1" 
    using assms sint_word_of_int_small [of "int d - 1"] by simp
  then show ?thesis using assms(1) by auto
qed

lemmas step_defs = thread_step_def acquired_def try_failed_def Let_def

lemmas inv_defs = local_inv_def consistent_def owned_def tok_def cnt_def

text \<open>
  What a step of one thread keeps, given that the other threads contribute \<open>A\<close> counted acquisitions:
  tokens are conserved, and only a thread with the token changes the owner and the recursion count.
\<close>

definition tokens :: "nat \<Rightarrow> CRITICAL_SECTION \<Rightarrow> thread \<Rightarrow> nat" where
  "tokens A cs l = tok l + sem cs + of_bool (A + cnt l = 0)"

definition step_pre :: "u64 \<Rightarrow> nat \<Rightarrow> nat \<Rightarrow> CRITICAL_SECTION \<Rightarrow> thread \<Rightarrow> bool" where
  "step_pre tid D A cs l \<longleftrightarrow>
     LockCount cs = lockval (A + cnt l) \<and> local_inv tid D cs l \<and> tid \<noteq> 0 \<and> A + D + 1 < 2 ^ 31"

definition step_ok ::
  "u64 \<Rightarrow> nat \<Rightarrow> nat \<Rightarrow> CRITICAL_SECTION \<Rightarrow> thread \<Rightarrow> CRITICAL_SECTION \<Rightarrow> thread \<Rightarrow> bool" where
  "step_ok tid D A cs l cs' l' \<longleftrightarrow>
     LockCount cs' = lockval (A + cnt l') \<and> tokens A cs' l' = tokens A cs l \<and> local_inv tid D cs' l' \<and>
     (tok l = 0 \<longrightarrow> OwningThread cs' = OwningThread cs \<and> RecursionCount cs' = RecursionCount cs) \<and>
     OwningThread cs' \<in> {OwningThread cs, tid, 0}"

lemmas ok_defs = step_ok_def step_pre_def tokens_def inv_defs


lemma Enter_step_ok:
  assumes "step_pre tid D A cs l"
  shows "case EnterCriticalSection_step tid cs l of None \<Rightarrow> True | Some (cs', l') \<Rightarrow> step_ok tid D A cs l cs' l'"
proof (cases "at l")
  case E_cas
  then show ?thesis using assms
    by (cases "A + depth l = 0"; cases "depth l = 0"; simp add: ok_defs lockval_rules)
next
  case E_inc
  then show ?thesis using assms
    by (cases "A + depth l = 0"; cases "depth l = 0"; simp add: ok_defs lockval_rules Let_def)
next
  case E_own
  then show ?thesis using assms by (cases "depth l = 0"; simp add: ok_defs)
next
  case E_rec
  then show ?thesis using assms by (simp add: ok_defs acquired_def)
next
  case E_wait
  then show ?thesis using assms by (cases "sem cs = 0"; simp add: ok_defs)
next
  case E_set1
  then show ?thesis using assms by (simp add: ok_defs)
next
  case E_set2
  then show ?thesis using assms by (simp add: ok_defs acquired_def)
qed (use assms in \<open>simp_all add: ok_defs Let_def split: if_splits\<close>)

lemma TryEnter_step_ok:
  assumes "step_pre tid D A cs l"
  shows "case TryEnterCriticalSection_step tid cs l of None \<Rightarrow> True | Some (cs', l') \<Rightarrow> step_ok tid D A cs l cs' l'"
proof (cases "at l")
  case (T_cas e)
  then show ?thesis using assms
    by (cases "A + depth l = 0"; cases "depth l = 0"; simp add: ok_defs lockval_rules)
next
  case (T_own e)
  then show ?thesis using assms by (cases "depth l = 0"; cases e; simp add: ok_defs try_failed_def)
next
  case (T_rec2 e)
  then show ?thesis using assms by (simp add: ok_defs acquired_def lockval_rules)
qed (use assms in \<open>simp_all add: ok_defs acquired_def\<close>)

lemma Leave_step_ok:
  assumes "step_pre tid D A cs l"
  shows "case LeaveCriticalSection_step cs l of None \<Rightarrow> True | Some (cs', l') \<Rightarrow> step_ok tid D A cs l cs' l'"
proof (cases "at l")
  case L_dec
  then show ?thesis using assms by (cases "depth l = 1"; simp add: ok_defs rec_last of_nat_diff Let_def)
next
  case L_unlock
  then show ?thesis using assms by (cases "A = 0"; simp add: ok_defs lockval_rules Let_def)
next
  case L_unlock_nested
  then show ?thesis using assms by (auto simp: ok_defs lockval_rules)
qed (use assms in \<open>simp_all add: ok_defs\<close>)


lemma thread_step_ok:
  assumes "thread_step tid cs l = Some (cs', l')" and "step_pre tid D A cs l"
  shows "step_ok tid D A cs l cs' l'"
  using assms(1) Enter_step_ok [OF assms(2)] TryEnter_step_ok [OF assms(2)] Leave_step_ok [OF assms(2)]
  unfolding thread_step_def by (cases "EnterCriticalSection_step tid cs l"; cases "TryEnterCriticalSection_step tid cs l") auto

lemma call_ok:
  assumes "step_pre tid D A cs l" and "at l = Idle"
    and "l' = l\<lparr>at := p\<rparr>" and "(p = E_start \<or> p = T_cas False) \<and> depth l < D \<or> p = L_dec \<and> 0 < depth l"
  shows "step_ok tid D A cs l cs l'"
  using assms by (elim disjE conjE; cases "depth l = 0"; simp add: ok_defs)

section \<open>Preservation\<close>

lemma sum_others:
  fixes f :: "'t::finite \<Rightarrow> nat"
  shows "(\<Sum>u\<in>UNIV. f u) = (\<Sum>u\<in>UNIV - {t}. f u) + f t"
  by (simp add: sum.remove [of UNIV t])

lemma sum_upd:
  fixes f :: "'a \<Rightarrow> nat" and th :: "'t::finite \<Rightarrow> 'a"
  shows "(\<Sum>u\<in>UNIV. f ((th(t := l)) u)) = (\<Sum>u\<in>UNIV - {t}. f (th u)) + f l"
proof -
  have "(\<Sum>u\<in>UNIV - {t}. f ((th(t := l)) u)) = (\<Sum>u\<in>UNIV - {t}. f (th u))"
    by (rule sum.cong) auto
  then show ?thesis using sum_others [of "\<lambda>u. f ((th(t := l)) u)" t] by simp
qed

lemma local_inv_frame:
  assumes "local_inv tid D cs l" and "OwningThread cs' = OwningThread cs" and "RecursionCount cs' = RecursionCount cs"
  shows "local_inv tid D cs' l"
  using assms by (cases "at l"; cases "depth l = 0"; simp add: local_inv_def consistent_def owned_def)

lemma local_inv_no_token:
  assumes "local_inv tid D cs l" and "tok l = 0"
  shows "OwningThread cs \<noteq> tid" and "OwningThread cs' \<noteq> tid \<Longrightarrow> local_inv tid D cs' l"
  using assms by (cases "at l"; simp add: inv_defs split: if_splits)+

lemma local_inv_cnt: "local_inv tid D cs l \<Longrightarrow> cnt l \<le> D"
  by (cases "at l") (auto simp: local_inv_def cnt_def)

lemma cs_inv_step:
  assumes inv: "cs_inv tid D (cs, th)" and ids: "inj tid" "\<forall>t. tid t \<noteq> 0"
    and D: "CARD('t::finite) * D + 1 < 2 ^ 31"
    and step: "\<And>A. step_pre (tid t) D A cs (th t) \<Longrightarrow> step_ok (tid t) D A cs (th t) cs' l'"
  shows "cs_inv tid D (cs', (th(t := l')) :: 't \<Rightarrow> thread)"
proof -
  let ?A = "\<Sum>u\<in>UNIV - {t}. cnt (th u)" and ?B = "\<Sum>u\<in>UNIV - {t}. tok (th u)"
  have L: "LockCount cs = lockval (?A + cnt (th t))" and T: "?B + tokens ?A cs (th t) = 1"
    and I: "local_inv (tid u) D cs (th u)" for u
    using inv sum_others [of "\<lambda>u. cnt (th u)" t] sum_others [of "\<lambda>u. tok (th u)" t]
    by (simp_all add: cs_inv_def tokens_def add.assoc del: sum_eq_0_iff add_is_0)
  have "?A \<le> (\<Sum>u\<in>UNIV - {t}. D)" using local_inv_cnt [OF I] by (intro sum_mono) simp
  also have "\<dots> = (CARD('t) - 1) * D" by (simp add: card_Diff_singleton)
  finally have "?A + D \<le> CARD('t) * D"
    by (metis add_mono_thms_linordered_semiring(3) card_gt_0_iff finite UNIV_not_empty mult_eq_if nat_neq_iff
        add.commute)
  with D have "step_pre (tid t) D ?A cs (th t)" using L I ids by (simp add: step_pre_def)
  then have ok: "step_ok (tid t) D ?A cs (th t) cs' l'" by (rule step)
  have "local_inv (tid u) D cs' ((th(t := l')) u)" for u
  proof (cases "u = t")
    case True
    then show ?thesis using ok by (simp add: step_ok_def)
  next
    case False
    show ?thesis
    proof (cases "tok (th t) = 0")
      case True
      then show ?thesis using ok False I by (auto simp: step_ok_def intro: local_inv_frame)
    next
      case t: False
      then have "?B = 0" using T unfolding tokens_def by linarith
      then have 0: "tok (th u) = 0" using False by simp
      have "tid u \<noteq> tid t" using False ids(1) by (meson injD)
      then have "OwningThread cs' \<noteq> tid u"
        using ok local_inv_no_token(1) [OF I 0] ids(2) by (auto simp: step_ok_def)
      then show ?thesis using local_inv_no_token(2) [OF I 0] False by simp
    qed
  qed
  then show ?thesis
    using ok T sum_upd [of cnt th t l'] sum_upd [of tok th t l'] 
    by (simp add: cs_inv_def step_ok_def tokens_def add.assoc del: sum_eq_0_iff add_is_0)
qed


lemma cs_inv_init:
  assumes "InitializeCriticalSectionEx block sem_ok nproc cs0 dwSpinCount Flags = (True, cs)"
    and "\<forall>t. at (th t) = Idle \<and> depth (th t) = 0" and "\<forall>t. tid t \<noteq> 0"
  shows "cs_inv tid D (cs, th)"
proof -
  have "LockCount cs = -1" "OwningThread cs = 0" "sem cs = 0"
    using assms(1)
    by (auto simp: InitializeCriticalSectionEx_def SetCriticalSectionSpinCount_def Let_def split: if_splits)
  moreover have "cnt (th t) = 0" "tok (th t) = 0" for t using assms(2) by (simp_all add: cnt_def tok_def)
  ultimately show ?thesis using assms(2,3) by (simp add: cs_inv_def local_inv_def consistent_def)
qed

lemma cs_reachable_inv:
  assumes "cs_reachable tid D s" and ids: "inj tid" "\<forall>t. tid t \<noteq> 0" and D: "CARD('t::finite) * D + 1 < 2 ^ 31"
  shows "cs_inv (tid :: 't \<Rightarrow> u64) D s"
  using assms(1)
proof (induction rule: cs_reachable.induct)
  case (init block sem_ok nproc cs0 dwSpinCount Flags cs th)
  then show ?case using cs_inv_init ids(2) by blast
next
  case (step s s')
  from step.hyps(2) step.IH show ?case
  proof (cases rule: cs_step.cases)
    case (run t cs th cs' l')
    then show ?thesis using step.IH thread_step_ok by (auto intro: cs_inv_step [OF _ ids D])
  next
    case (enter th t cs)
    then show ?thesis using step.IH by (auto intro!: cs_inv_step [OF _ ids D] call_ok)
  next
    case (try_enter th t cs)
    then show ?thesis using step.IH by (auto intro!: cs_inv_step [OF _ ids D] call_ok)
  next
    case (leave th t cs)
    then show ?thesis using step.IH by (auto intro!: cs_inv_step [OF _ ids D] call_ok)
  qed
qed

lemma tok_le_sum: "tok (th t) + tok (th u) \<le> (\<Sum>v\<in>UNIV. tok ((th :: 't::finite \<Rightarrow> thread) v))" if "t \<noteq> u"
proof -
  have "(\<Sum>v\<in>{t, u}. tok (th v)) \<le> (\<Sum>v\<in>UNIV. tok (th v))" by (intro sum_mono2) auto
  then show ?thesis using that by simp
qed

section \<open>Schedules\<close>

text \<open>An executable scheduler: a list of actions, each of one thread.\<close>

datatype action = Run | Call_Enter | Call_TryEnter | Call_Leave

fun cs_exec :: "('t \<Rightarrow> u64) \<Rightarrow> nat \<Rightarrow> 't \<times> action \<Rightarrow> CRITICAL_SECTION \<times> ('t \<Rightarrow> thread) \<Rightarrow>
    (CRITICAL_SECTION \<times> ('t \<Rightarrow> thread)) option" where
  "cs_exec tid D (t, Run) (cs, th) = map_option (\<lambda>(cs', l'). (cs', th(t := l'))) (thread_step (tid t) cs (th t))"
| "cs_exec tid D (t, Call_Enter) (cs, th) =
     (if at (th t) = Idle \<and> depth (th t) < D then Some (cs, th(t := (th t)\<lparr>at := E_start\<rparr>)) else None)"
| "cs_exec tid D (t, Call_TryEnter) (cs, th) =
     (if at (th t) = Idle \<and> depth (th t) < D then Some (cs, th(t := (th t)\<lparr>at := T_cas False\<rparr>)) else None)"
| "cs_exec tid D (t, Call_Leave) (cs, th) =
     (if at (th t) = Idle \<and> 0 < depth (th t) then Some (cs, th(t := (th t)\<lparr>at := L_dec\<rparr>)) else None)"

fun cs_run :: "('t \<Rightarrow> u64) \<Rightarrow> nat \<Rightarrow> ('t \<times> action) list \<Rightarrow> CRITICAL_SECTION \<times> ('t \<Rightarrow> thread) \<Rightarrow>
    (CRITICAL_SECTION \<times> ('t \<Rightarrow> thread)) option" where
  "cs_run tid D [] s = Some s"
| "cs_run tid D (a # as) s = (case cs_exec tid D a s of None \<Rightarrow> None | Some s' \<Rightarrow> cs_run tid D as s')"

lemma cs_exec_step: "cs_exec tid D a s = Some s' \<Longrightarrow> cs_step tid D s s'"
  by (induction tid D a s rule: cs_exec.induct) (auto intro: cs_step.intros split: if_splits)

lemma cs_run_reachable: "cs_reachable tid D s \<Longrightarrow> cs_run tid D as s = Some s' \<Longrightarrow> cs_reachable tid D s'"
proof (induction as arbitrary: s)
  case (Cons a as)
  then obtain s1 where "cs_exec tid D a s = Some s1" "cs_run tid D as s1 = Some s'" by (auto split: option.splits)
  with Cons show ?case by (meson cs_exec_step cs_reachable.step)
qed simp

text \<open>Two threads: the first one calls Enter and owns the section, the second one waits for it.\<close>

definition demo_tid :: "bool \<Rightarrow> u64" where
  "demo_tid b = (if b then 1 else 2)"

definition demo_init :: "CRITICAL_SECTION \<times> (bool \<Rightarrow> thread)" where
  "demo_init =
     (InitializeCriticalSection 8 True 4
        \<lparr>LockCount = 0, RecursionCount = 0, OwningThread = 0, LockSemaphore = 0, SpinCount = 0, sem = 0\<rparr>,
      \<lambda>b. \<lparr>at = Idle, spin = 0, ret = False, depth = 0\<rparr>)"

definition demo_schedule :: "(bool \<times> action) list" where
  "demo_schedule = [(True, Call_Enter), (True, Run), (False, Call_Enter), (True, Run), (False, Run), (True, Run),
     (False, Run), (False, Run), (True, Run), (True, Run), (False, Run)]"

lemma demo_reachable: "cs_reachable demo_tid 3 demo_init"
  unfolding demo_init_def
  by (rule cs_reachable.init [of 8 True 4 _ 0 0])
    (simp_all add: InitializeCriticalSection_def InitializeCriticalSectionEx_def SetCriticalSectionSpinCount_def Let_def)

lemma demo_run:
  "case cs_run demo_tid 3 demo_schedule demo_init of None \<Rightarrow> False
   | Some (cs, th) \<Rightarrow> depth (th True) = 1 \<and> at (th True) = Idle \<and> at (th False) = E_wait"
  by code_simp

lemma demo_hypotheses: "inj demo_tid" "\<forall>t. demo_tid t \<noteq> 0" "CARD(bool) * 3 + 1 < 2 ^ 31"
  by (auto simp: demo_tid_def inj_def)

section \<open>Properties\<close>

text \<open>
  C1: mutual exclusion. In every reachable state of any number of threads that interleave Enter,
  TryEnter and Leave on one critical section, at most one thread holds it, and the section then
  names this thread as its owner and counts its nested acquisitions. The thread identifiers are
  assumed distinct and not zero, and the nesting bounded so that the 32-bit counter cannot overflow.
\<close>

theorem mutual_exclusion:
  assumes "cs_reachable tid D (cs, th)" and "inj tid" and "\<forall>t. tid t \<noteq> 0" and "CARD('t::finite) * D + 1 < 2 ^ 31"
    and "0 < depth (th t)"
  shows "(\<forall>u. 0 < depth (th u) \<longrightarrow> u = t) \<and>
    (at (th t) = Idle \<longrightarrow> OwningThread cs = (tid :: 't \<Rightarrow> u64) t \<and> RecursionCount cs = word_of_nat (depth (th t)))"
proof -
  have inv: "cs_inv tid D (cs, th)" by (rule cs_reachable_inv [OF assms(1-4)])
  then have "(\<Sum>v\<in>UNIV. tok (th v)) \<le> 1" and l: "local_inv (tid t) D cs (th t)" by (auto simp: cs_inv_def)
  then have "u = t" if "0 < depth (th u)" for u
    using tok_le_sum [of t u th] that assms(5) by (cases "u = t") (auto simp: tok_def)
  moreover have "at (th t) = Idle \<longrightarrow> OwningThread cs = tid t \<and> RecursionCount cs = word_of_nat (depth (th t))"
    using l assms(5) by (auto simp: local_inv_def consistent_def owned_def)
  ultimately show ?thesis by blast
qed

theorem mutual_exclusion_witness:
  "case cs_run demo_tid 3 demo_schedule demo_init of None \<Rightarrow> False
   | Some (cs, th) \<Rightarrow> at (th False) = E_wait \<and> (\<forall>u. 0 < depth (th u) \<longrightarrow> u = True) \<and>
       OwningThread cs = demo_tid True \<and> RecursionCount cs = word_of_nat (depth (th True))"
proof -
  obtain cs th where r: "cs_run demo_tid 3 demo_schedule demo_init = Some (cs, th)"
    and h: "depth (th True) = 1" "at (th True) = Idle" "at (th False) = E_wait"
    using demo_run by (auto split: option.splits)
  have "0 < depth (th True)" using h by simp
  from mutual_exclusion [OF cs_run_reachable [OF demo_reachable r] demo_hypotheses this] r h show ?thesis by auto
qed

text \<open>The abstract recursive lock, on the nesting depths of the threads.\<close>

definition lock_spec :: "('t \<Rightarrow> nat) \<Rightarrow> ('t \<Rightarrow> nat) \<Rightarrow> bool" where
  "lock_spec d d' \<longleftrightarrow> d' = d \<or> (\<exists>t. (\<forall>u. u \<noteq> t \<longrightarrow> d u = 0) \<and> d' = d(t := d t + 1)) \<or>
     (\<exists>t. 0 < d t \<and> d' = d(t := d t - 1))"

lemma thread_step_depth:
  "thread_step tid cs l = Some (cs', l') \<Longrightarrow> depth l' = depth l \<or> depth l' = depth l + 1 \<or> depth l' = depth l - 1"
  by (cases "at l") (auto simp: step_defs split: if_splits)

lemma cs_step_depth:
  assumes "cs_step tid D (cs, th) (cs', th')"
  obtains t where "\<And>u. u \<noteq> t \<Longrightarrow> depth (th' u) = depth (th u)"
    and "depth (th' t) = depth (th t) \<or> depth (th' t) = depth (th t) + 1 \<or> depth (th' t) = depth (th t) - 1"
  using assms
proof (cases rule: cs_step.cases)
  case (run t l')
  then show ?thesis using that [of t] thread_step_depth [of "tid t" cs "th t" cs' l'] by simp
next
  case (enter t)
  then show ?thesis using that [of t] by simp
next
  case (try_enter t)
  then show ?thesis using that [of t] by simp
next
  case (leave t)
  then show ?thesis using that [of t] by simp
qed

lemma single_holder:
  assumes "cs_inv tid D (cs, th :: 't::finite \<Rightarrow> thread)" and "0 < depth (th t)" and "u \<noteq> t"
  shows "depth (th u) = 0"
proof -
  have "tok (th t) + tok (th u) \<le> 1" using assms(1) tok_le_sum [of t u th] assms(3) by (auto simp: cs_inv_def)
  then show ?thesis using assms(2) by (auto simp: tok_def)
qed



text \<open>
  C3: no lost wake-up. When a thread waits on the semaphore, either the semaphore lets it go on, or
  some other thread that has or is about to have the section can take its next step, or is between
  calls and holds the section, so that its Leave is still to come.
\<close>

theorem no_lost_wakeup:
  assumes "cs_reachable tid D (cs, th)" and "inj tid" and "\<forall>t. tid t \<noteq> 0" and "CARD('t::finite) * D + 1 < 2 ^ 31"
    and "at (th t) = E_wait"
  shows "thread_step ((tid :: 't \<Rightarrow> u64) t) cs (th t) \<noteq> None \<or>
    (\<exists>u. tok (th u) = 1 \<and> (thread_step (tid u) cs (th u) \<noteq> None \<or> at (th u) = Idle \<and> 0 < depth (th u)))"
proof (cases "sem cs = 0")
  case False
  then show ?thesis using assms(5) by (simp add: step_defs)
next
  case True
  have inv: "cs_inv tid D (cs, th)" by (rule cs_reachable_inv [OF assms(1-4)])
  have "cnt (th t) \<noteq> 0" using assms(5) by (simp add: cnt_def)
  then have "(\<Sum>u\<in>UNIV. cnt (th u)) \<noteq> 0" by auto
  with inv True have "(\<Sum>u\<in>UNIV. tok (th u)) = 1" by (simp add: cs_inv_def del: sum_eq_0_iff)
  then obtain u where u: "tok (th u) \<noteq> 0" by (metis sum.neutral zero_neq_one)
  then have 1: "tok (th u) = 1" by (auto simp: tok_def)
  have "local_inv (tid u) D cs (th u)" using inv by (simp add: cs_inv_def)
  with u have "thread_step (tid u) cs (th u) \<noteq> None \<or> at (th u) = Idle \<and> 0 < depth (th u)"
    by (cases "at (th u)") (simp_all add: step_defs local_inv_def tok_def)
  with 1 show ?thesis by blast
qed

theorem no_lost_wakeup_witness:
  "case cs_run demo_tid 3 demo_schedule demo_init of None \<Rightarrow> False
   | Some (cs, th) \<Rightarrow> thread_step (demo_tid False) cs (th False) \<noteq> None \<or>
       (\<exists>u. tok (th u) = 1 \<and> (thread_step (demo_tid u) cs (th u) \<noteq> None \<or> at (th u) = Idle \<and> 0 < depth (th u)))"
proof -
  obtain cs th where r: "cs_run demo_tid 3 demo_schedule demo_init = Some (cs, th)"
    and h: "depth (th True) = 1" "at (th True) = Idle" "at (th False) = E_wait"
    using demo_run by (auto split: option.splits)
  from no_lost_wakeup [OF cs_run_reachable [OF demo_reachable r] demo_hypotheses h(3)] r show ?thesis by simp
qed

end
