(* ===== verification/List_Dictionary.thy ===== *)
theory List_Dictionary
  imports Critical_Section "HOL-Library.Monad_Syntax"
begin

text \<open>
  src/libuzi/dictionary.c: a dictionary kept as a singly linked list in a heap. The heap maps the
  addresses of the allocated items to their contents; reading an address that is not allocated is
  undefined and makes an operation \<open>None\<close>, and so does a traversal that never ends. \<open>NULL\<close> is the
  address 0. The results of \<open>malloc\<close> and \<open>calloc\<close> are parameters. The lock is seen as the recursive lock
  that critical.c refines: \<open>lock_depth\<close> is the nesting depth of the calling thread.
\<close>

section \<open>Data\<close>

record wListDictionaryItem =
  key :: addr
  "value" :: addr
  "next" :: addr

type_synonym item_heap = "addr \<rightharpoonup> wListDictionaryItem"

text \<open>
  \<open>keyEquals\<close> is \<open>objectKey.fnObjectEquals\<close>; \<open>keyFree\<close> and \<open>valueFree\<close> say whether \<open>fnObjectFree\<close> of the key
  and of the value object is set. The objects passed to these callbacks are logged in \<open>freed\<close>.
\<close>

record wListDictionary =
  synchronized :: bool
  lock :: CRITICAL_SECTION
  lock_depth :: nat
  head :: addr
  keyEquals :: "addr \<Rightarrow> addr \<Rightarrow> bool"
  keyFree :: bool
  valueFree :: bool

text \<open>\<open>dict\<close> is the argument \<open>listDictionary\<close> of the operations; \<open>None\<close> is the null pointer.\<close>

record dstate =
  dict :: "wListDictionary option"
  heap :: item_heap
  freed :: "addr list"

section \<open>Operations\<close>

definition enter_if :: "wListDictionary \<Rightarrow> wListDictionary" where
  "enter_if d = (if synchronized d then d\<lparr>lock_depth := lock_depth d + 1\<rparr> else d)"

definition leave_if :: "wListDictionary \<Rightarrow> wListDictionary" where
  "leave_if d = (if synchronized d then d\<lparr>lock_depth := lock_depth d - 1\<rparr> else d)"

partial_function (option) count_items :: "item_heap \<Rightarrow> addr \<Rightarrow> int \<Rightarrow> int option" where
  "count_items h item count =
     (if item = NULL then Some count
      else do { it \<leftarrow> h item; count_items h (next it) (count + 1) })"

definition ListDictionary_Count :: "dstate \<Rightarrow> (int \<times> dstate) option" where
  "ListDictionary_Count s =
     (case dict s of
        None \<Rightarrow> Some (-1, s)
      | Some d \<Rightarrow>
          do {
            let d = enter_if d;
            count \<leftarrow> (if head d \<noteq> NULL then count_items (heap s) (head d) 0 else Some 0);
            Some (count, s\<lparr>dict := Some (leave_if d)\<rparr>)
          })"

definition ListDictionary_IsFixedSized :: "dstate \<Rightarrow> bool" where
  "ListDictionary_IsFixedSized s = False"

definition ListDictionary_IsReadOnly :: "dstate \<Rightarrow> bool" where
  "ListDictionary_IsReadOnly s = False"

definition ListDictionary_IsSynchronized :: "dstate \<Rightarrow> bool option" where
  "ListDictionary_IsSynchronized s = map_option synchronized (dict s)"

definition ListDictionary_Lock :: "dstate \<Rightarrow> dstate" where
  "ListDictionary_Lock s =
     (case dict s of None \<Rightarrow> s | Some d \<Rightarrow> s\<lparr>dict := Some (d\<lparr>lock_depth := lock_depth d + 1\<rparr>)\<rparr>)"

definition ListDictionary_Unlock :: "dstate \<Rightarrow> dstate" where
  "ListDictionary_Unlock s =
     (case dict s of None \<Rightarrow> s | Some d \<Rightarrow> s\<lparr>dict := Some (d\<lparr>lock_depth := lock_depth d - 1\<rparr>)\<rparr>)"

partial_function (option) store_keys :: "item_heap \<Rightarrow> addr \<Rightarrow> nat \<Rightarrow> addr list \<Rightarrow> addr list option" where
  "store_keys h item index pKeys =
     (if item = NULL then Some pKeys
      else do {
        it \<leftarrow> h item;
        (if index < length pKeys then store_keys h (next it) (index + 1) (pKeys[index := key it]) else None)
      })"

text \<open>
  \<open>ppKeys\<close> says whether the output pointer is not null, \<open>calloc_ok\<close> whether \<open>calloc\<close> succeeds. The second
  result is what is stored through \<open>ppKeys\<close>: nothing, or an array (the empty one is the null pointer).
\<close>

definition ListDictionary_GetKeys :: "bool \<Rightarrow> bool \<Rightarrow> dstate \<Rightarrow> (int \<times> addr list option \<times> dstate) option" where
  "ListDictionary_GetKeys ppKeys calloc_ok s =
     (if \<not> ppKeys then Some (-1, None, s)
      else case dict s of
        None \<Rightarrow> Some (-1, None, s)
      | Some d \<Rightarrow>
          do {
            let d = enter_if d;
            count \<leftarrow> (if head d \<noteq> NULL then count_items (heap s) (head d) 0 else Some 0);
            (if count \<noteq> 0 \<and> \<not> calloc_ok then Some (-1, None, s\<lparr>dict := Some (leave_if d)\<rparr>)
             else do {
               let pKeys = (if count \<noteq> 0 then replicate (nat count) 0 else []);
               ks \<leftarrow> (if head d \<noteq> NULL then store_keys (heap s) (head d) 0 pKeys else Some pKeys);
               Some (count, Some ks, s\<lparr>dict := Some (leave_if d)\<rparr>)
             })
          })"

partial_function (option) last_item :: "item_heap \<Rightarrow> addr \<Rightarrow> addr option" where
  "last_item h lastItem =
     do { it \<leftarrow> h lastItem; (if next it \<noteq> NULL then last_item h (next it) else Some lastItem) }"

text \<open>\<open>block\<close> is the result of \<open>malloc\<close>.\<close>

definition ListDictionary_Add :: "addr \<Rightarrow> addr \<Rightarrow> addr \<Rightarrow> dstate \<Rightarrow> (bool \<times> dstate) option" where
  "ListDictionary_Add block k v s =
     (case dict s of
        None \<Rightarrow> Some (False, s)
      | Some d \<Rightarrow>
          (let d = enter_if d in
           if block = NULL then Some (False, s\<lparr>dict := Some (leave_if d)\<rparr>)
           else
             (let h = (heap s)(block \<mapsto> \<lparr>key = k, value = v, next = NULL\<rparr>) in
              if head d = NULL then Some (True, s\<lparr>dict := Some (leave_if (d\<lparr>head := block\<rparr>)), heap := h\<rparr>)
              else do {
                lastItem \<leftarrow> last_item h (head d);
                it \<leftarrow> h lastItem;
                Some (True, s\<lparr>dict := Some (leave_if d), heap := h(lastItem \<mapsto> it\<lparr>next := block\<rparr>)\<rparr>)
              })))"

partial_function (option) clear_items ::
  "bool \<Rightarrow> bool \<Rightarrow> addr \<Rightarrow> item_heap \<Rightarrow> addr list \<Rightarrow> (item_heap \<times> addr list) option" where
  "clear_items kfree vfree item h log =
     (if item = NULL then Some (h, log)
      else do {
        it \<leftarrow> h item;
        clear_items kfree vfree (next it) (h(item := None))
          (log @ (if kfree then [key it] else []) @ (if vfree then [value it] else []))
      })"

definition ListDictionary_Clear :: "dstate \<Rightarrow> dstate option" where
  "ListDictionary_Clear s =
     (case dict s of
        None \<Rightarrow> Some s
      | Some d \<Rightarrow>
          (let d = enter_if d in
           if head d \<noteq> NULL then do {
             (h, log) \<leftarrow> clear_items (keyFree d) (valueFree d) (head d) (heap s) (freed s);
             Some (s\<lparr>dict := Some (leave_if (d\<lparr>head := NULL\<rparr>)), heap := h, freed := log\<rparr>)
           }
           else Some (s\<lparr>dict := Some (leave_if d)\<rparr>)))"

partial_function (option) find_item ::
  "(addr \<Rightarrow> addr \<Rightarrow> bool) \<Rightarrow> item_heap \<Rightarrow> addr \<Rightarrow> addr \<Rightarrow> addr option" where
  "find_item eq h k item =
     (if item = NULL then Some NULL
      else do { it \<leftarrow> h item; (if eq (key it) k then Some item else find_item eq h k (next it)) })"

definition ListDictionary_Contains :: "addr \<Rightarrow> dstate \<Rightarrow> (bool \<times> dstate) option" where
  "ListDictionary_Contains k s =
     (case dict s of
        None \<Rightarrow> Some (False, s)
      | Some d \<Rightarrow>
          do {
            let d = enter_if d;
            item \<leftarrow> find_item (keyEquals d) (heap s) k (head d);
            Some (item \<noteq> NULL, s\<lparr>dict := Some (leave_if d)\<rparr>)
          })"

text \<open>The loop of \<open>Remove\<close> returns the value, the new head and the new heap.\<close>

partial_function (option) remove_item ::
  "(addr \<Rightarrow> addr \<Rightarrow> bool) \<Rightarrow> addr \<Rightarrow> addr \<Rightarrow> item_heap \<Rightarrow> addr \<Rightarrow> addr \<Rightarrow> (addr \<times> addr \<times> item_heap) option" where
  "remove_item eq k hd0 h prevItem item =
     (if item = NULL then Some (NULL, hd0, h)
      else do {
        it \<leftarrow> h item;
        (if eq (key it) k then
           (if prevItem = NULL then Some (value it, next it, h(item := None))
            else do {
              p \<leftarrow> h prevItem;
              Some (value it, hd0, (h(prevItem \<mapsto> p\<lparr>next := next it\<rparr>))(item := None))
            })
         else remove_item eq k hd0 h item (next it))
      })"

definition ListDictionary_Remove :: "addr \<Rightarrow> dstate \<Rightarrow> (addr \<times> dstate) option" where
  "ListDictionary_Remove k s =
     (case dict s of
        None \<Rightarrow> Some (NULL, s)
      | Some d \<Rightarrow>
          do {
            let d = enter_if d;
            (v, hd0, h) \<leftarrow> remove_item (keyEquals d) k (head d) (heap s) NULL (head d);
            Some (v, s\<lparr>dict := Some (leave_if (d\<lparr>head := hd0\<rparr>)), heap := h\<rparr>)
          })"

definition ListDictionary_Remove_Head :: "dstate \<Rightarrow> (addr \<times> dstate) option" where
  "ListDictionary_Remove_Head s =
     (case dict s of
        None \<Rightarrow> Some (NULL, s)
      | Some d \<Rightarrow>
          (let d = enter_if d in
           if head d \<noteq> NULL then do {
             it \<leftarrow> heap s (head d);
             Some (value it, s\<lparr>dict := Some (leave_if (d\<lparr>head := next it\<rparr>)), heap := (heap s)(head d := None)\<rparr>)
           }
           else Some (NULL, s\<lparr>dict := Some (leave_if d)\<rparr>)))"

definition ListDictionary_GetItemValue :: "addr \<Rightarrow> dstate \<Rightarrow> (addr \<times> dstate) option" where
  "ListDictionary_GetItemValue k s =
     (case dict s of
        None \<Rightarrow> Some (NULL, s)
      | Some d \<Rightarrow>
          do {
            let d = enter_if d;
            item \<leftarrow> (if head d \<noteq> NULL then find_item (keyEquals d) (heap s) k (head d) else Some NULL);
            v \<leftarrow> (if item \<noteq> NULL then map_option value (heap s item) else Some NULL);
            Some (v, s\<lparr>dict := Some (leave_if d)\<rparr>)
          })"

definition ListDictionary_SetItemValue :: "addr \<Rightarrow> addr \<Rightarrow> dstate \<Rightarrow> (bool \<times> dstate) option" where
  "ListDictionary_SetItemValue k v s =
     (case dict s of
        None \<Rightarrow> Some (False, s)
      | Some d \<Rightarrow>
          (let d = enter_if d in
           if head d \<noteq> NULL then do {
             item \<leftarrow> find_item (keyEquals d) (heap s) k (head d);
             (if item \<noteq> NULL then do {
                it \<leftarrow> heap s item;
                Some (True, s\<lparr>dict := Some (leave_if d), heap := (heap s)(item \<mapsto> it\<lparr>value := v\<rparr>),
                               freed := freed s @ (if valueFree d then [value it] else [])\<rparr>)
              }
              else Some (False, s\<lparr>dict := Some (leave_if d)\<rparr>))
           }
           else Some (False, s\<lparr>dict := Some (leave_if d)\<rparr>)))"

definition default_equal_function :: "addr \<Rightarrow> addr \<Rightarrow> bool" where
  "default_equal_function obj1 obj2 = (obj1 = obj2)"

text \<open>
  \<open>calloc_ok\<close> is the success of \<open>calloc\<close>; \<open>block\<close>, \<open>sem_ok\<close> and \<open>nproc\<close> are what the initialisation of the
  critical section depends on. \<open>calloc\<close> zeroes the structure.
\<close>

definition ListDictionary_New :: "bool \<Rightarrow> addr \<Rightarrow> bool \<Rightarrow> u32 \<Rightarrow> bool \<Rightarrow> wListDictionary option" where
  "ListDictionary_New calloc_ok block sem_ok nproc sync =
     (if \<not> calloc_ok then None
      else
        (let zero = \<lparr>LockCount = 0, RecursionCount = 0, OwningThread = 0, LockSemaphore = NULL, SpinCount = 0, sem = 0\<rparr>;
             (ok, cs) = InitializeCriticalSectionAndSpinCount block sem_ok nproc zero 4000 in
         if \<not> ok then None
         else Some \<lparr>synchronized = sync, lock = cs, lock_depth = 0, head = NULL,
                    keyEquals = default_equal_function, keyFree = False, valueFree = False\<rparr>))"

text \<open>The second component is the block of the semaphore that is freed with the critical section.\<close>

definition ListDictionary_Free :: "dstate \<Rightarrow> (dstate \<times> addr option) option" where
  "ListDictionary_Free s =
     (case dict s of
        None \<Rightarrow> Some (s, None)
      | Some d \<Rightarrow>
          do {
            s1 \<leftarrow> ListDictionary_Clear s;
            d1 \<leftarrow> dict s1;
            Some (s1\<lparr>dict := None\<rparr>, snd (DeleteCriticalSection (lock d1)))
          })"

end
