(* ===== verification/Dictionary_Correct.thy ===== *)
theory Dictionary_Correct
  imports List_Dictionary
begin

text \<open>
  The linked list of src/libuzi/dictionary.c refines a list of entries. The loops are evaluated on a heap
  that holds a well-formed list (\<open>items\<close>); \<open>represents\<close> is the abstraction relation; the locale
  \<open>entry_list\<close> states the contract of a list of entries, derives its map laws, and is interpreted on the
  operations of the dictionary.
\<close>

section \<open>Linked lists in the heap\<close>

type_synonym cell = "addr \<times> addr \<times> addr"

text \<open>\<open>items h p cs\<close>: from \<open>p\<close> on the heap holds the cells \<open>cs\<close>, each an address, a key and a value.\<close>

fun items :: "item_heap \<Rightarrow> addr \<Rightarrow> cell list \<Rightarrow> bool" where
  "items h p [] = (p = NULL)"
| "items h p ((a, k, v) # cs) =
     (p = a \<and> a \<noteq> NULL \<and> (\<exists>q. h a = Some \<lparr>key = k, value = v, next = q\<rparr> \<and> items h q cs))"

abbreviation addrs :: "cell list \<Rightarrow> addr set" where
  "addrs cs \<equiv> fst ` set cs"

lemma items_frame [heap_frame]: "a \<notin> addrs cs \<Longrightarrow> items (h(a := x)) p cs = items h p cs"
  by (induction h p cs rule: items.induct) auto

lemma items_NULL [simp]: "items h 0 cs \<longleftrightarrow> cs = []"
  by (cases cs) auto

lemma items_not_NULL: "items h p cs \<Longrightarrow> p \<noteq> NULL \<longleftrightarrow> cs \<noteq> []"
  by (cases cs) auto

lemma items_allocated: "items h p cs \<Longrightarrow> a \<in> addrs cs \<Longrightarrow> h a \<noteq> None"
  by (induction h p cs rule: items.induct) auto

lemma items_Cons:
  assumes "items h p (c # cs)"
  obtains k v q where "c = (p, k, v)" "p \<noteq> NULL" "h p = Some \<lparr>key = k, value = v, next = q\<rparr>" "items h q cs"
  using assms by (cases c) auto

section \<open>The loops\<close>

lemma count_items_eq: "items h p cs \<Longrightarrow> count_items h p n = Some (n + int (length cs))"
proof (induction cs arbitrary: p n)
  case (Cons c cs)
  from Cons.prems obtain k v q where "p \<noteq> NULL" "h p = Some \<lparr>key = k, value = v, next = q\<rparr>" "items h q cs"
    by (rule items_Cons)
  with Cons.IH [of q "n + 1"] show ?case by (subst count_items.simps) simp
qed (simp add: count_items.simps)

lemma store_keys_eq:
  "items h p cs \<Longrightarrow> i + length cs = length ks \<Longrightarrow> store_keys h p i ks = Some (take i ks @ map (fst \<circ> snd) cs)"
proof (induction cs arbitrary: p i ks)
  case (Cons c cs)
  from Cons.prems(1) obtain k v q where c: "c = (p, k, v)" "p \<noteq> NULL" "h p = Some \<lparr>key = k, value = v, next = q\<rparr>" "items h q cs"
    by (rule items_Cons)
  then have "store_keys h p i ks = store_keys h q (i + 1) (ks[i := k])"
    using Cons.prems(2) by (subst store_keys.simps) simp
  then show ?case using Cons.IH [OF c(4), of "i + 1" "ks[i := k]"] Cons.prems(2) c(1)
    by (simp add: take_Suc_conv_app_nth)
qed (simp add: store_keys.simps)

lemma last_item_eq: "items h p cs \<Longrightarrow> cs \<noteq> [] \<Longrightarrow> last_item h p = Some (fst (last cs))"
proof (induction cs arbitrary: p)
  case (Cons c cs)
  from Cons.prems(1) obtain k v q where c: "c = (p, k, v)" "p \<noteq> NULL" "h p = Some \<lparr>key = k, value = v, next = q\<rparr>" "items h q cs"
    by (rule items_Cons)
  show ?case
  proof (cases "cs = []")
    case True
    then show ?thesis using c by (subst last_item.simps) simp
  next
    case False
    then have "last_item h p = last_item h q" using c items_not_NULL [OF c(4)] by (subst last_item.simps) simp
    then show ?thesis using Cons.IH [OF c(4) False] False by simp
  qed
qed simp

lemma find_item_eq:
  "items h p cs \<Longrightarrow> find_item eq h k p = Some (case find (\<lambda>c. eq (fst (snd c)) k) cs of None \<Rightarrow> NULL | Some c \<Rightarrow> fst c)"
proof (induction cs arbitrary: p)
  case (Cons c cs)
  from Cons.prems obtain k' v q where "c = (p, k', v)" "p \<noteq> NULL" "h p = Some \<lparr>key = k', value = v, next = q\<rparr>" "items h q cs"
    by (rule items_Cons)
  with Cons.IH [of q] show ?case by (subst find_item.simps) simp
qed (simp add: find_item.simps)

text \<open>The calls of \<open>fnObjectFree\<close> for one cell.\<close>

definition callbacks :: "bool \<Rightarrow> bool \<Rightarrow> addr \<times> addr \<Rightarrow> addr list" where
  "callbacks kf vf kv = (if kf then [fst kv] else []) @ (if vf then [snd kv] else [])"

lemma clear_items_eq:
  "items h p cs \<Longrightarrow> distinct (map fst cs) \<Longrightarrow>
   clear_items kf vf p h log = Some (h |` (- addrs cs), log @ concat (map (callbacks kf vf) (map snd cs)))"
proof (induction cs arbitrary: p h log)
  case Nil
  then show ?case by (simp add: clear_items.simps)
next
  case (Cons c cs)
  from Cons.prems(1) obtain k v q where c: "c = (p, k, v)" "p \<noteq> NULL" "h p = Some \<lparr>key = k, value = v, next = q\<rparr>" "items h q cs"
    by (rule items_Cons)
  have p: "p \<notin> addrs cs" using Cons.prems(2) c(1) by auto
  have i: "items (h(p := None)) q cs" using c(4) p by (simp add: items_frame)
  have r: "(h(p := None)) |` (- addrs cs) = h |` (- addrs (c # cs))"
    using c(1) by (auto simp: restrict_map_def fun_eq_iff)
  have "clear_items kf vf p h log = clear_items kf vf q (h(p := None)) (log @ callbacks kf vf (k, v))"
    using c(2,3) by (subst clear_items.simps) (simp add: callbacks_def)
  also have "\<dots> = Some (h |` (- addrs (c # cs)), (log @ callbacks kf vf (k, v)) @ concat (map (callbacks kf vf) (map snd cs)))"
    unfolding r [symmetric] using Cons.prems(2) by (intro Cons.IH [OF i]) simp
  finally show ?case using c(1) by simp
qed

section \<open>The loop of Remove\<close>

text \<open>Removing and updating the first entry whose key matches, on lists of entries.\<close>

fun del_first :: "('a \<Rightarrow> bool) \<Rightarrow> 'a list \<Rightarrow> 'a list" where
  "del_first P [] = []"
| "del_first P (x # xs) = (if P x then xs else x # del_first P xs)"

fun upd_first :: "('a \<Rightarrow> bool) \<Rightarrow> ('a \<Rightarrow> 'a) \<Rightarrow> 'a list \<Rightarrow> 'a list" where
  "upd_first P f [] = []"
| "upd_first P f (x # xs) = (if P x then f x # xs else x # upd_first P f xs)"

lemma set_del_first: "set (del_first P xs) \<subseteq> set xs"
  by (induction xs) auto

lemma addrs_del_first: "addrs (del_first P xs) \<subseteq> addrs xs"
  using set_del_first by (rule image_mono)

lemma distinct_del_first: "distinct (map fst xs) \<Longrightarrow> distinct (map fst (del_first P xs))"
proof (induction xs)
  case (Cons x xs)
  then show ?case using set_del_first [of P xs] by auto
qed simp

definition found_value :: "cell option \<Rightarrow> addr" where
  "found_value c = (case c of None \<Rightarrow> NULL | Some (a, k, v) \<Rightarrow> v)"

lemma remove_item_inner:
  assumes "items h p cs" and "distinct (map fst cs)" and "h prev = Some \<lparr>key = k0, value = v0, next = p\<rparr>"
    and "prev \<noteq> NULL" and "prev \<notin> addrs cs"
  shows "\<exists>h'. remove_item eq k hd0 h prev p =
      Some (found_value (find (\<lambda>c. eq (fst (snd c)) k) cs), hd0, h') \<and>
    items h' prev ((prev, k0, v0) # del_first (\<lambda>c. eq (fst (snd c)) k) cs) \<and>
    (\<forall>a. a \<noteq> prev \<and> a \<notin> addrs cs \<longrightarrow> h' a = h a) \<and>
    dom h' = dom h - (addrs cs - addrs (del_first (\<lambda>c. eq (fst (snd c)) k) cs))"
  using assms
proof (induction cs arbitrary: p prev k0 v0)
  case Nil
  then show ?case by (auto simp: remove_item.simps found_value_def)
next
  case (Cons c cs)
  from Cons.prems(1) obtain k1 v q where c: "c = (p, k1, v)" "p \<noteq> NULL" "h p = Some \<lparr>key = k1, value = v, next = q\<rparr>" "items h q cs"
    by (rule items_Cons)
  have p: "p \<notin> addrs cs" and d: "distinct (map fst cs)" and pr: "prev \<notin> addrs cs" "prev \<noteq> p"
    using Cons.prems(2,5) c(1) by auto
  show ?case
  proof (cases "eq k1 k")
    case True
    let ?h = "(h(prev \<mapsto> \<lparr>key = k0, value = v0, next = q\<rparr>))(p := None)"
    have "remove_item eq k hd0 h prev p = Some (v, hd0, ?h)"
      using True c Cons.prems(3,4) by (subst remove_item.simps) simp
    moreover have "items ?h q cs" using c(4) p pr(1) by (simp add: items_frame)
    moreover have "dom ?h = dom h - (addrs (c # cs) - addrs cs)" using c(1,3) p pr Cons.prems(3) by auto
    ultimately show ?thesis using True c(1) pr Cons.prems(4) by (auto simp: found_value_def)
  next
    case False
    have "remove_item eq k hd0 h prev p = remove_item eq k hd0 h p q"
      using False c by (subst remove_item.simps) simp
    moreover from Cons.IH [OF c(4) d c(3,2) p] obtain h' where
      "remove_item eq k hd0 h p q = Some (found_value (find (\<lambda>c. eq (fst (snd c)) k) cs), hd0, h')"
      "items h' p ((p, k1, v) # del_first (\<lambda>c. eq (fst (snd c)) k) cs)"
      "\<forall>a. a \<noteq> p \<and> a \<notin> addrs cs \<longrightarrow> h' a = h a"
      "dom h' = dom h - (addrs cs - addrs (del_first (\<lambda>c. eq (fst (snd c)) k) cs))" by blast
    moreover have "addrs (c # cs) - addrs (c # del_first (\<lambda>c. eq (fst (snd c)) k) cs) =
        addrs cs - addrs (del_first (\<lambda>c. eq (fst (snd c)) k) cs)" using p c(1) by auto
    ultimately show ?thesis using False c(1) pr Cons.prems(3,4) by auto
  qed
qed

lemma remove_item_eq:
  assumes "items h p cs" and "distinct (map fst cs)"
  shows "\<exists>h' p'. remove_item eq k p h NULL p =
      Some (found_value (find (\<lambda>c. eq (fst (snd c)) k) cs), p', h') \<and>
    items h' p' (del_first (\<lambda>c. eq (fst (snd c)) k) cs) \<and>
    dom h' = dom h - (addrs cs - addrs (del_first (\<lambda>c. eq (fst (snd c)) k) cs))"
proof (cases cs)
  case Nil
  then show ?thesis using assms by (auto simp: remove_item.simps found_value_def)
next
  case (Cons c cs')
  from assms(1) obtain k1 v q where c: "c = (p, k1, v)" "p \<noteq> NULL" "h p = Some \<lparr>key = k1, value = v, next = q\<rparr>" "items h q cs'"
    unfolding Cons by (rule items_Cons)
  have p: "p \<notin> addrs cs'" and d: "distinct (map fst cs')" using assms(2) c(1) Cons by auto
  show ?thesis
  proof (cases "eq k1 k")
    case True
    then have "remove_item eq k p h NULL p = Some (v, q, h(p := None))" using c by (subst remove_item.simps) simp
    moreover have "dom (h(p := None)) = dom h - (addrs (c # cs') - addrs cs')" using c(1) p by auto
    ultimately show ?thesis using True Cons c p by (auto simp: found_value_def items_frame)
  next
    case False
    then have "remove_item eq k p h NULL p = remove_item eq k p h p q" using c by (subst remove_item.simps) simp
    moreover have "addrs (c # cs') - addrs (c # del_first (\<lambda>c. eq (fst (snd c)) k) cs') =
        addrs cs' - addrs (del_first (\<lambda>c. eq (fst (snd c)) k) cs')" using p c(1) by auto
    ultimately show ?thesis using remove_item_inner [OF c(4) d c(3,2) p, of eq k p] False Cons c(1) by force
  qed
qed

lemma items_append_cell:
  assumes "items h p cs" and "cs \<noteq> []" and "distinct (map fst cs)" and "b \<notin> addrs cs" and "b \<noteq> NULL"
    and "h b = Some \<lparr>key = k, value = v, next = NULL\<rparr>" and "h (fst (last cs)) = Some it"
  shows "items (h(fst (last cs) \<mapsto> it\<lparr>next := b\<rparr>)) p (cs @ [(b, k, v)])"
  using assms
proof (induction cs arbitrary: p)
  case (Cons c cs)
  from Cons.prems(1) obtain k1 v1 q where c: "c = (p, k1, v1)" "p \<noteq> NULL" "h p = Some \<lparr>key = k1, value = v1, next = q\<rparr>" "items h q cs"
    by (rule items_Cons)
  show ?case
  proof (cases "cs = []")
    case True
    then show ?thesis using Cons.prems c by auto
  next
    case False
    then have "fst (last cs) \<in> addrs cs" by simp
    then have "fst (last cs) \<noteq> p" using Cons.prems(3) c(1) by auto
    then show ?thesis using Cons c False by simp
  qed
qed simp

lemma items_set_value:
  assumes "items h p cs" and "distinct (map fst cs)" and "find P cs = Some c" and "h (fst c) = Some it"
  shows "items (h(fst c \<mapsto> it\<lparr>value := v\<rparr>)) p (upd_first P (\<lambda>(a, k, _). (a, k, v)) cs)"
  using assms
proof (induction cs arbitrary: p)
  case (Cons c' cs)
  from Cons.prems(1) obtain k1 v1 q where c: "c' = (p, k1, v1)" "p \<noteq> NULL" "h p = Some \<lparr>key = k1, value = v1, next = q\<rparr>" "items h q cs"
    by (rule items_Cons)
  have p: "p \<notin> addrs cs" using Cons.prems(2) c(1) by auto
  show ?case
  proof (cases "P c'")
    case True
    moreover have "items (h(p \<mapsto> it\<lparr>value := v\<rparr>)) q cs" using c(4) p by (simp add: items_frame)
    moreover have "c = (p, k1, v1)" "it = \<lparr>key = k1, value = v1, next = q\<rparr>" using True Cons.prems(3,4) c by auto
    ultimately show ?thesis using c(1,2) by (simp add: fun_upd_def)
  next
    case False
    then have f: "find P cs = Some c" using Cons.prems(3) by simp
    then have "c \<in> set cs" by (auto simp: find_Some_iff)
    then have "fst c \<noteq> p" using p by auto
    then show ?thesis using Cons.IH [OF c(4) _ f Cons.prems(4)] Cons.prems(2) c False by auto
  qed
qed simp


section \<open>The abstract dictionary\<close>

text \<open>
  The contract of a list of entries under a key equality \<open>eq\<close>, in insertion order: additions go to the
  end, lookups, updates and removals act on the first match. Operations are partial functions of the
  state; \<open>fresh\<close> is what an addition needs of its memory block.
\<close>

definition lookup_first :: "('k \<Rightarrow> 'k \<Rightarrow> bool) \<Rightarrow> 'v \<Rightarrow> 'k \<Rightarrow> ('k \<times> 'v) list \<Rightarrow> 'v" where
  "lookup_first eq null k kvs = (case find (\<lambda>e. eq (fst e) k) kvs of None \<Rightarrow> null | Some e \<Rightarrow> snd e)"

locale entry_list =
  fixes repr :: "'s \<Rightarrow> ('k \<times> 'v) list \<Rightarrow> bool"
    and eq :: "'k \<Rightarrow> 'k \<Rightarrow> bool"
    and null :: 'v
    and fresh :: "'m \<Rightarrow> 's \<Rightarrow> bool"
    and add :: "'m \<Rightarrow> 'k \<Rightarrow> 'v \<Rightarrow> 's \<Rightarrow> (bool \<times> 's) option"
    and get :: "'k \<Rightarrow> 's \<Rightarrow> ('v \<times> 's) option"
    and put :: "'k \<Rightarrow> 'v \<Rightarrow> 's \<Rightarrow> (bool \<times> 's) option"
    and contains :: "'k \<Rightarrow> 's \<Rightarrow> (bool \<times> 's) option"
    and remove :: "'k \<Rightarrow> 's \<Rightarrow> ('v \<times> 's) option"
  assumes add_law: "repr s kvs \<Longrightarrow> fresh m s \<Longrightarrow> \<exists>s'. add m k v s = Some (True, s') \<and> repr s' (kvs @ [(k, v)])"
    and get_law: "repr s kvs \<Longrightarrow> get k s = Some (lookup_first eq null k kvs, s)"
    and put_law: "repr s kvs \<Longrightarrow> \<exists>s'. put k v s = Some (\<exists>e\<in>set kvs. eq (fst e) k, s') \<and>
      repr s' (upd_first (\<lambda>e. eq (fst e) k) (\<lambda>(k', _). (k', v)) kvs)"
    and contains_law: "repr s kvs \<Longrightarrow> contains k s = Some (\<exists>e\<in>set kvs. eq (fst e) k, s)"
    and remove_law: "repr s kvs \<Longrightarrow> \<exists>s'. remove k s = Some (lookup_first eq null k kvs, s') \<and>
      repr s' (del_first (\<lambda>e. eq (fst e) k) kvs)"
begin

lemma find_append_new: "\<not> (\<exists>e\<in>set kvs. P e) \<Longrightarrow> find P (kvs @ [e]) = (if P e then Some e else None)"
  by (induction kvs) auto

lemma find_append_other: "\<not> P e \<Longrightarrow> find P (kvs @ [e]) = find P kvs"
  by (induction kvs) auto

lemma find_upd_first:
  assumes "\<And>e. P (f e) = P e" and "\<exists>e\<in>set kvs. P e"
  shows "find P (upd_first P f kvs) = map_option f (find P kvs)"
  using assms(2) by (induction kvs) (auto simp: assms(1))

lemma find_upd_first_other:
  assumes "\<And>e. P e \<Longrightarrow> \<not> Q e \<and> \<not> Q (f e)"
  shows "find Q (upd_first P f kvs) = find Q kvs"
  using assms by (induction kvs) auto

lemma find_del_first_other: "(\<And>e. P e \<Longrightarrow> \<not> Q e) \<Longrightarrow> find Q (del_first P kvs) = find Q kvs"
  by (induction kvs) auto

theorem get_after_add:
  assumes "repr s kvs" and "fresh m s" and "contains k s = Some (False, s)" and "eq k k"
  shows "\<exists>s'. add m k v s = Some (True, s') \<and> get k s' = Some (v, s') \<and>
    (\<forall>k'. \<not> eq k k' \<longrightarrow> get k' s' = Some (lookup_first eq null k' kvs, s'))"
proof -
  from add_law [OF assms(1,2), of k v] obtain s' where s': "add m k v s = Some (True, s')" "repr s' (kvs @ [(k, v)])" by blast
  have new: "\<not> (\<exists>e\<in>set kvs. eq (fst e) k)" using contains_law [OF assms(1), of k] assms(3) by simp
  have "lookup_first eq null k (kvs @ [(k, v)]) = v"
    using find_append_new [OF new, of "(k, v)"] assms(4) by (simp add: lookup_first_def)
  moreover have "lookup_first eq null k' (kvs @ [(k, v)]) = lookup_first eq null k' kvs" if "\<not> eq k k'" for k'
    using that by (simp add: lookup_first_def find_append_other)
  ultimately show ?thesis using s' get_law [OF s'(2)] by simp
qed

theorem get_after_put:
  assumes "repr s kvs" and "contains k s = Some (True, s)" and "\<forall>x y z. eq x y \<longrightarrow> eq x z \<longrightarrow> eq y z"
  shows "\<exists>s'. put k v s = Some (True, s') \<and> get k s' = Some (v, s') \<and>
    (\<forall>k'. \<not> eq k k' \<longrightarrow> get k' s' = Some (lookup_first eq null k' kvs, s'))"
proof -
  let ?P = "\<lambda>e. eq (fst e) k" and ?f = "\<lambda>(k', _). (k', v)"
  have c: "\<exists>e\<in>set kvs. eq (fst e) k" using contains_law [OF assms(1), of k] assms(2) by simp
  with put_law [OF assms(1), of k v] obtain s' where s': "put k v s = Some (True, s')" "repr s' (upd_first ?P ?f kvs)" by auto
  obtain e where e: "find ?P kvs = Some e" using c by (metis find_None_iff not_Some_eq)
  have "find ?P (upd_first ?P ?f kvs) = map_option ?f (find ?P kvs)" using c by (intro find_upd_first) auto
  then have "lookup_first eq null k (upd_first ?P ?f kvs) = v" using e by (simp add: lookup_first_def split: prod.splits)
  moreover have "lookup_first eq null k' (upd_first ?P ?f kvs) = lookup_first eq null k' kvs" if "\<not> eq k k'" for k'
  proof -
    have n: "\<not> eq x k'" if "eq x k" for x using assms(3) that \<open>\<not> eq k k'\<close> by blast
    have "find (\<lambda>e. eq (fst e) k') (upd_first ?P ?f kvs) = find (\<lambda>e. eq (fst e) k') kvs"
      by (intro find_upd_first_other) (auto simp: n)
    then show ?thesis by (simp add: lookup_first_def)
  qed
  ultimately show ?thesis using s' get_law [OF s'(2)] by simp
qed

theorem get_after_remove:
  assumes "repr s kvs" and trans: "\<forall>x y z. eq x y \<longrightarrow> eq x z \<longrightarrow> eq y z"
  shows "\<exists>s'. remove k s = Some (lookup_first eq null k kvs, s') \<and>
    (\<forall>k'. \<not> eq k k' \<longrightarrow> get k' s' = Some (lookup_first eq null k' kvs, s'))"
proof -
  from remove_law [OF assms(1)] obtain s' where s': "remove k s = Some (lookup_first eq null k kvs, s')"
    "repr s' (del_first (\<lambda>e. eq (fst e) k) kvs)" by blast
  have "lookup_first eq null k' (del_first (\<lambda>e. eq (fst e) k) kvs) = lookup_first eq null k' kvs" if "\<not> eq k k'" for k'
  proof -
    have n: "\<not> eq x k'" if "eq x k" for x using trans that \<open>\<not> eq k k'\<close> by blast
    have "find (\<lambda>e. eq (fst e) k') (del_first (\<lambda>e. eq (fst e) k) kvs) = find (\<lambda>e. eq (fst e) k') kvs"
      by (intro find_del_first_other) (simp add: n)
    then show ?thesis by (simp add: lookup_first_def)
  qed
  then show ?thesis using s' get_law [OF s'(2)] by simp
qed

end

section \<open>Refinement\<close>

text \<open>
  \<open>represents cfg s kvs\<close>: the dictionary holds the entries \<open>kvs\<close> in this order, its other fields are those
  of \<open>cfg\<close>, and the heap consists of its items only, so that nothing has leaked.
\<close>

definition represents :: "wListDictionary \<Rightarrow> dstate \<Rightarrow> (addr \<times> addr) list \<Rightarrow> bool" where
  "represents cfg s kvs \<longleftrightarrow> (\<exists>d cs. dict s = Some d \<and> d\<lparr>head := NULL\<rparr> = cfg \<and> items (heap s) (head d) cs \<and>
     distinct (map fst cs) \<and> dom (heap s) = addrs cs \<and> map snd cs = kvs)"

lemma representsE:
  assumes "represents cfg s kvs"
  obtains d cs where "dict s = Some d" "d\<lparr>head := NULL\<rparr> = cfg" "items (heap s) (head d) cs"
    "distinct (map fst cs)" "dom (heap s) = addrs cs" "map snd cs = kvs"
  using assms unfolding represents_def by blast

lemma representsI:
  assumes "dict s = Some d" "d\<lparr>head := NULL\<rparr> = cfg" "items (heap s) (head d) cs"
    "distinct (map fst cs)" "dom (heap s) = addrs cs" "map snd cs = kvs"
  shows "represents cfg s kvs"
  using assms unfolding represents_def by blast

lemma leave_enter [simp]: "leave_if (enter_if d) = d" "head (enter_if d) = head d"
    "keyEquals (enter_if d) = keyEquals d" "keyFree (enter_if d) = keyFree d" "valueFree (enter_if d) = valueFree d"
    "leave_if ((enter_if d)\<lparr>head := p\<rparr>) = d\<lparr>head := p\<rparr>"
  by (simp_all add: leave_if_def enter_if_def)

lemma dict_same [simp]: "dict s = Some d \<Longrightarrow> s\<lparr>dict := Some d\<rparr> = s"
  by (cases s) simp

lemma head_updates: "d\<lparr>head := NULL\<rparr> = cfg \<Longrightarrow> keyEquals d = keyEquals cfg" "d\<lparr>head := NULL\<rparr> = cfg \<Longrightarrow> keyFree d = keyFree cfg"
    "d\<lparr>head := NULL\<rparr> = cfg \<Longrightarrow> valueFree d = valueFree cfg"
  by auto

lemma find_cells: "find (\<lambda>e. P (fst e)) (map snd cs) = map_option snd (find (\<lambda>c. P (fst (snd c))) cs)"
  by (induction cs) auto

lemma del_first_cells: "map snd (del_first (\<lambda>c. P (fst (snd c))) cs) = del_first (\<lambda>e. P (fst e)) (map snd cs)"
  by (induction cs) auto

lemma upd_first_cells:
  "map snd (upd_first (\<lambda>c. P (fst (snd c))) (\<lambda>(a, k, _). (a, k, v)) cs) =
   upd_first (\<lambda>e. P (fst e)) (\<lambda>(k, _). (k, v)) (map snd cs)"
  "map fst (upd_first (\<lambda>c. P (fst (snd c))) (\<lambda>(a, k, _). (a, k, v)) cs) = map fst cs"
  by (induction cs) auto

lemma find_cell_exists: "find (\<lambda>c. P (fst (snd c))) cs = None \<longleftrightarrow> \<not> (\<exists>e\<in>set (map snd cs). P (fst e))"
  by (induction cs) auto

lemma items_addr: "items h p cs \<Longrightarrow> c \<in> set cs \<Longrightarrow> fst c \<noteq> NULL"
  by (induction h p cs rule: items.induct) auto

lemma lookup_cells: "lookup_first eq NULL k (map snd cs) = found_value (find (\<lambda>c. eq (fst (snd c)) k) cs)"
  by (induction cs) (auto simp: lookup_first_def found_value_def split: prod.splits)

lemma find_in_set: "find P cs = Some c \<Longrightarrow> c \<in> set cs"
  by (auto simp: find_Some_iff)

lemma items_value: "items h p cs \<Longrightarrow> c \<in> set cs \<Longrightarrow> map_option value (h (fst c)) = Some (snd (snd c))"
  by (induction h p cs rule: items.induct) auto

lemma found_addr:
  assumes "items h p cs"
  shows "(case find P cs of None \<Rightarrow> NULL | Some c \<Rightarrow> fst c) = NULL \<longleftrightarrow> find P cs = None"
  using items_addr [OF assms] find_in_set [of P cs] by (cases "find P cs") auto

lemma Count_refines: "represents cfg s kvs \<Longrightarrow> ListDictionary_Count s = Some (int (length kvs), s)"
  by (erule representsE) (auto simp: ListDictionary_Count_def count_items_eq Let_def)

lemma GetKeys_refines:
  assumes "represents cfg s kvs"
  shows "ListDictionary_GetKeys True calloc_ok s =
    (if kvs = [] \<or> calloc_ok then Some (int (length kvs), Some (map fst kvs), s) else Some (-1, None, s))"
proof -
  from assms obtain d cs where d: "dict s = Some d" "d\<lparr>head := NULL\<rparr> = cfg" "items (heap s) (head d) cs"
    "map snd cs = kvs" by (rule representsE)
  show ?thesis
  proof (cases "cs = []")
    case True
    then show ?thesis using d by (auto simp: ListDictionary_GetKeys_def Let_def)
  next
    case False
    then have "head d \<noteq> NULL" using items_not_NULL [OF d(3)] by simp
    moreover have "map (fst \<circ> snd) cs = map fst kvs" using d(4) by auto
    ultimately show ?thesis using d False
      by (auto simp: ListDictionary_GetKeys_def Let_def count_items_eq [OF d(3)] store_keys_eq [OF d(3)])
  qed
qed

lemma Add_refines:
  assumes "represents cfg s kvs" and "block \<noteq> NULL" and "heap s block = None"
  shows "\<exists>s'. ListDictionary_Add block k v s = Some (True, s') \<and> represents cfg s' (kvs @ [(k, v)]) \<and> freed s' = freed s"
proof -
  from assms(1) obtain d cs where d: "dict s = Some d" "d\<lparr>head := NULL\<rparr> = cfg" "items (heap s) (head d) cs"
    "distinct (map fst cs)" "dom (heap s) = addrs cs" "map snd cs = kvs" by (rule representsE)
  let ?h = "(heap s)(block \<mapsto> \<lparr>key = k, value = v, next = NULL\<rparr>)"
  have b: "block \<notin> addrs cs" using d(5) assms(3) by auto
  have i: "items ?h (head d) cs" using d(3) b by (simp add: items_frame)
  show ?thesis
  proof (cases "cs = []")
    case True
    let ?s = "s\<lparr>dict := Some (d\<lparr>head := block\<rparr>), heap := ?h\<rparr>"
    have "ListDictionary_Add block k v s = Some (True, ?s)"
      using d(1,3) True assms(2) by (simp add: ListDictionary_Add_def Let_def)
    moreover have "represents cfg ?s (kvs @ [(k, v)])"
      using d True assms(2) by (intro representsI [where cs = "[(block, k, v)]" and d = "d\<lparr>head := block\<rparr>"]) auto
    ultimately show ?thesis by auto
  next
    case False
    let ?a = "fst (last cs)"
    obtain it where it: "?h ?a = Some it" using items_allocated [OF i, of ?a] False by auto
    let ?s = "s\<lparr>dict := Some d, heap := ?h(?a \<mapsto> it\<lparr>next := block\<rparr>)\<rparr>"
    have "ListDictionary_Add block k v s = Some (True, ?s)"
      using d(1) items_not_NULL [OF d(3)] False assms(2) last_item_eq [OF i False] it
      by (simp add: ListDictionary_Add_def Let_def)
    moreover have "represents cfg ?s (kvs @ [(k, v)])"
    proof (rule representsI)
      show "items (heap ?s) (head d) (cs @ [(block, k, v)])"
        using items_append_cell [OF i False d(4) b assms(2) _ it] by (simp add: fun_upd_def)
      show "dom (heap ?s) = addrs (cs @ [(block, k, v)])" using d(5) False by auto
    qed (use d b in auto)
    ultimately show ?thesis by auto
  qed
qed

lemma Add_fails: "represents cfg s kvs \<Longrightarrow> ListDictionary_Add NULL k v s = Some (False, s)"
  by (erule representsE) (simp add: ListDictionary_Add_def Let_def)

lemma Contains_refines:
  assumes "represents cfg s kvs"
  shows "ListDictionary_Contains k s = Some (\<exists>e\<in>set kvs. keyEquals cfg (fst e) k, s)"
proof -
  from assms obtain d cs where d: "dict s = Some d" "d\<lparr>head := NULL\<rparr> = cfg" "items (heap s) (head d) cs"
    "map snd cs = kvs" by (rule representsE)
  let ?f = "find (\<lambda>c. keyEquals d (fst (snd c)) k) cs"
  have "(case ?f of None \<Rightarrow> NULL | Some c \<Rightarrow> fst c) \<noteq> NULL \<longleftrightarrow> ?f \<noteq> None"
    using found_addr [OF d(3)] by simp
  then show ?thesis
    using d find_cell_exists [of "\<lambda>x. keyEquals d x k" cs] find_item_eq [OF d(3), of "keyEquals d" k] head_updates(1) [OF d(2)]
    by (simp add: ListDictionary_Contains_def Let_def del: not_None_eq)
qed

lemma GetItemValue_refines:
  assumes "represents cfg s kvs"
  shows "ListDictionary_GetItemValue k s = Some (lookup_first (keyEquals cfg) NULL k kvs, s)"
proof -
  from assms obtain d cs where d: "dict s = Some d" "d\<lparr>head := NULL\<rparr> = cfg" "items (heap s) (head d) cs"
    "map snd cs = kvs" by (rule representsE)
  let ?f = "find (\<lambda>c. keyEquals d (fst (snd c)) k) cs"
  have f: "find_item (keyEquals d) (heap s) k (head d) = Some (case ?f of None \<Rightarrow> NULL | Some c \<Rightarrow> fst c)"
    by (rule find_item_eq [OF d(3)])
  have l: "lookup_first (keyEquals cfg) NULL k kvs = found_value ?f"
    unfolding d(4) [symmetric] head_updates(1) [OF d(2), symmetric] by (rule lookup_cells)
  show ?thesis
  proof (cases ?f)
    case None
    then show ?thesis using d(1) f l by (simp add: ListDictionary_GetItemValue_def Let_def found_value_def)
  next
    case (Some c)
    then have "c \<in> set cs" by (rule find_in_set)
    note c = items_addr [OF d(3) this] items_value [OF d(3) this]
    have "head d \<noteq> NULL" using items_not_NULL [OF d(3)] \<open>c \<in> set cs\<close> by auto
    then show ?thesis using d(1) f l Some c
      by (simp add: ListDictionary_GetItemValue_def Let_def found_value_def split: prod.splits)
  qed
qed


lemma SetItemValue_refines:
  assumes "represents cfg s kvs"
  shows "\<exists>s'. ListDictionary_SetItemValue k v s = Some (\<exists>e\<in>set kvs. keyEquals cfg (fst e) k, s') \<and>
    represents cfg s' (upd_first (\<lambda>e. keyEquals cfg (fst e) k) (\<lambda>(k', _). (k', v)) kvs) \<and>
    freed s' = freed s @ (if (\<exists>e\<in>set kvs. keyEquals cfg (fst e) k) \<and> valueFree cfg
      then [lookup_first (keyEquals cfg) NULL k kvs] else [])"
proof -
  from assms obtain d cs where d: "dict s = Some d" "d\<lparr>head := NULL\<rparr> = cfg" "items (heap s) (head d) cs"
    "distinct (map fst cs)" "dom (heap s) = addrs cs" "map snd cs = kvs" by (rule representsE)
  let ?P = "\<lambda>c. keyEquals d (fst (snd c)) k"
  have f: "find_item (keyEquals d) (heap s) k (head d) = Some (case find ?P cs of None \<Rightarrow> NULL | Some c \<Rightarrow> fst c)"
    by (rule find_item_eq [OF d(3)])
  note eq = head_updates [OF d(2)]
  have l: "lookup_first (keyEquals cfg) NULL k kvs = found_value (find ?P cs)"
    unfolding d(6) [symmetric] eq(1) [symmetric] by (rule lookup_cells)
  have ex: "(\<exists>e\<in>set kvs. keyEquals cfg (fst e) k) \<longleftrightarrow> find ?P cs \<noteq> None"
    using find_cell_exists [of "\<lambda>x. keyEquals d x k" cs] d(6) eq(1) by simp
  have u: "upd_first (\<lambda>e. keyEquals cfg (fst e) k) (\<lambda>(k', _). (k', v)) kvs =
      map snd (upd_first ?P (\<lambda>(a, k, _). (a, k, v)) cs)"
    using upd_first_cells(1) [of "\<lambda>x. keyEquals d x k" v cs] d(6) eq(1) by simp
  show ?thesis
  proof (cases "find ?P cs")
    case None
    then have "upd_first ?P g cs = cs" for g by (induction cs) (auto split: if_splits)
    then have "represents cfg s (upd_first (\<lambda>e. keyEquals cfg (fst e) k) (\<lambda>(k', _). (k', v)) kvs)"
      using assms u d(6) by simp
    moreover have "ListDictionary_SetItemValue k v s = Some (False, s)"
      using d(1) f None by (simp add: ListDictionary_SetItemValue_def Let_def)
    ultimately show ?thesis using ex None by auto
  next
    case (Some c)
    then have c: "c \<in> set cs" by (rule find_in_set)
    obtain it where it: "heap s (fst c) = Some it" and v: "value it = snd (snd c)"
      using items_value [OF d(3) c] by auto
    let ?s = "s\<lparr>dict := Some d, heap := (heap s)(fst c \<mapsto> it\<lparr>value := v\<rparr>),
      freed := freed s @ (if valueFree d then [value it] else [])\<rparr>"
    have "ListDictionary_SetItemValue k v s = Some (True, ?s)"
      using d(1) f Some it items_addr [OF d(3) c] items_not_NULL [OF d(3)] c
      by (auto simp: ListDictionary_SetItemValue_def Let_def)
    moreover have "represents cfg ?s (upd_first (\<lambda>e. keyEquals cfg (fst e) k) (\<lambda>(k', _). (k', v)) kvs)"
    proof (rule representsI)
      show "items (heap ?s) (head d) (upd_first ?P (\<lambda>(a, k, _). (a, k, v)) cs)"
        using items_set_value [OF d(3,4) Some it, of v] by simp
      show "dom (heap ?s) = addrs (upd_first ?P (\<lambda>(a, k, _). (a, k, v)) cs)"
      proof -
        have "addrs (upd_first ?P (\<lambda>(a, k, _). (a, k, v)) cs) = addrs cs"
          using upd_first_cells(2) [of "\<lambda>x. keyEquals d x k" v cs] by (metis set_map)
        then show ?thesis using d(5) c by auto
      qed
    qed (use d u upd_first_cells(2) [of "\<lambda>x. keyEquals d x k" v cs] in auto)
    ultimately show ?thesis using ex Some l v eq(3) by (cases c) (auto simp: found_value_def)
  qed
qed

lemma Remove_refines:
  assumes "represents cfg s kvs"
  shows "\<exists>s'. ListDictionary_Remove k s = Some (lookup_first (keyEquals cfg) NULL k kvs, s') \<and>
    represents cfg s' (del_first (\<lambda>e. keyEquals cfg (fst e) k) kvs) \<and> freed s' = freed s"
proof -
  from assms obtain d cs where d: "dict s = Some d" "d\<lparr>head := NULL\<rparr> = cfg" "items (heap s) (head d) cs"
    "distinct (map fst cs)" "dom (heap s) = addrs cs" "map snd cs = kvs" by (rule representsE)
  let ?P = "\<lambda>c. keyEquals d (fst (snd c)) k"
  note eq = head_updates [OF d(2)]
  have l: "lookup_first (keyEquals cfg) NULL k kvs = found_value (find ?P cs)"
    unfolding d(6) [symmetric] eq(1) [symmetric] by (rule lookup_cells)
  obtain h' p' where r: "remove_item (keyEquals d) k (head d) (heap s) NULL (head d) = Some (found_value (find ?P cs), p', h')"
    "items h' p' (del_first ?P cs)" "dom h' = dom (heap s) - (addrs cs - addrs (del_first ?P cs))"
    using remove_item_eq [OF d(3,4), of "keyEquals d" k] by blast
  let ?s = "s\<lparr>dict := Some (d\<lparr>head := p'\<rparr>), heap := h'\<rparr>"
  have "ListDictionary_Remove k s = Some (lookup_first (keyEquals cfg) NULL k kvs, ?s)"
    using d(1) r(1) l by (simp add: ListDictionary_Remove_def Let_def)
  moreover have "represents cfg ?s (del_first (\<lambda>e. keyEquals cfg (fst e) k) kvs)"
  proof (rule representsI)
    show "items (heap ?s) (head (d\<lparr>head := p'\<rparr>)) (del_first ?P cs)" using r(2) by simp
    show "dom (heap ?s) = addrs (del_first ?P cs)" using r(3) d(5) addrs_del_first [of ?P cs] by auto
    show "map snd (del_first ?P cs) = del_first (\<lambda>e. keyEquals cfg (fst e) k) kvs"
      using del_first_cells [of "\<lambda>x. keyEquals d x k" cs] d(6) eq(1) by simp
  qed (use d distinct_del_first in auto)
  ultimately show ?thesis by auto
qed

lemma Remove_Head_refines:
  assumes "represents cfg s kvs"
  shows "\<exists>s'. ListDictionary_Remove_Head s = Some (if kvs = [] then NULL else snd (hd kvs), s') \<and>
    represents cfg s' (tl kvs) \<and> freed s' = freed s"
proof -
  from assms obtain d cs where d: "dict s = Some d" "d\<lparr>head := NULL\<rparr> = cfg" "items (heap s) (head d) cs"
    "distinct (map fst cs)" "dom (heap s) = addrs cs" "map snd cs = kvs" by (rule representsE)
  show ?thesis
  proof (cases cs)
    case Nil
    then show ?thesis using d assms by (auto simp: ListDictionary_Remove_Head_def Let_def)
  next
    case (Cons c cs')
    from d(3) obtain k v q where c: "c = (head d, k, v)" "head d \<noteq> NULL"
      "heap s (head d) = Some \<lparr>key = k, value = v, next = q\<rparr>" "items (heap s) q cs'" unfolding Cons by (rule items_Cons)
    let ?s = "s\<lparr>dict := Some (d\<lparr>head := q\<rparr>), heap := (heap s)(head d := None)\<rparr>"
    have n: "head d \<notin> addrs cs'" using d(4) Cons c(1) by auto
    have "ListDictionary_Remove_Head s = Some (v, ?s)" using d(1) c by (simp add: ListDictionary_Remove_Head_def Let_def)
    moreover have "represents cfg ?s (tl kvs)"
    proof (rule representsI)
      show "items (heap ?s) (head (d\<lparr>head := q\<rparr>)) cs'" using c(4) n by (simp add: items_frame)
      show "dom (heap ?s) = addrs cs'" using d(5) Cons c(1) n by auto
    qed (use d Cons in auto)
    ultimately show ?thesis using d(6) Cons c(1) by auto
  qed
qed

lemma Clear_refines:
  assumes "represents cfg s kvs"
  shows "\<exists>s'. ListDictionary_Clear s = Some s' \<and> represents cfg s' [] \<and>
    freed s' = freed s @ concat (map (callbacks (keyFree cfg) (valueFree cfg)) kvs)"
proof -
  from assms obtain d cs where d: "dict s = Some d" "d\<lparr>head := NULL\<rparr> = cfg" "items (heap s) (head d) cs"
    "distinct (map fst cs)" "dom (heap s) = addrs cs" "map snd cs = kvs" by (rule representsE)
  let ?log = "freed s @ concat (map (callbacks (keyFree cfg) (valueFree cfg)) kvs)"
  let ?s = "s\<lparr>dict := Some (d\<lparr>head := NULL\<rparr>), heap := heap s |` (- addrs cs), freed := ?log\<rparr>"
  show ?thesis
  proof (cases "cs = []")
    case True
    then show ?thesis using d assms by (auto simp: ListDictionary_Clear_def Let_def)
  next
    case False
    have "ListDictionary_Clear s = Some ?s"
      using d(1,6) items_not_NULL [OF d(3)] False clear_items_eq [OF d(3,4)] head_updates(2,3) [OF d(2)]
      by (simp add: ListDictionary_Clear_def Let_def)
    moreover have "heap s |` (- addrs cs) = Map.empty"
      using d(5) by (auto simp: restrict_map_def fun_eq_iff domIff simp flip: d(5))
    then have "represents cfg ?s []"
      using d(1,2) by (intro representsI [where cs = "[]" and d = "d\<lparr>head := NULL\<rparr>"]) auto
    ultimately show ?thesis by auto
  qed
qed

interpretation ld: entry_list "represents cfg" "keyEquals cfg" NULL "\<lambda>block s. block \<noteq> NULL \<and> heap s block = None"
  ListDictionary_Add ListDictionary_GetItemValue ListDictionary_SetItemValue ListDictionary_Contains
  ListDictionary_Remove for cfg
proof (unfold_locales, goal_cases)
  case (1 s kvs m k v)
  then show ?case using Add_refines [of cfg s kvs m k v] by blast
next
  case (2 s kvs k)
  then show ?case by (rule GetItemValue_refines)
next
  case (3 s kvs k v)
  then show ?case using SetItemValue_refines [of cfg s kvs k v] by blast
next
  case (4 s kvs k)
  then show ?case by (rule Contains_refines)
next
  case (5 s kvs k)
  then show ?case using Remove_refines [of cfg s kvs k] by blast
qed

section \<open>Properties\<close>

lemma New_represents:
  assumes "ListDictionary_New calloc_ok block sem_ok nproc sync = Some d"
  shows "represents d \<lparr>dict = Some d, heap = Map.empty, freed = []\<rparr> []" and "keyEquals d = default_equal_function"
  using assms by (auto simp: ListDictionary_New_def represents_def Let_def split: if_splits prod.splits)

lemma New_succeeds:
  "block \<noteq> NULL \<Longrightarrow> \<exists>d. ListDictionary_New True block True nproc sync = Some d \<and> keyEquals d = default_equal_function"
  by (simp add: ListDictionary_New_def InitializeCriticalSectionAndSpinCount_def InitializeCriticalSectionEx_def Let_def
      split: prod.splits)

definition demo_dict :: wListDictionary where
  "demo_dict = the (ListDictionary_New True 8 True 4 True)"

definition demo_state :: dstate where
  "demo_state = \<lparr>dict = Some (demo_dict\<lparr>head := 16\<rparr>),
     heap = [16 \<mapsto> \<lparr>key = 5, value = 50, next = 32\<rparr>, 32 \<mapsto> \<lparr>key = 6, value = 60, next = NULL\<rparr>], freed = []\<rparr>"

lemma demo_represents: "represents demo_dict demo_state [(5, 50), (6, 60)]"
proof -
  have "demo_dict\<lparr>head := NULL\<rparr> = demo_dict"
    by (simp add: demo_dict_def ListDictionary_New_def InitializeCriticalSectionAndSpinCount_def
        InitializeCriticalSectionEx_def Let_def split: prod.splits)
  then show ?thesis
    by (intro representsI [where cs = "[(16, 5, 50), (32, 6, 60)]" and d = "demo_dict\<lparr>head := 16\<rparr>"])
      (auto simp: demo_state_def)
qed

lemma demo_equals: "keyEquals demo_dict = default_equal_function"
  using New_succeeds [of 8 4 True] by (auto simp: demo_dict_def)

text \<open>
  \<open>ListDictionary_Add\<close> on a dictionary that holds the entries \<open>kvs\<close>: with a fresh block from \<open>malloc\<close> it
  succeeds and the dictionary holds \<open>kvs\<close> followed by the new entry; when \<open>malloc\<close> fails it returns
  FALSE and nothing changes. In both cases the lock is left as it was found.
\<close>

theorem ListDictionary_Add_appends:
  assumes "represents cfg s kvs" and "block \<noteq> NULL" and "heap s block = None"
  shows "(\<exists>s'. ListDictionary_Add block k v s = Some (True, s') \<and> represents cfg s' (kvs @ [(k, v)]) \<and> freed s' = freed s) \<and>
    ListDictionary_Add NULL k v s = Some (False, s)"
  using Add_refines [OF assms, of k v] Add_fails [OF assms(1)] by blast

theorem ListDictionary_Add_appends_witness:
  "(\<exists>s'. ListDictionary_Add 48 7 70 demo_state = Some (True, s') \<and>
      represents demo_dict s' ([(5, 50), (6, 60)] @ [(7, 70)]) \<and> freed s' = freed demo_state) \<and>
    ListDictionary_Add NULL 7 70 demo_state = Some (False, demo_state)"
  by (rule ListDictionary_Add_appends [OF demo_represents]) (simp_all add: demo_state_def)

text \<open>
  \<open>ListDictionary_Remove\<close> unlinks and frees the first item whose key matches, returns its value and
  leaves every other entry, in its order; without a match it returns NULL and keeps all entries. No
  object callback is called, and the heap holds exactly the items that remain.
\<close>

theorem ListDictionary_Remove_first:
  assumes "represents cfg s kvs"
  shows "\<exists>s'. ListDictionary_Remove k s = Some (lookup_first (keyEquals cfg) NULL k kvs, s') \<and>
    represents cfg s' (del_first (\<lambda>e. keyEquals cfg (fst e) k) kvs) \<and> freed s' = freed s"
  by (rule Remove_refines [OF assms])

theorem ListDictionary_Remove_first_witness:
  "\<exists>s'. ListDictionary_Remove 6 demo_state = Some (60, s') \<and> represents demo_dict s' [(5, 50)] \<and> freed s' = []"
  using ListDictionary_Remove_first [OF demo_represents, of 6]
  by (simp add: demo_equals default_equal_function_def lookup_first_def demo_state_def)



text \<open>
  C16: \<open>ListDictionary_Clear\<close> frees every item and calls the free callbacks of keys and values once for each
  entry, in order; \<open>ListDictionary_Free\<close> does the same and destroys the critical section, so that no
  item of the dictionary stays allocated.
\<close>

theorem ListDictionary_Free_releases:
  assumes "represents cfg s kvs"
  shows "(\<exists>s'. ListDictionary_Clear s = Some s' \<and> represents cfg s' [] \<and>
      freed s' = freed s @ concat (map (callbacks (keyFree cfg) (valueFree cfg)) kvs)) \<and>
    (\<exists>s'. ListDictionary_Free s = Some (s', if LockSemaphore (lock cfg) = NULL then None else Some (LockSemaphore (lock cfg))) \<and>
      dict s' = None \<and> heap s' = Map.empty \<and>
      freed s' = freed s @ concat (map (callbacks (keyFree cfg) (valueFree cfg)) kvs))"
proof -
  obtain s' where s': "ListDictionary_Clear s = Some s'" "represents cfg s' []"
    "freed s' = freed s @ concat (map (callbacks (keyFree cfg) (valueFree cfg)) kvs)" using Clear_refines [OF assms] by blast
  obtain d' where d': "dict s' = Some d'" "d'\<lparr>head := NULL\<rparr> = cfg" "heap s' = Map.empty"
    using s'(2) by (auto elim!: representsE)
  obtain d where "dict s = Some d" using assms by (rule representsE)
  then have "ListDictionary_Free s = Some (s'\<lparr>dict := None\<rparr>, snd (DeleteCriticalSection (lock d')))"
    using s'(1) d'(1) by (simp add: ListDictionary_Free_def)
  moreover have "lock d' = lock cfg" using d'(2) by auto
  ultimately show ?thesis using s' d' by (auto simp: DeleteCriticalSection_def Let_def)
qed

theorem ListDictionary_Free_releases_witness:
  "\<exists>s'. ListDictionary_Free demo_state =
      Some (s', if LockSemaphore (lock demo_dict) = NULL then None else Some (LockSemaphore (lock demo_dict))) \<and>
    dict s' = None \<and> heap s' = Map.empty"
  using ListDictionary_Free_releases [OF demo_represents] by blast

text \<open>
  \<open>ListDictionary_Count\<close> returns the number of entries and \<open>ListDictionary_GetKeys\<close> the array of their
  keys in insertion order, with the array allocated for exactly that number; an allocation failure
  gives -1 and stores nothing, and the dictionary and its lock are unchanged.
\<close>

theorem ListDictionary_GetKeys_lists:
  assumes "represents cfg s kvs"
  shows "ListDictionary_Count s = Some (int (length kvs), s) \<and>
    ListDictionary_GetKeys True calloc_ok s =
      (if kvs = [] \<or> calloc_ok then Some (int (length kvs), Some (map fst kvs), s) else Some (-1, None, s))"
  using Count_refines [OF assms] GetKeys_refines [OF assms] by blast

theorem ListDictionary_GetKeys_lists_witness:
  "ListDictionary_Count demo_state = Some (2, demo_state) \<and>
   ListDictionary_GetKeys True True demo_state = Some (2, Some [5, 6], demo_state)"
  using ListDictionary_GetKeys_lists [OF demo_represents, of True] by simp

end
