(* ===== verification/Interlocked.thy ===== *)
theory Interlocked
  imports Uzi_Prelude "HOL-Library.Monad_Syntax"
begin

text \<open>
  src/libuzi/interlocked.c: atomic operations, the lock-free singly linked list and the linked lists
  without locking. The non-Windows branches of the code are modelled. Reading or writing through an
  address that is not allocated is undefined: the operation is \<open>None\<close>.
\<close>

section \<open>Atomic operations\<close>

text \<open>
  An operation on a memory cell maps its value to the returned value and the new value. The compiler
  builtins are atomic, so a function of the cell is their model.
\<close>

definition InterlockedIncrement :: "LONG \<Rightarrow> LONG \<times> LONG" where
  "InterlockedIncrement Addend = (Addend + 1, Addend + 1)"

definition InterlockedDecrement :: "LONG \<Rightarrow> LONG \<times> LONG" where
  "InterlockedDecrement Addend = (Addend - 1, Addend - 1)"

definition InterlockedExchangeAdd :: "LONG \<Rightarrow> LONG \<Rightarrow> LONG \<times> LONG" where
  "InterlockedExchangeAdd Addend Value = (Addend, Addend + Value)"

definition InterlockedCompareExchange :: "LONG \<Rightarrow> LONG \<Rightarrow> LONG \<Rightarrow> LONG \<times> LONG" where
  "InterlockedCompareExchange Destination Exchange Comperand =
     (Destination, if Destination = Comperand then Exchange else Destination)"

definition InterlockedCompareExchangePointer :: "addr \<Rightarrow> addr \<Rightarrow> addr \<Rightarrow> addr \<times> addr" where
  "InterlockedCompareExchangePointer Destination Exchange Comperand =
     (Destination, if Destination = Comperand then Exchange else Destination)"

definition InterlockedCompareExchange64 :: "u64 \<Rightarrow> u64 \<Rightarrow> u64 \<Rightarrow> u64 \<times> u64" where
  "InterlockedCompareExchange64 Destination Exchange Comperand =
     (Destination, if Destination = Comperand then Exchange else Destination)"

text \<open>
  \<open>InterlockedExchange\<close> reads the target, then compares and swaps against what it read: other threads
  may change the target in between. \<open>first\<close> is the value read, \<open>Target\<close> the value at the swap.
\<close>

definition InterlockedExchange :: "LONG \<Rightarrow> LONG \<Rightarrow> LONG \<Rightarrow> LONG \<times> LONG" where
  "InterlockedExchange first Target Value = InterlockedCompareExchange Target Value first"

section \<open>Lock-free singly linked list\<close>

text \<open>
  The header is a union of the 64-bit integer \<open>Alignment\<close> and a structure of the first entry, the depth
  and a sequence number. With 32-bit pointers \<open>Alignment\<close> covers all three fields; with 64-bit
  pointers it covers the pointer only, so a compare-and-swap leaves the other fields alone.
\<close>

datatype data_model = ILP32 | LP64

record SLIST_HEADER =
  Next :: addr
  Depth :: u16
  Sequence :: u16

type_synonym entry_heap = "addr \<rightharpoonup> addr"

definition same_alignment :: "data_model \<Rightarrow> SLIST_HEADER \<Rightarrow> SLIST_HEADER \<Rightarrow> bool" where
  "same_alignment dm a b = (case dm of ILP32 \<Rightarrow> a = b | LP64 \<Rightarrow> Next a = Next b)"

definition set_alignment :: "data_model \<Rightarrow> SLIST_HEADER \<Rightarrow> SLIST_HEADER \<Rightarrow> SLIST_HEADER" where
  "set_alignment dm hdr new = (case dm of ILP32 \<Rightarrow> new | LP64 \<Rightarrow> hdr\<lparr>Next := Next new\<rparr>)"

definition InitializeSListHead :: "data_model \<Rightarrow> SLIST_HEADER \<Rightarrow> SLIST_HEADER" where
  "InitializeSListHead dm hdr = set_alignment dm hdr \<lparr>Next = NULL, Depth = 0, Sequence = 0\<rparr>"

definition QueryDepthSList :: "SLIST_HEADER \<Rightarrow> u16" where
  "QueryDepthSList hdr = Depth hdr"

text \<open>
  The loops retry until the compare-and-swap succeeds. \<open>env\<close> lists what the other threads do to the heap
  and the header between the read and the swap, iteration by iteration; when it is used up there is
  no more interference.
\<close>

type_synonym slist = "entry_heap \<times> SLIST_HEADER"

fun InterlockedPushEntrySList ::
  "data_model \<Rightarrow> (slist \<Rightarrow> slist) list \<Rightarrow> addr \<Rightarrow> slist \<Rightarrow> (addr \<times> slist) option" where
  "InterlockedPushEntrySList dm env ListEntry (h, hdr) =
     (if h ListEntry = None then None
      else
        (let old = hdr;
             h1 = h(ListEntry \<mapsto> Next old);
             newHeader = \<lparr>Next = ListEntry, Depth = Depth old + 1, Sequence = Sequence old + 1\<rparr> in
         case env of
           [] \<Rightarrow> Some (Next old, (h1, set_alignment dm hdr newHeader))
         | f # env' \<Rightarrow>
             (case f (h1, hdr) of (h2, cur) \<Rightarrow>
                if same_alignment dm cur old then Some (Next old, (h2, set_alignment dm cur newHeader))
                else InterlockedPushEntrySList dm env' ListEntry (h2, cur))))"

fun InterlockedPopEntrySList ::
  "data_model \<Rightarrow> (slist \<Rightarrow> slist) list \<Rightarrow> slist \<Rightarrow> (addr \<times> slist) option" where
  "InterlockedPopEntrySList dm env (h, hdr) =
     (let old = hdr; entry = Next old in
      if entry = NULL then Some (NULL, (h, hdr))
      else do {
        nxt \<leftarrow> h entry;
        let newHeader = \<lparr>Next = nxt, Depth = Depth old - 1, Sequence = Sequence old + 1\<rparr>;
        (case env of
           [] \<Rightarrow> Some (entry, (h, set_alignment dm hdr newHeader))
         | f # env' \<Rightarrow>
             (case f (h, hdr) of (h2, cur) \<Rightarrow>
                if same_alignment dm cur old then Some (entry, (h2, set_alignment dm cur newHeader))
                else InterlockedPopEntrySList dm env' (h2, cur)))
      })"

fun flush_loop :: "data_model \<Rightarrow> (slist \<Rightarrow> slist) list \<Rightarrow> slist \<Rightarrow> addr \<times> slist" where
  "flush_loop dm env (h, hdr) =
     (let old = hdr; newHeader = \<lparr>Next = NULL, Depth = 0, Sequence = Sequence old + 1\<rparr> in
      case env of
        [] \<Rightarrow> (Next old, (h, set_alignment dm hdr newHeader))
      | f # env' \<Rightarrow>
          (case f (h, hdr) of (h2, cur) \<Rightarrow>
             if same_alignment dm cur old then (Next old, (h2, set_alignment dm cur newHeader))
             else flush_loop dm env' (h2, cur)))"

definition InterlockedFlushSList :: "data_model \<Rightarrow> (slist \<Rightarrow> slist) list \<Rightarrow> slist \<Rightarrow> addr \<times> slist" where
  "InterlockedFlushSList dm env s =
     (if QueryDepthSList (snd s) = 0 then (NULL, s) else flush_loop dm env s)"

definition InterlockedPushListSListEx :: "addr \<Rightarrow> addr \<Rightarrow> ULONG \<Rightarrow> slist \<Rightarrow> addr \<times> slist" where
  "InterlockedPushListSListEx List ListEnd Count s = (NULL, s)"

section \<open>Doubly linked list\<close>

record LIST_ENTRY =
  Flink :: addr
  Blink :: addr

type_synonym link_heap = "addr \<rightharpoonup> LIST_ENTRY"

definition get_Flink :: "link_heap \<Rightarrow> addr \<Rightarrow> addr option" where
  "get_Flink h a = map_option Flink (h a)"

definition get_Blink :: "link_heap \<Rightarrow> addr \<Rightarrow> addr option" where
  "get_Blink h a = map_option Blink (h a)"

definition set_Flink :: "addr \<Rightarrow> addr \<Rightarrow> link_heap \<Rightarrow> link_heap option" where
  "set_Flink a v h = map_option (\<lambda>e. h(a \<mapsto> e\<lparr>Flink := v\<rparr>)) (h a)"

definition set_Blink :: "addr \<Rightarrow> addr \<Rightarrow> link_heap \<Rightarrow> link_heap option" where
  "set_Blink a v h = map_option (\<lambda>e. h(a \<mapsto> e\<lparr>Blink := v\<rparr>)) (h a)"

definition InitializeListHead :: "addr \<Rightarrow> link_heap \<Rightarrow> link_heap option" where
  "InitializeListHead ListHead h = do { h1 \<leftarrow> set_Blink ListHead ListHead h; set_Flink ListHead ListHead h1 }"

definition IsListEmpty :: "addr \<Rightarrow> link_heap \<Rightarrow> bool option" where
  "IsListEmpty ListHead h = map_option (\<lambda>f. f = ListHead) (get_Flink h ListHead)"

definition RemoveEntryList :: "addr \<Rightarrow> link_heap \<Rightarrow> (bool \<times> link_heap) option" where
  "RemoveEntryList Entry h =
     do {
       OldFlink \<leftarrow> get_Flink h Entry;
       OldBlink \<leftarrow> get_Blink h Entry;
       h1 \<leftarrow> set_Blink OldFlink OldBlink h;
       h2 \<leftarrow> set_Flink OldBlink OldFlink h1;
       Some (OldFlink = OldBlink, h2)
     }"

definition InsertHeadList :: "addr \<Rightarrow> addr \<Rightarrow> link_heap \<Rightarrow> link_heap option" where
  "InsertHeadList ListHead Entry h =
     do {
       OldFlink \<leftarrow> get_Flink h ListHead;
       h1 \<leftarrow> set_Flink Entry OldFlink h;
       h2 \<leftarrow> set_Blink Entry ListHead h1;
       h3 \<leftarrow> set_Blink OldFlink Entry h2;
       set_Flink ListHead Entry h3
     }"

definition RemoveHeadList :: "addr \<Rightarrow> link_heap \<Rightarrow> (addr \<times> link_heap) option" where
  "RemoveHeadList ListHead h =
     do {
       Entry \<leftarrow> get_Flink h ListHead;
       Flink' \<leftarrow> get_Flink h Entry;
       h1 \<leftarrow> set_Flink ListHead Flink' h;
       h2 \<leftarrow> set_Blink Flink' ListHead h1;
       Some (Entry, h2)
     }"

definition InsertTailList :: "addr \<Rightarrow> addr \<Rightarrow> link_heap \<Rightarrow> link_heap option" where
  "InsertTailList ListHead Entry h =
     do {
       OldBlink \<leftarrow> get_Blink h ListHead;
       h1 \<leftarrow> set_Flink Entry ListHead h;
       h2 \<leftarrow> set_Blink Entry OldBlink h1;
       h3 \<leftarrow> set_Flink OldBlink Entry h2;
       set_Blink ListHead Entry h3
     }"

definition RemoveTailList :: "addr \<Rightarrow> link_heap \<Rightarrow> (addr \<times> link_heap) option" where
  "RemoveTailList ListHead h =
     do {
       Entry \<leftarrow> get_Blink h ListHead;
       Blink' \<leftarrow> get_Blink h Entry;
       h1 \<leftarrow> set_Blink ListHead Blink' h;
       h2 \<leftarrow> set_Flink Blink' ListHead h1;
       Some (Entry, h2)
     }"

definition AppendTailList :: "addr \<Rightarrow> addr \<Rightarrow> link_heap \<Rightarrow> link_heap option" where
  "AppendTailList ListHead ListToAppend h =
     do {
       ListEnd \<leftarrow> get_Blink h ListHead;
       b \<leftarrow> get_Blink h ListHead;
       h1 \<leftarrow> set_Flink b ListToAppend h;
       b' \<leftarrow> get_Blink h1 ListToAppend;
       h2 \<leftarrow> set_Blink ListHead b' h1;
       b'' \<leftarrow> get_Blink h2 ListToAppend;
       h3 \<leftarrow> set_Flink b'' ListHead h2;
       set_Blink ListToAppend ListEnd h3
     }"

section \<open>Singly linked list\<close>

text \<open>The heap maps the address of an entry to its field \<open>Next\<close>.\<close>

definition PushEntryList :: "addr \<Rightarrow> addr \<Rightarrow> entry_heap \<Rightarrow> entry_heap option" where
  "PushEntryList ListHead Entry h =
     do {
       n \<leftarrow> h ListHead;
       _ \<leftarrow> h Entry;
       let h1 = h(Entry \<mapsto> n);
       Some (h1(ListHead \<mapsto> Entry))
     }"

definition PopEntryList :: "addr \<Rightarrow> entry_heap \<Rightarrow> (addr \<times> entry_heap) option" where
  "PopEntryList ListHead h =
     do {
       FirstEntry \<leftarrow> h ListHead;
       (if FirstEntry \<noteq> NULL then do { n \<leftarrow> h FirstEntry; Some (FirstEntry, h(ListHead \<mapsto> n)) }
        else Some (FirstEntry, h))
     }"

end
