(* ===== verification/Interlocked_Lists.thy ===== *)
theory Interlocked_Lists
  imports Interlocked
begin

text \<open>
  The doubly linked lists of src/libuzi/interlocked.c refine sequences. A list is a ring of entries through its
  head; the locale \<open>deque\<close> states the contract of a double-ended queue, derives its queue and stack
  orders, and is interpreted on the operations.
\<close>

section \<open>Rings\<close>

text \<open>\<open>links F B zs\<close>: successive elements of \<open>zs\<close> point to each other.\<close>

fun links :: "(addr \<rightharpoonup> addr) \<Rightarrow> (addr \<rightharpoonup> addr) \<Rightarrow> addr list \<Rightarrow> bool" where
  "links F B (x # y # zs) = (F x = Some y \<and> B y = Some x \<and> links F B (y # zs))"
| "links F B _ = True"

definition ring :: "link_heap \<Rightarrow> addr \<Rightarrow> addr list \<Rightarrow> bool" where
  "ring h head xs \<longleftrightarrow> distinct (head # xs) \<and> links (get_Flink h) (get_Blink h) (head # xs @ [head])"

lemma links_append: "links F B (xs @ y # ys) \<longleftrightarrow> links F B (xs @ [y]) \<and> links F B (y # ys)"
proof (induction xs)
  case (Cons x xs)
  then show ?case by (cases xs) auto
qed simp

lemma links_join: "links F B (xs @ [x]) \<Longrightarrow> F x = Some y \<Longrightarrow> B y = Some x \<Longrightarrow> links F B (y # ys) \<Longrightarrow> links F B (xs @ x # y # ys)"
  by (subst links_append) simp

lemma links_Flink [heap_frame]: "a \<notin> set (butlast zs) \<Longrightarrow> links (F(a \<mapsto> v)) B zs = links F B zs"
  by (induction F B zs rule: links.induct) (auto split: if_splits)

lemma links_Blink [heap_frame]: "a \<notin> set (tl zs) \<Longrightarrow> links F (B(a \<mapsto> v)) zs = links F B zs"
  by (induction F B zs rule: links.induct) auto

definition alloc :: "link_heap \<Rightarrow> addr \<Rightarrow> bool" where
  "alloc h a \<longleftrightarrow> h a \<noteq> None"

definition uF :: "addr \<Rightarrow> addr \<Rightarrow> link_heap \<Rightarrow> link_heap" where
  "uF a v h = h(a := map_option (Flink_update (\<lambda>_. v)) (h a))"

definition uB :: "addr \<Rightarrow> addr \<Rightarrow> link_heap \<Rightarrow> link_heap" where
  "uB a v h = h(a := map_option (Blink_update (\<lambda>_. v)) (h a))"

lemma link_updates [simp]:
  "alloc h a \<Longrightarrow> set_Flink a v h = Some (uF a v h)" "alloc h a \<Longrightarrow> set_Blink a v h = Some (uB a v h)"
  "alloc h a \<Longrightarrow> get_Flink (uF a v h) = (get_Flink h)(a \<mapsto> v)" "get_Blink (uF a v h) = get_Blink h"
  "alloc h a \<Longrightarrow> get_Blink (uB a v h) = (get_Blink h)(a \<mapsto> v)" "get_Flink (uB a v h) = get_Flink h"
  "alloc (uF a v h) b = alloc h b" "alloc (uB a v h) b = alloc h b"
  by (cases "h a"; auto simp: alloc_def uF_def uB_def set_Flink_def set_Blink_def get_Flink_def get_Blink_def fun_eq_iff)+

lemma alloc_get: "alloc h a \<longleftrightarrow> get_Flink h a \<noteq> None" 
  by (simp add: alloc_def get_Flink_def)

lemma links_allocated: "links (get_Flink h) B zs \<Longrightarrow> x \<in> set (butlast zs) \<Longrightarrow> alloc h x"
  by (induction "get_Flink h" B zs rule: links.induct) (auto simp: alloc_get split: if_splits)

lemma ring_allocated: "ring h head xs \<Longrightarrow> x \<in> insert head (set xs) \<Longrightarrow> alloc h x"
  using links_allocated [of h _ "head # xs @ [head]"] by (auto simp: ring_def)

lemma ring_first: "ring h head xs \<Longrightarrow> get_Flink h head = Some (hd (xs @ [head]))"
  by (cases xs) (auto simp: ring_def)

lemma ring_last: "ring h head xs \<Longrightarrow> get_Blink h head = Some (last (head # xs))"
proof (cases xs rule: rev_cases)
  case (snoc ys y)
  assume "ring h head xs"
  then show ?thesis using links_append [of _ _ "head # ys" y "[head]"] by (simp add: ring_def snoc)
qed (simp add: ring_def)

lemma InitializeListHead_ring:
  "alloc h head \<Longrightarrow> \<exists>h'. InitializeListHead head h = Some h' \<and> ring h' head []"
  by (simp add: InitializeListHead_def ring_def)

lemma IsListEmpty_ring: "ring h head xs \<Longrightarrow> IsListEmpty head h = Some (xs = [])"
  by (cases xs) (auto simp: IsListEmpty_def ring_first, auto simp: ring_def)

text \<open>The places where a ring is cut: the last element before and the first element behind.\<close>

lemma ring_split:
  assumes "distinct (head # xs @ ys)" and "x = last (head # xs)" and "y = hd (ys @ [head])"
  obtains us vs where "head # xs = us @ [x]" "ys @ [head] = y # vs" "x \<notin> set us" "y \<notin> set xs" "x \<notin> set ys" "y \<notin> set vs"
proof -
  obtain us where us: "head # xs = us @ [x]" using assms(2) by (metis append_butlast_last_id list.distinct(1))
  obtain vs where vs: "ys @ [head] = y # vs" using assms(3) by (cases "ys @ [head]") auto
  have "x \<in> insert head (set xs)" using assms(2) by (auto simp: last_in_set)
  moreover have "y \<in> insert head (set ys)" using assms(3) by (cases ys) auto
  moreover have "distinct (us @ [x])" "distinct (y # vs)" unfolding us [symmetric] vs [symmetric] using assms(1) by auto
  ultimately show thesis using that [OF us vs] assms(1) by auto
qed

lemma ring_cut:
  assumes "ring h head (xs @ e # ys)" and "x = last (head # xs)" and "y = hd (ys @ [head])"
    and h': "get_Flink h' = (get_Flink h)(x \<mapsto> y)" "get_Blink h' = (get_Blink h)(y \<mapsto> x)"
  shows "ring h' head (xs @ ys)"
proof -
  have d: "distinct (head # xs @ ys)" using assms(1) by (auto simp: ring_def)
  obtain us vs where s: "head # xs = us @ [x]" "ys @ [head] = y # vs" "x \<notin> set us" "y \<notin> set xs" "x \<notin> set ys" "y \<notin> set vs"
    using ring_split [OF d assms(2,3)] .
  have "head # (xs @ e # ys) @ [head] = us @ x # e # y # vs" using s(1,2) by (metis append.assoc append_Cons append_Nil)
  then have "links (get_Flink h) (get_Blink h) (us @ x # e # y # vs)" using assms(1) by (simp add: ring_def)
  then have l: "links (get_Flink h) (get_Blink h) (us @ [x])" "links (get_Flink h) (get_Blink h) (y # vs)"
    using links_append [of _ _ us x "e # y # vs"] by simp_all
  have t: "tl (us @ [x]) = xs" "butlast (y # vs) = ys" using s(1,2) by (metis list.sel(3), metis butlast_snoc)
  have n: "x \<notin> set (butlast (us @ [x]))" "y \<notin> set (tl (us @ [x]))" "x \<notin> set (butlast (y # vs))" "y \<notin> set (tl (y # vs))"
    unfolding t using s(3-6) by simp_all
  have "links (get_Flink h') (get_Blink h') (us @ [x])" "links (get_Flink h') (get_Blink h') (y # vs)"
    unfolding h' links_Flink [OF n(1)] links_Flink [OF n(3)] links_Blink [OF n(2)] links_Blink [OF n(4)] by (rule l)+
  then have "links (get_Flink h') (get_Blink h') (us @ x # y # vs)" using h' by (intro links_join) auto
  moreover have "us @ x # y # vs = head # (xs @ ys) @ [head]" using s(1,2) by (metis append.assoc append_Cons append_Nil)
  ultimately show ?thesis using d by (simp add: ring_def)
qed

lemma ring_splice:
  assumes "ring h head (xs @ ys)" and "x = last (head # xs)" and "y = hd (ys @ [head])" and "e \<notin> insert head (set (xs @ ys))"
    and h': "get_Flink h' = (get_Flink h)(e \<mapsto> y, x \<mapsto> e)" "get_Blink h' = (get_Blink h)(e \<mapsto> x, y \<mapsto> e)"
  shows "ring h' head (xs @ e # ys)"
proof -
  have d: "distinct (head # xs @ ys)" using assms(1) by (auto simp: ring_def)
  obtain us vs where s: "head # xs = us @ [x]" "ys @ [head] = y # vs" "x \<notin> set us" "y \<notin> set xs" "x \<notin> set ys" "y \<notin> set vs"
    using ring_split [OF d assms(2,3)] .
  have "head # (xs @ ys) @ [head] = us @ x # y # vs" using s(1,2) by (metis append.assoc append_Cons append_Nil)
  then have "links (get_Flink h) (get_Blink h) (us @ x # y # vs)" using assms(1) by (simp add: ring_def)
  then have l: "links (get_Flink h) (get_Blink h) (us @ [x])" "links (get_Flink h) (get_Blink h) (y # vs)"
    using links_append [of _ _ us x "y # vs"] by simp_all
  have t: "tl (us @ [x]) = xs" "butlast (y # vs) = ys" using s(1,2) by (metis list.sel(3), metis butlast_snoc)
  have "set us \<subseteq> insert head (set xs)" "x \<in> insert head (set xs)" using arg_cong [OF s(1), of set] by auto
  moreover have "set vs \<subseteq> insert head (set ys)" "y \<in> insert head (set ys)" using arg_cong [OF s(2), of set] by auto
  ultimately have e: "e \<notin> set us" "e \<notin> set xs" "e \<notin> set ys" "e \<notin> set vs" "e \<noteq> x" "e \<noteq> y" using assms(4) by auto
  have n: "x \<notin> set (butlast (us @ [x]))" "y \<notin> set (tl (us @ [x]))" "x \<notin> set (butlast (y # vs))" "y \<notin> set (tl (y # vs))"
    "e \<notin> set (butlast (us @ [x]))" "e \<notin> set (tl (us @ [x]))" "e \<notin> set (butlast (y # vs))" "e \<notin> set (tl (y # vs))"
    unfolding t using s(3-6) e by simp_all
  have "links (get_Flink h') (get_Blink h') (us @ [x])" "links (get_Flink h') (get_Blink h') (y # vs)"
    unfolding h' links_Flink [OF n(1)] links_Flink [OF n(3)] links_Blink [OF n(2)] links_Blink [OF n(4)]
      links_Flink [OF n(5)] links_Flink [OF n(7)] links_Blink [OF n(6)] links_Blink [OF n(8)] by (rule l)+
  then have "links (get_Flink h') (get_Blink h') (us @ x # e # y # vs)"
    using h' e by (intro links_join) auto
  moreover have "us @ x # e # y # vs = head # (xs @ e # ys) @ [head]" using s(1,2) by (metis append.assoc append_Cons append_Nil)
  ultimately show ?thesis using d assms(4) by (simp add: ring_def)
qed

section \<open>The operations on rings\<close>

lemma InsertHeadList_ring:
  assumes "ring h head xs" and "e \<notin> insert head (set xs)" and "alloc h e"
  shows "\<exists>h'. InsertHeadList head e h = Some h' \<and> ring h' head (e # xs) \<and> (\<forall>a. alloc h' a = alloc h a)"
proof -
  let ?y = "hd (xs @ [head])"
  have al: "alloc h head" "alloc h ?y" using ring_allocated [OF assms(1)] by (cases xs; simp)+
  let ?h = "uF head e (uB ?y e (uB e head (uF e ?y h)))"
  have "InsertHeadList head e h = Some ?h" using al assms(3) ring_first [OF assms(1)] by (simp add: InsertHeadList_def)
  moreover have "ring ?h head ([] @ e # xs)"
    by (rule ring_splice [where h = h]) (use assms al in \<open>auto simp: fun_upd_twist\<close>)
  ultimately show ?thesis by auto
qed

lemma InsertTailList_ring:
  assumes "ring h head xs" and "e \<notin> insert head (set xs)" and "alloc h e"
  shows "\<exists>h'. InsertTailList head e h = Some h' \<and> ring h' head (xs @ [e]) \<and> (\<forall>a. alloc h' a = alloc h a)"
proof -
  let ?x = "last (head # xs)"
  have x: "?x \<in> insert head (set xs)" by (auto simp: last_in_set)
  have al: "alloc h head" "alloc h ?x" using ring_allocated [OF assms(1)] x by blast+
  let ?h = "uB head e (uF ?x e (uB e ?x (uF e head h)))"
  have "InsertTailList head e h = Some ?h" using al assms(3) ring_last [OF assms(1)] by (simp add: InsertTailList_def)
  moreover have "ring ?h head (xs @ e # [])"
    by (rule ring_splice [where h = h]) (use assms al x in \<open>auto simp: fun_upd_twist\<close>)
  ultimately show ?thesis by auto
qed

lemma RemoveEntryList_ring:
  assumes "ring h head (xs @ e # ys)"
  shows "\<exists>h'. RemoveEntryList e h = Some (xs @ ys = [], h') \<and> ring h' head (xs @ ys) \<and> (\<forall>a. alloc h' a = alloc h a)"
proof -
  let ?x = "last (head # xs)" and ?y = "hd (ys @ [head])"
  have d: "distinct (head # xs @ e # ys)" using assms by (simp add: ring_def)
  then have d': "distinct (head # xs @ ys)" by auto
  obtain us vs where s: "head # xs = us @ [?x]" "ys @ [head] = ?y # vs"
    "?x \<notin> set us" "?y \<notin> set xs" "?x \<notin> set ys" "?y \<notin> set vs" using ring_split [OF d' refl refl] .
  have "head # (xs @ e # ys) @ [head] = us @ ?x # e # ?y # vs" using s(1,2) by (metis append.assoc append_Cons append_Nil)
  then have "links (get_Flink h) (get_Blink h) (us @ ?x # e # ?y # vs)" using assms by (simp add: ring_def)
  then have g: "get_Flink h e = Some ?y" "get_Blink h e = Some ?x" using links_append [of _ _ us ?x "e # ?y # vs"] by simp_all
  have al: "alloc h ?x" "alloc h ?y"
    using ring_allocated [OF assms] arg_cong [OF s(1), of set] arg_cong [OF s(2), of set] by auto
  let ?h = "uF ?x ?y (uB ?y ?x h)"
  have "?y = ?x \<longleftrightarrow> xs @ ys = []"
    using d last_in_set [of xs] by (cases ys; cases xs rule: rev_cases) auto
  then have "RemoveEntryList e h = Some (xs @ ys = [], ?h)" using al g by (simp add: RemoveEntryList_def)
  moreover have "ring ?h head (xs @ ys)" by (rule ring_cut [where h = h]) (use assms al in \<open>simp_all\<close>)
  ultimately show ?thesis by auto
qed

lemma RemoveHeadList_ring:
  assumes "ring h head xs"
  shows "\<exists>h'. RemoveHeadList head h = Some (hd (xs @ [head]), h') \<and> ring h' head (tl xs) \<and> (\<forall>a. alloc h' a = alloc h a)"
proof (cases xs)
  case Nil
  then show ?thesis using assms ring_allocated [OF assms, of head] ring_first [OF assms]
    by (simp add: RemoveHeadList_def ring_def)
next
  case (Cons e ys)
  let ?y = "hd (ys @ [head])"
  have g: "get_Flink h e = Some ?y" using assms Cons by (cases ys) (simp_all add: ring_def)
  have al: "alloc h head" "alloc h ?y" using ring_allocated [OF assms] Cons by (cases ys; simp)+
  let ?h = "uB ?y head (uF head ?y h)"
  have "RemoveHeadList head h = Some (e, ?h)" using al g ring_first [OF assms] Cons by (simp add: RemoveHeadList_def)
  moreover have "ring ?h head ([] @ ys)" by (rule ring_cut [where h = h and e = e]) (use assms al Cons in simp_all)
  ultimately show ?thesis using Cons by auto
qed

lemma RemoveTailList_ring:
  assumes "ring h head xs"
  shows "\<exists>h'. RemoveTailList head h = Some (last (head # xs), h') \<and> ring h' head (butlast xs) \<and> (\<forall>a. alloc h' a = alloc h a)"
proof (cases xs rule: rev_cases)
  case Nil
  then show ?thesis using assms ring_allocated [OF assms, of head] ring_last [OF assms]
    by (simp add: RemoveTailList_def ring_def)
next
  case (snoc ys e)
  let ?x = "last (head # ys)"
  have x: "?x \<in> insert head (set ys)" by (auto simp: last_in_set)
  obtain us where us: "head # ys = us @ [?x]" by (metis append_butlast_last_id list.distinct(1))
  have "head # xs @ [head] = us @ ?x # e # [head]" using us snoc by (metis append.assoc append_Cons append_Nil)
  then have "links (get_Flink h) (get_Blink h) (us @ ?x # e # [head])" using assms unfolding ring_def by metis
  then have g: "get_Blink h e = Some ?x" using links_append [of _ _ us ?x "[e, head]"] by simp
  have al: "alloc h head" "alloc h ?x" using ring_allocated [OF assms] snoc x by auto
  let ?h = "uF ?x head (uB head ?x h)"
  have "RemoveTailList head h = Some (e, ?h)" using al g ring_last [OF assms] snoc by (simp add: RemoveTailList_def)
  moreover have "ring ?h head (ys @ [])" by (rule ring_cut [where h = h and e = e]) (use assms al snoc in \<open>simp_all\<close>)
  ultimately show ?thesis using snoc by auto
qed


lemma AppendTailList_ring:
  assumes "ring h head xs" and "ring h l ls" and "insert head (set xs) \<inter> insert l (set ls) = {}"
  shows "\<exists>h'. AppendTailList head l h = Some h' \<and> ring h' head (xs @ l # ls) \<and> (\<forall>a. alloc h' a = alloc h a)"
proof -
  let ?x = "last (head # xs)" and ?z = "last (l # ls)"
  obtain us where us: "head # xs = us @ [?x]" by (metis append_butlast_last_id list.distinct(1))
  obtain vs where vs: "l # ls = vs @ [?z]" by (metis append_butlast_last_id list.distinct(1))
  have x: "?x \<in> insert head (set xs)" and z: "?z \<in> insert l (set ls)" by (auto simp: last_in_set)
  have al: "alloc h head" "alloc h ?x" "alloc h l" "alloc h ?z"
    using ring_allocated [OF assms(1)] ring_allocated [OF assms(2)] x z by blast+
  have ne: "?x \<noteq> l" "?x \<noteq> ?z" "head \<noteq> l" "head \<noteq> ?z" using assms(3) x z by auto
  let ?h = "uB l ?x (uF ?z head (uB head ?z (uF ?x l h)))"
  have "AppendTailList head l h = Some ?h"
    using al ne ring_last [OF assms(1)] ring_last [OF assms(2)] by (simp add: AppendTailList_def)
  moreover have "ring ?h head (xs @ l # ls)"
  proof -
    have d: "distinct (us @ [?x])" "distinct (vs @ [?z])"
      unfolding us [symmetric] vs [symmetric] using assms(1,2) by (simp_all add: ring_def)
    have "links (get_Flink h) (get_Blink h) (us @ ?x # [head])" "links (get_Flink h) (get_Blink h) (vs @ ?z # [l])"
      using assms(1,2) us vs unfolding ring_def by (metis append.assoc append_Cons append_Nil)+
    then have l: "links (get_Flink h) (get_Blink h) (us @ [?x])" "links (get_Flink h) (get_Blink h) (vs @ [?z])"
      using links_append [of _ _ us ?x "[head]"] links_append [of _ _ vs ?z "[l]"] by blast+
    have F: "get_Flink ?h = (get_Flink h)(?x \<mapsto> l, ?z \<mapsto> head)" and B: "get_Blink ?h = (get_Blink h)(head \<mapsto> ?z, l \<mapsto> ?x)"
      using al by simp_all
    have S: "set us \<subseteq> insert head (set xs)" "set vs \<subseteq> insert l (set ls)" "tl (us @ [?x]) = xs" "tl (vs @ [?z]) = ls"
      using arg_cong [OF us, of set] arg_cong [OF vs, of set] us vs by (auto, metis list.sel(3), metis list.sel(3))
    have n: "?x \<notin> set (butlast (us @ [?x]))" "?z \<notin> set (butlast (us @ [?x]))" "head \<notin> set (tl (us @ [?x]))" "l \<notin> set (tl (us @ [?x]))"
      "?x \<notin> set (butlast (vs @ [?z]))" "?z \<notin> set (butlast (vs @ [?z]))" "head \<notin> set (tl (vs @ [?z]))" "l \<notin> set (tl (vs @ [?z]))"
    proof -
      have "?x \<notin> insert l (set ls)" "?z \<notin> insert head (set xs)" using assms(3) x z by blast+
      moreover have "head \<notin> set xs" "l \<notin> set ls" using assms(1,2) by (simp_all add: ring_def)
      moreover have "?x \<notin> set us" "?z \<notin> set vs" using d by simp_all
      ultimately show "?x \<notin> set (butlast (us @ [?x]))" "?z \<notin> set (butlast (us @ [?x]))" "head \<notin> set (tl (us @ [?x]))" "l \<notin> set (tl (us @ [?x]))"
        "?x \<notin> set (butlast (vs @ [?z]))" "?z \<notin> set (butlast (vs @ [?z]))" "head \<notin> set (tl (vs @ [?z]))" "l \<notin> set (tl (vs @ [?z]))"
        unfolding S(3,4) butlast_snoc using S(1,2) assms(3) by blast+
    qed
    have 1: "links (get_Flink ?h) (get_Blink ?h) (us @ [?x])" "links (get_Flink ?h) (get_Blink ?h) (vs @ [?z])"
      unfolding F B links_Flink [OF n(1)] links_Flink [OF n(2)] links_Flink [OF n(5)] links_Flink [OF n(6)]
        links_Blink [OF n(3)] links_Blink [OF n(4)] links_Blink [OF n(7)] links_Blink [OF n(8)] by (rule l)+
    have "links (get_Flink ?h) (get_Blink ?h) (vs @ ?z # [head])"
      using links_join [OF 1(2), of head "[]"] F B ne by simp
    then have "links (get_Flink ?h) (get_Blink ?h) (l # ls @ [head])" using vs by (metis append.assoc append_Cons append_Nil)
    then have "links (get_Flink ?h) (get_Blink ?h) (us @ ?x # l # ls @ [head])"
      using links_join [OF 1(1), of l "ls @ [head]"] F B ne by simp
    then have "links (get_Flink ?h) (get_Blink ?h) (head # (xs @ l # ls) @ [head])"
      using us by (metis append.assoc append_Cons append_Nil)
    then show ?thesis using assms by (auto simp: ring_def)
  qed
  ultimately show ?thesis by auto
qed

section \<open>Double-ended queues\<close>

fun push_all :: "('a \<Rightarrow> 's \<Rightarrow> 's option) \<Rightarrow> 'a list \<Rightarrow> 's \<Rightarrow> 's option" where
  "push_all push [] s = Some s"
| "push_all push (x # xs) s = (case push x s of None \<Rightarrow> None | Some s' \<Rightarrow> push_all push xs s')"

fun pop_n :: "('s \<Rightarrow> ('a \<times> 's) option) \<Rightarrow> nat \<Rightarrow> 's \<Rightarrow> ('a list \<times> 's) option" where
  "pop_n pop 0 s = Some ([], s)"
| "pop_n pop (Suc n) s = (case pop s of None \<Rightarrow> None | Some (x, s') \<Rightarrow> map_option (\<lambda>(xs, s''). (x # xs, s'')) (pop_n pop n s'))"

text \<open>The contract of a double-ended queue; \<open>free x s\<close> says that \<open>x\<close> may be inserted.\<close>

locale deque =
  fixes repr :: "'s \<Rightarrow> 'a list \<Rightarrow> bool"
    and free :: "'a \<Rightarrow> 's \<Rightarrow> bool"
    and push_front :: "'a \<Rightarrow> 's \<Rightarrow> 's option"
    and push_back :: "'a \<Rightarrow> 's \<Rightarrow> 's option"
    and pop_front :: "'s \<Rightarrow> ('a \<times> 's) option"
    and pop_back :: "'s \<Rightarrow> ('a \<times> 's) option"
  assumes push_front_law: "repr s xs \<Longrightarrow> x \<notin> set xs \<Longrightarrow> free x s \<Longrightarrow>
      \<exists>s'. push_front x s = Some s' \<and> repr s' (x # xs) \<and> (\<forall>y. free y s' = free y s)"
    and push_back_law: "repr s xs \<Longrightarrow> x \<notin> set xs \<Longrightarrow> free x s \<Longrightarrow>
      \<exists>s'. push_back x s = Some s' \<and> repr s' (xs @ [x]) \<and> (\<forall>y. free y s' = free y s)"
    and pop_front_law: "repr s (x # xs) \<Longrightarrow> \<exists>s'. pop_front s = Some (x, s') \<and> repr s' xs"
    and pop_back_law: "repr s (xs @ [x]) \<Longrightarrow> \<exists>s'. pop_back s = Some (x, s') \<and> repr s' xs"
begin

lemma push_back_all:
  "repr s xs \<Longrightarrow> distinct (xs @ es) \<Longrightarrow> \<forall>e\<in>set es. free e s \<Longrightarrow>
   \<exists>s'. push_all push_back es s = Some s' \<and> repr s' (xs @ es)"
proof (induction es arbitrary: xs s)
  case (Cons e es)
  then obtain s1 where "push_back e s = Some s1" "repr s1 (xs @ [e])" "\<forall>y. free y s1 = free y s"
    using push_back_law [of s xs e] by auto
  with Cons.IH [of s1 "xs @ [e]"] Cons.prems show ?case by simp
qed simp

lemma push_front_all:
  "repr s xs \<Longrightarrow> distinct (xs @ es) \<Longrightarrow> \<forall>e\<in>set es. free e s \<Longrightarrow>
   \<exists>s'. push_all push_front es s = Some s' \<and> repr s' (rev es @ xs)"
proof (induction es arbitrary: xs s)
  case (Cons e es)
  then obtain s1 where "push_front e s = Some s1" "repr s1 (e # xs)" "\<forall>y. free y s1 = free y s"
    using push_front_law [of s xs e] by auto
  with Cons.IH [of s1 "e # xs"] Cons.prems show ?case by auto
qed simp

lemma pop_front_all: "repr s (es @ xs) \<Longrightarrow> \<exists>s'. pop_n pop_front (length es) s = Some (es, s') \<and> repr s' xs"
proof (induction es arbitrary: s)
  case (Cons e es)
  then obtain s1 where "pop_front s = Some (e, s1)" "repr s1 (es @ xs)" using pop_front_law [of s e "es @ xs"] by auto
  with Cons.IH [of s1] show ?case by auto
qed simp

lemma queue_order:
  assumes "repr s []" and "distinct es" and "\<forall>e\<in>set es. free e s"
  shows "\<exists>s' s''. push_all push_back es s = Some s' \<and> pop_n pop_front (length es) s' = Some (es, s'') \<and> repr s'' []"
  using push_back_all [OF assms(1), of es] assms(2,3) pop_front_all [of _ es "[]"] by fastforce

lemma stack_order:
  assumes "repr s []" and "distinct es" and "\<forall>e\<in>set es. free e s"
  shows "\<exists>s' s''. push_all push_front es s = Some s' \<and> pop_n pop_front (length es) s' = Some (rev es, s'') \<and> repr s'' []"
  using push_front_all [OF assms(1), of es] assms(2,3) pop_front_all [of _ "rev es" "[]"] by fastforce

end

interpretation dl: deque "\<lambda>h. ring h head" "\<lambda>e h. e \<noteq> head \<and> alloc h e"
  "InsertHeadList head" "InsertTailList head" "RemoveHeadList head" "RemoveTailList head" for head
proof (unfold_locales, goal_cases)
  case (1 s xs x)
  then show ?case using InsertHeadList_ring [of s head xs x] by auto
next
  case (2 s xs x)
  then show ?case using InsertTailList_ring [of s head xs x] by auto
next
  case (3 s x xs)
  then show ?case using RemoveHeadList_ring [of s head "x # xs"] by auto
next
  case (4 s xs x)
  then show ?case using RemoveTailList_ring [of s head "xs @ [x]"] by auto
qed

section \<open>Properties\<close>


definition demo_ring :: link_heap where
  "demo_ring = [1 \<mapsto> \<lparr>Flink = 2, Blink = 2\<rparr>, 2 \<mapsto> \<lparr>Flink = 1, Blink = 1\<rparr>, 3 \<mapsto> \<lparr>Flink = 0, Blink = 0\<rparr>]"


text \<open>
  used from one end the list is a queue, used from both it is a stack. Entries inserted at the tail
  of an empty list leave it at the head in the order of their insertion, entries inserted at the head
  leave it in the reverse order, and the list is empty again afterwards.
\<close>

theorem list_is_queue_and_stack:
  assumes "ring h head []" and "distinct es" and "\<forall>e\<in>set es. e \<noteq> head \<and> alloc h e"
  shows "(\<exists>h' h''. push_all (InsertTailList head) es h = Some h' \<and>
      pop_n (RemoveHeadList head) (length es) h' = Some (es, h'') \<and> ring h'' head []) \<and>
    (\<exists>h' h''. push_all (InsertHeadList head) es h = Some h' \<and>
      pop_n (RemoveHeadList head) (length es) h' = Some (rev es, h'') \<and> ring h'' head [])"
  using dl.queue_order [OF assms] dl.stack_order [OF assms] by blast

theorem list_is_queue_and_stack_witness:
  "\<exists>h' h''. push_all (InsertTailList 5) [6, 7] [5 \<mapsto> \<lparr>Flink = 5, Blink = 5\<rparr>, 6 \<mapsto> \<lparr>Flink = 0, Blink = 0\<rparr>, 7 \<mapsto> \<lparr>Flink = 0, Blink = 0\<rparr>] = Some h' \<and>
      pop_n (RemoveHeadList 5) (length [6, 7 :: addr]) h' = Some ([6, 7], h'') \<and> ring h'' 5 []"
  by (rule list_is_queue_and_stack [THEN conjunct1]) (simp_all add: ring_def get_Flink_def get_Blink_def alloc_def)

end
