(* ===== verification/Interlocked_SList.thy ===== *)
theory Interlocked_SList
  imports Interlocked
begin

text \<open>
  The lock-free singly linked list of src/libuzi/interlocked.c. With 32-bit pointers it refines a stack, also
  when other threads operate on it between the read of the header and the compare-and-swap; with
  64-bit pointers the compare-and-swap does not cover the depth, and the list breaks.
\<close>

fun chain :: "entry_heap \<Rightarrow> addr \<Rightarrow> addr list \<Rightarrow> bool" where
  "chain h p [] = (p = NULL)"
| "chain h p (x # xs) = (p = x \<and> x \<noteq> NULL \<and> (\<exists>q. h x = Some q \<and> chain h q xs))"

lemma chain_frame [heap_frame]: "a \<notin> set xs \<Longrightarrow> chain (h(a := v)) p xs = chain h p xs"
  by (induction h p xs rule: chain.induct) auto

lemma chain_NULL: "chain h p xs \<Longrightarrow> p = NULL \<longleftrightarrow> xs = []"
  by (cases xs) auto

text \<open>The list holds the entries \<open>xs\<close>, first entry first, and its depth is their number modulo \<open>2 ^ 16\<close>.\<close>

definition holds :: "slist \<Rightarrow> addr list \<Rightarrow> bool" where
  "holds s xs \<longleftrightarrow> (case s of (h, hdr) \<Rightarrow> chain h (Next hdr) xs \<and> distinct xs \<and> Depth hdr = word_of_nat (length xs))"

text \<open>
  What the other threads may do around an operation: they keep the list well formed and leave the
  entry alone that is being pushed. For a pop, also: an unchanged header means an unchanged first
  entry, which is what the sequence number is for.
\<close>

definition keeps_list :: "addr \<Rightarrow> (slist \<Rightarrow> slist) \<Rightarrow> bool" where
  "keeps_list e f \<longleftrightarrow> (\<forall>h hdr xs. holds (h, hdr) xs \<and> e \<notin> set xs \<longrightarrow>
     (\<exists>ys. holds (f (h, hdr)) ys \<and> e \<notin> set ys) \<and> fst (f (h, hdr)) e = h e)"

definition no_aba :: "(slist \<Rightarrow> slist) \<Rightarrow> bool" where
  "no_aba f \<longleftrightarrow> (\<forall>h hdr. snd (f (h, hdr)) = hdr \<longrightarrow> fst (f (h, hdr)) (Next hdr) = h (Next hdr))"

declare InterlockedPushEntrySList.simps [simp del] InterlockedPopEntrySList.simps [simp del] flush_loop.simps [simp del]

lemma chain_no_NULL: "chain h p xs \<Longrightarrow> NULL \<notin> set xs"
  by (induction h p xs rule: chain.induct) auto

lemma holds_entries: "holds s xs \<Longrightarrow> distinct xs \<and> NULL \<notin> set xs"
  by (cases s) (auto simp: holds_def dest: chain_no_NULL)

lemma holds_push:
  assumes "holds (h, hdr) xs" and "e \<notin> set xs" and "e \<noteq> NULL" and "h e = Some (Next hdr)"
  shows "holds (h, \<lparr>Next = e, Depth = Depth hdr + 1, Sequence = q\<rparr>) (e # xs)"
  using assms by (auto simp: holds_def)

lemma holds_pop:
  assumes "holds (h, hdr) (x # xs)" and "h x = Some n"
  shows "holds (h, \<lparr>Next = n, Depth = Depth hdr - 1, Sequence = q\<rparr>) xs"
  using assms by (auto simp: holds_def)

lemma holds_first: "holds (h, hdr) xs \<Longrightarrow> Next hdr = (if xs = [] then NULL else hd xs)"
  by (cases xs) (auto simp: holds_def)

lemma push_iteration:
  "h e \<noteq> None \<Longrightarrow> InterlockedPushEntrySList ILP32 [] e (h, hdr) =
     Some (Next hdr, (h(e \<mapsto> Next hdr), \<lparr>Next = e, Depth = Depth hdr + 1, Sequence = Sequence hdr + 1\<rparr>))"
  "h e \<noteq> None \<Longrightarrow> f (h(e \<mapsto> Next hdr), hdr) = (h2, hdr) \<Longrightarrow> InterlockedPushEntrySList ILP32 (f # env) e (h, hdr) =
     Some (Next hdr, (h2, \<lparr>Next = e, Depth = Depth hdr + 1, Sequence = Sequence hdr + 1\<rparr>))"
  "h e \<noteq> None \<Longrightarrow> f (h(e \<mapsto> Next hdr), hdr) = (h2, cur) \<Longrightarrow> cur \<noteq> hdr \<Longrightarrow>
     InterlockedPushEntrySList ILP32 (f # env) e (h, hdr) = InterlockedPushEntrySList ILP32 env e (h2, cur)"
  by (subst InterlockedPushEntrySList.simps, simp only: Let_def if_False if_True list.case prod.case same_alignment_def
      set_alignment_def data_model.case simp_thms)+

lemma pop_iteration:
  "Next hdr = NULL \<Longrightarrow> InterlockedPopEntrySList ILP32 env (h, hdr) = Some (NULL, (h, hdr))"
  "Next hdr = x \<Longrightarrow> x \<noteq> NULL \<Longrightarrow> h x = Some n \<Longrightarrow> InterlockedPopEntrySList ILP32 [] (h, hdr) =
     Some (x, (h, \<lparr>Next = n, Depth = Depth hdr - 1, Sequence = Sequence hdr + 1\<rparr>))"
  "Next hdr = x \<Longrightarrow> x \<noteq> NULL \<Longrightarrow> h x = Some n \<Longrightarrow> f (h, hdr) = (h2, hdr) \<Longrightarrow> InterlockedPopEntrySList ILP32 (f # env) (h, hdr) =
     Some (x, (h2, \<lparr>Next = n, Depth = Depth hdr - 1, Sequence = Sequence hdr + 1\<rparr>))"
  "Next hdr = x \<Longrightarrow> x \<noteq> NULL \<Longrightarrow> h x = Some n \<Longrightarrow> f (h, hdr) = (h2, cur) \<Longrightarrow> cur \<noteq> hdr \<Longrightarrow>
     InterlockedPopEntrySList ILP32 (f # env) (h, hdr) = InterlockedPopEntrySList ILP32 env (h2, cur)"
  by (subst InterlockedPopEntrySList.simps, simp add: Let_def set_alignment_def same_alignment_def)+

lemma push_loop:
  assumes "\<forall>f\<in>set env. keeps_list e f" and "holds (h, hdr) xs" and "e \<notin> set xs" and "e \<noteq> NULL" and "h e \<noteq> None"
  shows "\<exists>h' hdr' ys. InterlockedPushEntrySList ILP32 env e (h, hdr) = Some (if ys = [] then NULL else hd ys, (h', hdr')) \<and>
    holds (h', hdr') (e # ys) \<and> (env = [] \<longrightarrow> ys = xs)"
  using assms
proof (induction env arbitrary: h hdr xs)
  case Nil
  have "holds (h(e \<mapsto> Next hdr), hdr) xs" using Nil.prems(2,3) by (simp add: holds_def chain_frame)
  from holds_push [OF this Nil.prems(3,4)] show ?case
    using push_iteration(1) [where h = h and e = e and hdr = hdr, OF Nil.prems(5)] holds_first [OF Nil.prems(2)] by fastforce
next
  case (Cons f env)
  let ?h = "h(e \<mapsto> Next hdr)"
  have r: "holds (?h, hdr) xs" using Cons.prems(2,3) by (simp add: holds_def chain_frame)
  obtain h2 cur where f: "f (?h, hdr) = (h2, cur)" by (cases "f (?h, hdr)")
  have k: "(\<exists>ys. holds (f (?h, hdr)) ys \<and> e \<notin> set ys) \<and> fst (f (?h, hdr)) e = ?h e"
    using Cons.prems(1) r Cons.prems(3) unfolding keeps_list_def by (metis list.set_intros(1))
  then obtain ys where y: "holds (h2, cur) ys" "e \<notin> set ys" and he: "h2 e = Some (Next hdr)" using f by auto
  show ?case
  proof (cases "cur = hdr")
    case True
    then show ?thesis
      using push_iteration(2) [where h = h and e = e and hdr = hdr and f = f and ?h2.0 = h2 and env = env, OF Cons.prems(5)] f holds_push [OF y Cons.prems(4)] he holds_first [OF y(1)] by fastforce
  next
    case False
    then show ?thesis
      using push_iteration(3) [where h = h and e = e and hdr = hdr and f = f and env = env, OF Cons.prems(5) f False] Cons.IH [OF _ y Cons.prems(4)] Cons.prems(1) he by fastforce
  qed
qed

lemma pop_loop:
  assumes "\<forall>f\<in>set env. no_aba f \<and> (\<forall>s xs. holds s xs \<longrightarrow> (\<exists>ys. holds (f s) ys))" and "holds (h, hdr) xs"
  shows "\<exists>s' zs. InterlockedPopEntrySList ILP32 env (h, hdr) = Some (if zs = [] then NULL else hd zs, s') \<and>
    holds s' (tl zs) \<and> distinct zs \<and> NULL \<notin> set zs \<and> (env = [] \<longrightarrow> zs = xs)"
  using assms
proof (induction env arbitrary: h hdr xs)
  case N: Nil
  have d: "distinct xs" "NULL \<notin> set xs" using holds_entries [OF N.prems(2)] by auto
  show ?case
  proof (cases xs)
    case Nil
    then show ?thesis using N.prems(2) pop_iteration(1) [of hdr "[]" h] by (auto simp: holds_def)
  next
    case (Cons x xs')
    then obtain n where n: "Next hdr = x" "x \<noteq> NULL" "h x = Some n" using N.prems(2) by (auto simp: holds_def)
    then show ?thesis using pop_iteration(2) [where h = h and hdr = hdr and x = x, OF n] holds_pop [of h hdr x xs' n] N.prems(2) Cons d
      by (intro exI [of _ xs] exI) auto
  qed
next
  case C: (Cons f env)
  obtain h2 cur where f: "f (h, hdr) = (h2, cur)" by (cases "f (h, hdr)")
  obtain zs where z: "holds (h2, cur) zs" using C.prems f by (metis list.set_intros(1))
  show ?case
  proof (cases xs)
    case Nil
    then show ?thesis using C.prems(2) pop_iteration(1) [of hdr "f # env" h] by (auto simp: holds_def)
  next
    case x: (Cons x xs')
    then obtain n where n: "Next hdr = x" "x \<noteq> NULL" "h x = Some n" using C.prems(2) by (auto simp: holds_def)
    show ?thesis
    proof (cases "cur = hdr")
      case False
      then show ?thesis using pop_iteration(4) [where h = h and hdr = hdr and x = x and f = f and env = env, OF n f] C.IH [OF _ z] C.prems(1) by fastforce
    next
      case True
      have h2: "h2 x = Some n" using C.prems(1) f True n unfolding no_aba_def
        by (metis fst_conv list.set_intros(1) snd_conv)
      obtain ys where ys: "zs = x # ys" using z True n by (cases zs) (auto simp: holds_def)
      have "distinct zs" "NULL \<notin> set zs" using holds_entries [OF z] by auto
      then show ?thesis using pop_iteration(3) [where h = h and hdr = hdr and x = x and f = f and env = env, OF n] f True holds_pop [of h2 cur x ys n] z ys h2
        by (intro exI [of _ zs] exI) auto
    qed
  qed
qed

section \<open>Properties\<close>


definition demo_other_push :: "slist \<Rightarrow> slist" where
  "demo_other_push s = (case s of (h, hdr) \<Rightarrow> if Next hdr = NULL \<and> Depth hdr = 0 then
     (h(7 \<mapsto> NULL), \<lparr>Next = 7, Depth = 1, Sequence = Sequence hdr + 1\<rparr>) else (h, hdr))"

lemma demo_other_push_keeps: "keeps_list 5 demo_other_push"
proof -
  have "(\<exists>ys. holds (demo_other_push (h, hdr)) ys \<and> 5 \<notin> set ys) \<and> fst (demo_other_push (h, hdr)) 5 = h 5"
    if "holds (h, hdr) xs" "5 \<notin> set xs" for h hdr xs
  proof (cases "Next hdr = NULL \<and> Depth hdr = 0")
    case True
    then have "holds (demo_other_push (h, hdr)) [7]" by (simp add: demo_other_push_def holds_def)
    then show ?thesis using True by (auto simp: demo_other_push_def intro!: exI [of _ "[7]"])
  next
    case False
    then show ?thesis using that by (auto simp: demo_other_push_def)
  qed
  then show ?thesis unfolding keeps_list_def by blast
qed




text \<open>
  with 64-bit pointers the list does not work as documented. Pushing an entry on an initialised list
  leaves the depth at its old value, and after a push on a list of depth 0 \<open>InterlockedFlushSList\<close> returns
  NULL and keeps the entry.
\<close>

theorem slist_depth_lost_on_lp64:
  assumes "h e \<noteq> None" and "Depth hdr = 0"
  shows "\<exists>h' hdr'. InterlockedPushEntrySList LP64 [] e (h, InitializeSListHead LP64 hdr) = Some (NULL, (h', hdr')) \<and>
    Next hdr' = e \<and> QueryDepthSList hdr' = 0 \<and> InterlockedFlushSList LP64 env (h', hdr') = (NULL, (h', hdr'))"
  using assms by (subst InterlockedPushEntrySList.simps)
    (auto simp: Let_def set_alignment_def InitializeSListHead_def QueryDepthSList_def InterlockedFlushSList_def)

theorem slist_depth_lost_on_lp64_witness:
  "\<exists>h' hdr'. InterlockedPushEntrySList LP64 [] 16 ([16 \<mapsto> 0], InitializeSListHead LP64 \<lparr>Next = 3, Depth = 0, Sequence = 0\<rparr>) =
      Some (NULL, (h', hdr')) \<and>
    Next hdr' = 16 \<and> QueryDepthSList hdr' = 0 \<and> InterlockedFlushSList LP64 [] (h', hdr') = (NULL, (h', hdr'))"
  by (rule slist_depth_lost_on_lp64) simp_all

end
