(* ===== verification/Alignment.thy ===== *)
theory Alignment
  imports Uzi_Prelude
begin

text \<open>
  src/libuzi/alignment.c: aligned allocation on a 64-bit platform, where \<open>size_t\<close> and pointers have 64 bits,
  pointers 8 bytes and the header 24. All arithmetic wraps as in C. The memory holds the headers by
  their address and the bytes of the blocks; \<open>malloc_log\<close> and \<open>free_log\<close> record the sizes requested from
  \<open>malloc\<close> and the pointers given to \<open>free\<close>. The result of \<open>malloc\<close> is the argument \<open>base\<close>; 0 is the null
  pointer.
\<close>

section \<open>Model\<close>

abbreviation WINPR_ALIGNED_MEM_SIGNATURE :: u32 where "WINPR_ALIGNED_MEM_SIGNATURE \<equiv> 0x0BA0BAB"
abbreviation sizeof_ptr :: u64 where "sizeof_ptr \<equiv> 8"
abbreviation sizeof_header :: u64 where "sizeof_header \<equiv> 24"

record WINPR_ALIGNED_MEM =
  sig :: u32
  "size" :: u64
  base_addr :: u64

record amem =
  headers :: "u64 \<Rightarrow> WINPR_ALIGNED_MEM"
  bytes :: "u64 \<Rightarrow> u8"
  malloc_log :: "u64 list"
  free_log :: "u64 list"

definition STRUCT_FROM_PTR :: "u64 \<Rightarrow> u64" where
  "STRUCT_FROM_PTR memptr = memptr - sizeof_header"

definition pMem_of :: "amem \<Rightarrow> u64 \<Rightarrow> WINPR_ALIGNED_MEM" where
  "pMem_of m memblock = headers m (STRUCT_FROM_PTR memblock)"

definition CopyMemory :: "u64 \<Rightarrow> u64 \<Rightarrow> u64 \<Rightarrow> (u64 \<Rightarrow> u8) \<Rightarrow> u64 \<Rightarrow> u8" where
  "CopyMemory dst src n mem = (\<lambda>a. if a - dst < n then mem (src + (a - dst)) else mem a)"

definition ZeroMemory :: "u64 \<Rightarrow> u64 \<Rightarrow> (u64 \<Rightarrow> u8) \<Rightarrow> u64 \<Rightarrow> u8" where
  "ZeroMemory dst n mem = (\<lambda>a. if a - dst < n then 0 else mem a)"

definition aligned_offset_malloc :: "u64 \<Rightarrow> u64 \<Rightarrow> u64 \<Rightarrow> u64 \<Rightarrow> amem \<Rightarrow> u64 \<times> amem" where
  "aligned_offset_malloc base sz alignment0 offset m =
     (if alignment0 mod 2 = 1 then (0, m)
      else if offset \<ge> sz then (0, m)
      else
        (let alignment = (if alignment0 < sizeof_ptr then sizeof_ptr else alignment0);
             m1 = m\<lparr>malloc_log := malloc_log m @ [sz + alignment + sizeof_header]\<rparr> in
         if base = 0 then (0, m1)
         else
           (let memblock = ((base + alignment + offset + sizeof_header) AND NOT (alignment - 1)) - offset;
                pMem = \<lparr>sig = WINPR_ALIGNED_MEM_SIGNATURE, size = sz, base_addr = base\<rparr> in
            (memblock, m1\<lparr>headers := (headers m1)(STRUCT_FROM_PTR memblock := pMem)\<rparr>))))"

definition aligned_free :: "u64 \<Rightarrow> amem \<Rightarrow> amem" where
  "aligned_free memblock m =
     (if memblock = 0 then m
      else if sig (pMem_of m memblock) \<noteq> WINPR_ALIGNED_MEM_SIGNATURE then m
      else m\<lparr>free_log := free_log m @ [base_addr (pMem_of m memblock)]\<rparr>)"

definition aligned_offset_realloc :: "u64 \<Rightarrow> u64 \<Rightarrow> u64 \<Rightarrow> u64 \<Rightarrow> u64 \<Rightarrow> amem \<Rightarrow> u64 \<times> amem" where
  "aligned_offset_realloc base memblock sz alignment offset m =
     (if memblock = 0 then aligned_offset_malloc base sz alignment offset m
      else
        (let pMem = pMem_of m memblock in
         if sig pMem \<noteq> WINPR_ALIGNED_MEM_SIGNATURE then (0, m)
         else if sz = 0 then (0, aligned_free memblock m)
         else
           (let (newMemblock, m1) = aligned_offset_malloc base sz alignment offset m in
            if newMemblock = 0 then (0, m1)
            else
              (let pNewMem = pMem_of m1 newMemblock;
                   copySize = (if size pNewMem < size pMem then size pNewMem else size pMem);
                   m2 = m1\<lparr>bytes := CopyMemory newMemblock memblock copySize (bytes m1)\<rparr> in
               (newMemblock, aligned_free memblock m2)))))"

definition aligned_offset_recalloc :: "u64 \<Rightarrow> u64 \<Rightarrow> u64 \<Rightarrow> u64 \<Rightarrow> u64 \<Rightarrow> u64 \<Rightarrow> amem \<Rightarrow> u64 \<times> amem" where
  "aligned_offset_recalloc base memblock num sz alignment offset m =
     (if memblock = 0 then
        (let (newMemblock, m1) = aligned_offset_malloc base (sz * num) alignment offset m in
         if newMemblock \<noteq> 0 then
           (memblock, m1\<lparr>bytes := ZeroMemory newMemblock (size (pMem_of m1 newMemblock)) (bytes m1)\<rparr>)
         else (memblock, m1))
      else
        (let pMem = pMem_of m memblock in
         if sig pMem \<noteq> WINPR_ALIGNED_MEM_SIGNATURE then (0, m)
         else if sz = 0 then (0, aligned_free memblock m)
         else
           (let (newMemblock, m1) = aligned_offset_malloc base (sz * num) alignment offset m in
            if newMemblock = 0 then (0, m1)
            else
              (let m2 = m1\<lparr>bytes := ZeroMemory newMemblock (size (pMem_of m1 newMemblock)) (bytes m1)\<rparr> in
               (newMemblock, aligned_free memblock m2)))))"

definition aligned_msize :: "u64 \<Rightarrow> u64 \<Rightarrow> u64 \<Rightarrow> amem \<Rightarrow> u64" where
  "aligned_msize memblock alignment offset m =
     (if memblock = 0 then 0
      else if sig (pMem_of m memblock) \<noteq> WINPR_ALIGNED_MEM_SIGNATURE then 0
      else size (pMem_of m memblock))"

definition aligned_malloc :: "u64 \<Rightarrow> u64 \<Rightarrow> u64 \<Rightarrow> amem \<Rightarrow> u64 \<times> amem" where
  "aligned_malloc base sz alignment m = aligned_offset_malloc base sz alignment 0 m"

definition aligned_realloc :: "u64 \<Rightarrow> u64 \<Rightarrow> u64 \<Rightarrow> u64 \<Rightarrow> amem \<Rightarrow> u64 \<times> amem" where
  "aligned_realloc base memblock sz alignment m = aligned_offset_realloc base memblock sz alignment 0 m"

definition aligned_recalloc :: "u64 \<Rightarrow> u64 \<Rightarrow> u64 \<Rightarrow> u64 \<Rightarrow> u64 \<Rightarrow> amem \<Rightarrow> u64 \<times> amem" where
  "aligned_recalloc base memblock num sz alignment m = aligned_offset_recalloc base memblock num sz alignment 0 m"

section \<open>Arithmetic of the aligned address\<close>

lemma unat_align_down: "unat ((x :: u64) AND NOT (2 ^ k - 1)) = unat x - unat x mod 2 ^ k"
proof -
  have m: "(2 ^ k - 1 :: u64) = mask k" by (simp add: mask_eq_exp_minus_1)
  have d: "(x AND mask k) AND (x AND NOT (mask k)) = 0" by (rule bit_word_eqI) (auto simp: bit_simps)
  have "(x AND mask k) OR (x AND NOT (mask k)) = x" by (rule bit_word_eqI) (auto simp: bit_simps)
  then have "(x AND mask k) + (x AND NOT (mask k)) = x" using word_or_disjoint [OF d] by simp
  then have e: "x AND NOT (mask k) = x - (x AND mask k)" by (metis add_diff_cancel_left')
  have "x AND mask k \<le> x" by (simp add: word_le_nat_alt unat_and_mask)
  then show ?thesis unfolding m e by (simp add: unat_sub unat_and_mask)
qed

text \<open>
  The block lies inside the area obtained from \<open>malloc\<close>, behind the header, and the address at \<open>offset\<close>
  is aligned. The area is \<open>n\<close> bytes from \<open>base\<close>, and it does not wrap around the address space.
\<close>

lemma aligned_block:
  fixes base alignment offset sz :: u64
  defines "memblock \<equiv> ((base + alignment + offset + sizeof_header) AND NOT (alignment - 1)) - offset"
  assumes al: "unat alignment = 2 ^ k" and off: "offset < sz"
    and area: "unat base + (unat sz + unat alignment + 24) < 2 ^ 64"
  shows "unat base + 24 < unat memblock" and "unat memblock + unat sz \<le> unat base + (unat sz + unat alignment + 24)"
    and "(unat memblock + unat offset) mod unat alignment = 0"
proof -
  have "alignment = word_of_nat (unat alignment)" by simp
  then have a: "alignment = 2 ^ k" unfolding al by simp
  let ?x = "base + alignment + offset + sizeof_header"
  have o: "unat offset < unat sz" using off by (simp add: word_less_nat_alt)
  have x: "unat ?x = unat base + unat alignment + unat offset + 24"
    using area o by (simp add: unat_word_ariths)
  let ?d = "unat ?x mod 2 ^ k"
  have d: "?d < 2 ^ k" by simp
  have down: "unat (?x AND NOT (alignment - 1)) = unat ?x - ?d" unfolding a by (rule unat_align_down)
  have ge: "unat offset \<le> unat ?x - ?d" using x d al by linarith
  then have m: "unat memblock = unat ?x - ?d - unat offset"
    unfolding memblock_def using down by (simp add: unat_sub word_le_nat_alt)
  show "unat base + 24 < unat memblock" using m x d al by linarith
  show "unat memblock + unat sz \<le> unat base + (unat sz + unat alignment + 24)" using m x by linarith
  have "unat memblock + unat offset = unat ?x - ?d" using m ge by linarith
  then show "(unat memblock + unat offset) mod unat alignment = 0"
    unfolding al by (metis minus_mod_eq_mult_div mod_mult_self1_is_0)
qed


definition effective :: "u64 \<Rightarrow> u64" where
  "effective alignment = (if alignment < sizeof_ptr then sizeof_ptr else alignment)"

lemma effective_power:
  assumes "unat alignment = 2 ^ k"
  obtains j where "unat (effective alignment) = 2 ^ j"
proof (cases "alignment < sizeof_ptr")
  case True
  then have "unat (effective alignment) = 2 ^ 3" by (simp add: effective_def)
  then show thesis by (rule that)
next
  case False
  then show thesis using that assms by (simp add: effective_def)
qed

lemma aligned_offset_malloc_ok:
  assumes "alignment mod 2 = 0" and "offset < sz" and "base \<noteq> 0"
  shows "aligned_offset_malloc base sz alignment offset m =
    (let memblock = ((base + effective alignment + offset + sizeof_header) AND NOT (effective alignment - 1)) - offset in
     (memblock, m\<lparr>malloc_log := malloc_log m @ [sz + effective alignment + sizeof_header],
       headers := (headers m)(STRUCT_FROM_PTR memblock := \<lparr>sig = WINPR_ALIGNED_MEM_SIGNATURE, size = sz, base_addr = base\<rparr>)\<rparr>))"
  using assms by (auto simp: aligned_offset_malloc_def effective_def Let_def)

lemma power_even:
  assumes "unat (alignment :: u64) = 2 ^ k" and "k \<noteq> 0"
  shows "alignment mod 2 = 0"
proof -
  have "unat (alignment mod 2) = 0" using assms by (cases k) (simp_all add: unat_mod)
  then show ?thesis by (simp add: unat_eq_zero)
qed

section \<open>Properties\<close>

text \<open>
  C17: a successful aligned allocation with an alignment that is a power of two: the address at the
  offset is a multiple of the alignment (at least 8), the block of the requested size and the header
  before it lie inside the area obtained from \<open>malloc\<close>, whose size was the sum the code computes, and
  the size is recorded so that \<open>_aligned_msize\<close> returns it and \<open>_aligned_free\<close> gives back exactly that area.
  The sum of the sizes does not wrap around.
\<close>

theorem aligned_malloc_correct:
  assumes "unat alignment = 2 ^ k" and "k \<noteq> 0" and "offset < sz" and "base \<noteq> 0"
    and "unat base + (unat sz + unat (effective alignment) + 24) < 2 ^ 64"
    and "aligned_offset_malloc base sz alignment offset m = (memblock, m')"
  shows "unat base + 24 < unat memblock \<and>
    unat memblock + unat sz \<le> unat base + unat (last (malloc_log m')) \<and>
    (unat memblock + unat offset) mod unat (effective alignment) = 0 \<and>
    aligned_msize memblock alignment offset m' = sz \<and>
    free_log (aligned_free memblock m') = free_log m' @ [base]"
proof -
  let ?a = "effective alignment"
  obtain j where j: "unat ?a = 2 ^ j" using assms(1) by (rule effective_power)
  note ok = aligned_offset_malloc_ok [OF power_even [OF assms(1,2)] assms(3,4), of m]
  have mb: "memblock = ((base + ?a + offset + sizeof_header) AND NOT (?a - 1)) - offset"
    and m': "m' = m\<lparr>malloc_log := malloc_log m @ [sz + ?a + sizeof_header],
      headers := (headers m)(STRUCT_FROM_PTR memblock := \<lparr>sig = WINPR_ALIGNED_MEM_SIGNATURE, size = sz, base_addr = base\<rparr>)\<rparr>"
    using assms(6) unfolding ok by (auto simp: Let_def)
  note B = aligned_block [OF j assms(3,5), folded mb]
  have "unat (sz + ?a + sizeof_header) = unat sz + unat ?a + 24" using assms(5) by (simp add: unat_word_ariths)
  moreover have "memblock \<noteq> 0" using B(1) by auto
  ultimately show ?thesis using B by (simp add: m' aligned_msize_def aligned_free_def pMem_of_def)
qed

definition demo_mem :: amem where
  "demo_mem = \<lparr>headers = \<lambda>_. \<lparr>sig = 0, size = 0, base_addr = 0\<rparr>, bytes = \<lambda>_. 7, malloc_log = [], free_log = []\<rparr>"

theorem aligned_malloc_correct_witness:
  "let (memblock, m') = aligned_offset_malloc 0x1000 100 64 4 demo_mem in
    unat (0x1000 :: u64) + 24 < unat memblock \<and>
    unat memblock + unat (100 :: u64) \<le> unat (0x1000 :: u64) + unat (last (malloc_log m')) \<and>
    (unat memblock + unat (4 :: u64)) mod unat (effective 64) = 0 \<and>
    aligned_msize memblock 64 4 m' = 100 \<and> free_log (aligned_free memblock m') = free_log m' @ [0x1000]"
proof -
  obtain memblock m' where e: "aligned_offset_malloc 0x1000 100 64 4 demo_mem = (memblock, m')"
    by (cases "aligned_offset_malloc 0x1000 100 64 4 demo_mem")
  have "unat (64 :: u64) = 2 ^ 6" by simp
  from aligned_malloc_correct [OF this _ _ _ _ e] show ?thesis using e by (simp add: effective_def)
qed

text \<open>
  \<open>_aligned_offset_realloc\<close> of a block with a valid header: a failed allocation returns NULL and frees
  nothing; a successful one returns the new block, whose first bytes are those of the old block up to
  the smaller of the two sizes, and frees the area of the old block; size 0 frees it and returns NULL.
  The header of the new block does not overwrite the header of the old one.
\<close>

theorem aligned_realloc_correct:
  assumes "memblock \<noteq> 0" and "sig (pMem_of m memblock) = WINPR_ALIGNED_MEM_SIGNATURE"
    and new: "aligned_offset_malloc base sz alignment offset m = (new, m1)"
    and "new \<noteq> memblock"
  shows "(sz = 0 \<longrightarrow> aligned_offset_realloc base memblock sz alignment offset m =
       (0, m\<lparr>free_log := free_log m @ [base_addr (pMem_of m memblock)]\<rparr>)) \<and>
    (sz \<noteq> 0 \<and> new = 0 \<longrightarrow> aligned_offset_realloc base memblock sz alignment offset m = (0, m1) \<and> free_log m1 = free_log m) \<and>
    (sz \<noteq> 0 \<and> new \<noteq> 0 \<longrightarrow>
       (let (r, m2) = aligned_offset_realloc base memblock sz alignment offset m in
        r = new \<and> free_log m2 = free_log m @ [base_addr (pMem_of m memblock)] \<and>
        (\<forall>i. i < sz \<and> i < size (pMem_of m memblock) \<longrightarrow> bytes m2 (new + i) = bytes m (memblock + i))))"
proof -
  have h: "new \<noteq> 0 \<Longrightarrow> size (pMem_of m1 new) = sz" "pMem_of m1 memblock = pMem_of m memblock"
    "free_log m1 = free_log m" "bytes m1 = bytes m"
    using new assms(4)
    by (auto simp: aligned_offset_malloc_def pMem_of_def STRUCT_FROM_PTR_def Let_def split: if_splits)
  have m2: "pMem_of (m1\<lparr>bytes := x\<rparr>) memblock = pMem_of m memblock" for x using h(2) by (simp add: pMem_of_def)
  show ?thesis
    using assms h m2 by (auto simp: aligned_offset_realloc_def aligned_free_def Let_def CopyMemory_def)
qed

theorem aligned_realloc_correct_witness:
  "let m = demo_mem\<lparr>headers := (\<lambda>_. \<lparr>sig = 0, size = 0, base_addr = 0\<rparr>)(0x1008 := \<lparr>sig = WINPR_ALIGNED_MEM_SIGNATURE, size = 32, base_addr = 0x1000\<rparr>)\<rparr>;
       (r, m2) = aligned_offset_realloc 0x2000 0x1020 8 16 0 m in
   r = fst (aligned_offset_malloc 0x2000 8 16 0 m) \<and> free_log m2 = [0x1000] \<and> bytes m2 (r + 3) = bytes m (0x1020 + 3)"
proof -
  let ?m = "demo_mem\<lparr>headers := (\<lambda>_. \<lparr>sig = 0, size = 0, base_addr = 0\<rparr>)(0x1008 := \<lparr>sig = WINPR_ALIGNED_MEM_SIGNATURE, size = 32, base_addr = 0x1000\<rparr>)\<rparr>"
  have p: "pMem_of ?m 0x1020 = \<lparr>sig = WINPR_ALIGNED_MEM_SIGNATURE, size = 32, base_addr = 0x1000\<rparr>"
    by (simp add: pMem_of_def STRUCT_FROM_PTR_def)
  obtain new m1 where n: "aligned_offset_malloc 0x2000 8 16 0 ?m = (new, m1)" by (cases "aligned_offset_malloc 0x2000 8 16 0 ?m")
  have "new = 0x2020" using n by (auto simp: aligned_offset_malloc_def Let_def)
  with aligned_realloc_correct [of "0x1020" ?m "0x2000" 8 16 0 new m1] p n show ?thesis
    by (auto simp: demo_mem_def dest!: spec [of _ 3])
qed

text \<open>
  \<open>_aligned_offset_recalloc\<close> of a null pointer returns NULL although it allocates and clears a block:
  the block is lost. The documentation of the function it replaces makes this call an allocation.
\<close>

theorem recalloc_of_null_leaks:
  assumes "alignment mod 2 = 0" and "offset < sz * num" and "base \<noteq> 0"
  shows "\<exists>m'. aligned_offset_recalloc base 0 num sz alignment offset m = (0, m') \<and>
    malloc_log m' = malloc_log m @ [sz * num + effective alignment + sizeof_header] \<and> free_log m' = free_log m"
  using aligned_offset_malloc_ok [OF assms, of m]
  by (auto simp: aligned_offset_recalloc_def Let_def)

theorem recalloc_of_null_leaks_witness:
  "\<exists>m'. aligned_offset_recalloc 0x1000 0 4 8 16 0 demo_mem = (0, m') \<and>
    malloc_log m' = malloc_log demo_mem @ [8 * 4 + effective 16 + sizeof_header] \<and> free_log m' = free_log demo_mem"
  by (rule recalloc_of_null_leaks) simp_all

text \<open>
  the size requested from \<open>malloc\<close> wraps around for sizes near the top of the range, so that the block
  returned is larger than the area it lies in: the code does not check the sum.
\<close>

theorem aligned_malloc_request_wraps:
  "\<exists>sz memblock m'. aligned_offset_malloc 0x1000 sz 16 0 demo_mem = (memblock, m') \<and> memblock \<noteq> 0 \<and>
    unat (last (malloc_log m')) < unat sz"
  by (rule exI [of _ "-32"]) (simp add: aligned_offset_malloc_def Let_def)

end
