(* ===== verification/Init_Once.thy ===== *)
theory Init_Once
  imports Uzi_Prelude
begin

text \<open>
  src/libuzi/init.c: one-time initialisation. Any number of threads call \<open>winpr_InitOnceExecuteOnce\<close> on one
  structure; the step function of a thread is cut at the accesses to \<open>InitOnce->Ptr\<close> and at the call of
  \<open>InitFn\<close>, whose result is free.
\<close>

section \<open>Model\<close>

text \<open>
  Program points: outside, at the head of the loop (the switch), at the compare-and-swap, in
  \<open>InitFn\<close>, before the store of 2, before the store of 0, in \<open>Sleep\<close>, and returned with a result.
\<close>

datatype once_pc = Outside | Switch | Swap | Calling | Store_ok | Store_fail | Sleeping | Returned bool

text \<open>\<open>successes\<close> and \<open>calls\<close> are ghosts: how often \<open>InitFn\<close> returned TRUE, and how often it was called.\<close>

record 't once =
  Ptr :: u64
  pc_of :: "'t \<Rightarrow> once_pc"
  successes :: nat
  calls :: nat

definition goto :: "'t \<Rightarrow> once_pc \<Rightarrow> 't once \<Rightarrow> 't once" where
  "goto t p s = s\<lparr>pc_of := (pc_of s)(t := p)\<rparr>"

text \<open>One step of thread \<open>t\<close>; \<open>result\<close> is what \<open>InitFn\<close> returns if it is running.\<close>

definition winpr_InitOnceExecuteOnce :: "bool \<Rightarrow> 't \<Rightarrow> 't once \<Rightarrow> 't once option" where
  "winpr_InitOnceExecuteOnce result t s =
     (case pc_of s t of
        Switch \<Rightarrow>
          (if Ptr s AND 3 = 2 then Some (goto t (Returned True) s)
           else if Ptr s AND 3 = 0 then Some (goto t Swap s)
           else if Ptr s AND 3 = 1 then Some (goto t Sleeping s)
           else Some (goto t (Returned False) s))
      | Swap \<Rightarrow>
          (if Ptr s = 0 then Some (goto t Calling (s\<lparr>Ptr := 1, calls := calls s + 1\<rparr>))
           else Some (goto t Sleeping s))
      | Calling \<Rightarrow>
          (if result then Some (goto t Store_ok (s\<lparr>successes := successes s + 1\<rparr>))
           else Some (goto t Store_fail s))
      | Store_ok \<Rightarrow> Some (goto t (Returned True) (s\<lparr>Ptr := 2\<rparr>))
      | Store_fail \<Rightarrow> Some (goto t (Returned False) (s\<lparr>Ptr := 0\<rparr>))
      | Sleeping \<Rightarrow> Some (goto t Switch s)
      | Outside \<Rightarrow> None
      | Returned _ \<Rightarrow> None)"

inductive once_step :: "'t once \<Rightarrow> 't once \<Rightarrow> bool" where
  call: "pc_of s t \<in> {Outside, Returned True, Returned False} \<Longrightarrow> once_step s (goto t Switch s)"
| run: "winpr_InitOnceExecuteOnce result t s = Some s' \<Longrightarrow> once_step s s'"

inductive once_reachable :: "'t once \<Rightarrow> bool" where
  start: "Ptr s = 0 \<Longrightarrow> \<forall>t. pc_of s t = Outside \<Longrightarrow> successes s = 0 \<Longrightarrow> calls s = 0 \<Longrightarrow> once_reachable s"
| step: "once_reachable s \<Longrightarrow> once_step s s' \<Longrightarrow> once_reachable s'"

section \<open>Invariant\<close>

definition working :: "once_pc \<Rightarrow> bool" where
  "working p \<longleftrightarrow> p = Calling \<or> p = Store_ok \<or> p = Store_fail"

definition once_inv :: "'t once \<Rightarrow> bool" where
  "once_inv s \<longleftrightarrow>
     Ptr s \<in> {0, 1, 2} \<and>
     (\<forall>t. working (pc_of s t) \<longrightarrow> Ptr s = 1) \<and>
     (\<forall>t u. working (pc_of s t) \<and> working (pc_of s u) \<longrightarrow> t = u) \<and>
     (\<forall>t. pc_of s t = Store_ok \<longrightarrow> successes s = 1) \<and>
     (\<forall>t. pc_of s t = Returned True \<longrightarrow> Ptr s = 2) \<and>
     (Ptr s = 2 \<longrightarrow> successes s = 1) \<and>
     (successes s = 0 \<or> successes s = 1 \<and> (Ptr s = 2 \<or> (\<exists>t. pc_of s t = Store_ok)))"

lemma goto_simps [simp]:
  "pc_of (goto t p s) = (pc_of s)(t := p)" "Ptr (goto t p s) = Ptr s" "successes (goto t p s) = successes s"
  "calls (goto t p s) = calls s"
  by (simp_all add: goto_def)

lemma ptr_bits [simp]: "(0 :: u64) AND 3 = 0" "(1 :: u64) AND 3 = 1" "(2 :: u64) AND 3 = 2"
  by simp_all

lemma once_inv_start: "Ptr s = 0 \<Longrightarrow> \<forall>t. pc_of s t = Outside \<Longrightarrow> successes s = 0 \<Longrightarrow> once_inv s"
  by (simp add: once_inv_def working_def)

lemma once_inv_idle:
  assumes "once_inv s" and "\<not> working (pc_of s t)" and "\<not> working p" and "p = Returned True \<longrightarrow> Ptr s = 2"
  shows "once_inv (goto t p s)"
proof -
  have "pc_of s t \<noteq> Store_ok" "p \<noteq> Store_ok" using assms(2,3) by (auto simp: working_def)
  then show ?thesis using assms unfolding once_inv_def by auto
qed

lemma once_inv_take:
  assumes "once_inv s" and "\<not> working (pc_of s t)" and "Ptr s = 0"
  shows "once_inv (goto t Calling (s\<lparr>Ptr := 1, calls := n\<rparr>))"
proof -
  have n: "\<not> working (pc_of s u)" for u using assms(1,3) by (auto simp: once_inv_def)
  then have "pc_of s u \<noteq> Store_ok" "pc_of s u \<noteq> Returned True" for u using assms(1,3) by (auto simp: once_inv_def working_def)
  then show ?thesis using assms n unfolding once_inv_def by auto
qed

lemma once_inv_working:
  assumes "once_inv s" and "working (pc_of s t)"
  shows "Ptr s = 1" and "u \<noteq> t \<Longrightarrow> \<not> working (pc_of s u)" and "successes s = (if pc_of s t = Store_ok then 1 else 0)"
    and "pc_of s u \<noteq> Returned True"
proof -
  show p: "Ptr s = 1" using assms by (auto simp: once_inv_def)
  show w: "u \<noteq> t \<Longrightarrow> \<not> working (pc_of s u)" for u using assms unfolding once_inv_def by blast
  show "pc_of s u \<noteq> Returned True" using assms(1) p by (auto simp: once_inv_def)
  have "successes s = 0" if "pc_of s t \<noteq> Store_ok"
  proof (rule ccontr)
    assume "successes s \<noteq> 0"
    then obtain v where v: "pc_of s v = Store_ok" using assms(1) p by (auto simp: once_inv_def)
    then have "v = t" using w [of v] by (auto simp: working_def)
    with v that show False by simp
  qed
  moreover have "pc_of s t = Store_ok \<Longrightarrow> successes s = 1" using assms(1) by (auto simp: once_inv_def)
  ultimately show "successes s = (if pc_of s t = Store_ok then 1 else 0)" by simp
qed

lemma once_inv_finish:
  assumes "once_inv s" and "working (pc_of s t)"
  shows "pc_of s t \<noteq> Store_ok \<Longrightarrow> once_inv (goto t Store_ok (s\<lparr>successes := successes s + 1\<rparr>))"
    and "pc_of s t \<noteq> Store_ok \<Longrightarrow> once_inv (goto t Store_fail s)"
    and "pc_of s t = Store_ok \<Longrightarrow> once_inv (goto t (Returned True) (s\<lparr>Ptr := 2\<rparr>))"
    and "pc_of s t \<noteq> Store_ok \<Longrightarrow> once_inv (goto t (Returned False) (s\<lparr>Ptr := 0\<rparr>))"
proof -
  note w = once_inv_working [OF assms]
  have o: "pc_of s u \<noteq> Store_ok" "\<not> working (pc_of s u)" if "u \<noteq> t" for u using w(2) [OF that] by (auto simp: working_def)
  show "pc_of s t \<noteq> Store_ok \<Longrightarrow> once_inv (goto t Store_ok (s\<lparr>successes := successes s + 1\<rparr>))"
    using w o unfolding once_inv_def by (auto split: if_splits)
  show "pc_of s t \<noteq> Store_ok \<Longrightarrow> once_inv (goto t Store_fail s)"
    using w o unfolding once_inv_def by (auto split: if_splits)
  show "pc_of s t = Store_ok \<Longrightarrow> once_inv (goto t (Returned True) (s\<lparr>Ptr := 2\<rparr>))"
    using w o unfolding once_inv_def by (auto simp: working_def split: if_splits)
  show "pc_of s t \<noteq> Store_ok \<Longrightarrow> once_inv (goto t (Returned False) (s\<lparr>Ptr := 0\<rparr>))"
    using w o unfolding once_inv_def by (auto simp: working_def split: if_splits)
qed

lemma once_inv_run:
  assumes "once_inv s"
  shows "case winpr_InitOnceExecuteOnce result t s of None \<Rightarrow> True | Some s' \<Rightarrow> once_inv s'"
proof (cases "pc_of s t")
  case Switch
  moreover have "Ptr s \<in> {0, 1, 2}" using assms by (simp add: once_inv_def)
  ultimately show ?thesis
    using once_inv_idle [OF assms, of t "Returned True"] once_inv_idle [OF assms, of t Swap] once_inv_idle [OF assms, of t Sleeping]
    by (elim insertE emptyE) (simp_all add: winpr_InitOnceExecuteOnce_def working_def)
next
  case Swap
  then show ?thesis using once_inv_idle [OF assms, of t Sleeping] once_inv_take [OF assms, of t]
    by (simp add: winpr_InitOnceExecuteOnce_def working_def)
next
  case Calling
  then show ?thesis using once_inv_finish(1,2) [OF assms, of t] by (simp add: winpr_InitOnceExecuteOnce_def working_def)
next
  case Store_ok
  then show ?thesis using once_inv_finish(3) [OF assms, of t] by (simp add: winpr_InitOnceExecuteOnce_def working_def)
next
  case Store_fail
  then show ?thesis using once_inv_finish(4) [OF assms, of t] by (simp add: winpr_InitOnceExecuteOnce_def working_def)
next
  case Sleeping
  then show ?thesis using once_inv_idle [OF assms, of t Switch] by (simp add: winpr_InitOnceExecuteOnce_def working_def)
qed (simp_all add: winpr_InitOnceExecuteOnce_def)

lemma once_inv_step:
  assumes "once_inv s" and "once_step s s'"
  shows "once_inv s'"
  using assms(2)
proof cases
  case (call t)
  then show ?thesis using once_inv_idle [OF assms(1), of t Switch] by (auto simp: working_def)
next
  case (run result t)
  then show ?thesis using once_inv_run [OF assms(1), of result t] by simp
qed

lemma calls_after_success:
  assumes "once_inv s" and "successes s = 1" and "once_step s s'"
  shows "calls s' = calls s"
  using assms(3)
proof cases
  case (call t)
  then show ?thesis by simp
next
  case (run result t)
  have "Ptr s \<noteq> 0"
  proof
    assume "Ptr s = 0"
    moreover from this obtain u where "pc_of s u = Store_ok" using assms(1,2) by (auto simp: once_inv_def)
    ultimately show False using assms(1) unfolding once_inv_def working_def by fastforce
  qed
  then have "case winpr_InitOnceExecuteOnce result t s of None \<Rightarrow> True | Some s' \<Rightarrow> calls s' = calls s"
    by (cases "pc_of s t") (simp_all add: winpr_InitOnceExecuteOnce_def)
  then show ?thesis using run by simp
qed

lemma once_reachable_inv: "once_reachable s \<Longrightarrow> once_inv s"
  by (induction rule: once_reachable.induct) (auto intro: once_inv_start once_inv_step)

section \<open>Properties\<close>

text \<open>
  C9: one-time initialisation. In every reachable state of any number of threads, at most one thread is
  inside \<open>InitFn\<close>, \<open>InitFn\<close> has returned TRUE at most once and is not called again afterwards, and a thread
  that returned TRUE did so after that success.
\<close>

theorem init_once_exactly_once:
  assumes "once_reachable s"
  shows "(\<forall>t u. pc_of s t = Calling \<and> pc_of s u = Calling \<longrightarrow> t = u) \<and> successes s \<le> 1 \<and>
    (\<forall>t. pc_of s t = Returned True \<longrightarrow> successes s = 1) \<and>
    (successes s = 1 \<longrightarrow> (\<forall>s'. once_step s s' \<longrightarrow> calls s' = calls s))"
proof -
  have inv: "once_inv s" using assms by (rule once_reachable_inv)
  have "t = u" if "pc_of s t = Calling" "pc_of s u = Calling" for t u
    using inv that unfolding once_inv_def by (metis working_def)
  moreover have "successes s \<le> 1" using inv by (auto simp: once_inv_def)
  moreover have "successes s = 1" if "pc_of s t = Returned True" for t using inv that by (auto simp: once_inv_def)
  ultimately show ?thesis using calls_after_success [OF inv] by blast
qed

definition once_demo :: "nat once" where
  "once_demo = \<lparr>Ptr = 2, pc_of = (\<lambda>_. Outside)(0 := Returned True), successes = 1, calls = 1\<rparr>"

lemma once_demo_reachable: "once_reachable once_demo"
proof -
  let ?s = "\<lambda>v p n c. \<lparr>Ptr = v, pc_of = (\<lambda>_. Outside)(0 := p), successes = n, calls = c\<rparr> :: nat once"
  have run: "once_reachable (?s v p n c) \<Longrightarrow> winpr_InitOnceExecuteOnce True 0 (?s v p n c) = Some (?s v' p' n' c') \<Longrightarrow>
    once_reachable (?s v' p' n' c')" for v p n c v' p' n' c' by (meson once_reachable.step once_step.run)
  have 0: "once_reachable (?s 0 Outside 0 0)" by (rule once_reachable.start) simp_all
  have "once_step (?s 0 Outside 0 0) (?s 0 Switch 0 0)"
    using once_step.call [of "?s 0 Outside 0 0" 0] by (simp add: goto_def)
  then have "once_reachable (?s 0 Switch 0 0)" using 0 once_reachable.step by blast
  from run [OF this, of 0 Swap 0 0] have "once_reachable (?s 0 Swap 0 0)" by (simp add: winpr_InitOnceExecuteOnce_def goto_def)
  from run [OF this, of 1 Calling 0 1] have "once_reachable (?s 1 Calling 0 1)" by (simp add: winpr_InitOnceExecuteOnce_def goto_def)
  from run [OF this, of 1 Store_ok 1 1] have "once_reachable (?s 1 Store_ok 1 1)" by (simp add: winpr_InitOnceExecuteOnce_def goto_def)
  from run [OF this, of 2 "Returned True" 1 1] show ?thesis by (simp add: winpr_InitOnceExecuteOnce_def goto_def once_demo_def)
qed

theorem init_once_exactly_once_witness:
  "pc_of once_demo 0 = Returned True \<and> successes once_demo = 1 \<and> {s'. once_step once_demo s' \<and> calls s' \<noteq> calls once_demo} = {}"
proof -
  note done_ = init_once_exactly_once [OF once_demo_reachable]
  have ret: "pc_of once_demo 0 = Returned True" by (simp add: once_demo_def)
  then have one: "successes once_demo = 1" using done_ by blast
  then have "{s'. once_step once_demo s' \<and> calls s' \<noteq> calls once_demo} = {}" using done_ by blast
  then show ?thesis using ret one by blast
qed



end
