(* ===== verification/Descriptors.thy ===== *)
theory Descriptors
  imports Uzi_Prelude
begin

text \<open>
  What the synchronisation objects use of the operating system: the table of file descriptors with event
  counters, pipes and timers, the calls \<open>read\<close>, \<open>write\<close>, \<open>close\<close>, \<open>poll\<close> on them, and the kernel objects of
  src/libuzi/handle.h, src/libuzi/synch.h and src/libuzi/thread.h that live in the heap.
\<close>

section \<open>Outcomes\<close>

text \<open>
  A call returns a value, or never returns because nothing can wake it (\<open>Blocks\<close>), or its effect is not
  determined by the sources (\<open>Undefined\<close>): access to memory that is not allocated, or I/O on a descriptor
  that belongs to the application.
\<close>

datatype 'a outcome = Done 'a | Blocks | Undefined

fun and_then :: "'a outcome \<Rightarrow> ('a \<Rightarrow> 'b outcome) \<Rightarrow> 'b outcome" where
  "and_then (Done x) f = f x"
| "and_then Blocks f = Blocks"
| "and_then Undefined f = Undefined"

lemma and_then_Done_iff: "and_then x f = Done y \<longleftrightarrow> (\<exists>z. x = Done z \<and> f z = Done y)"
  by (cases x) auto

section \<open>Files\<close>

record timespec =
  tv_sec :: int
  tv_nsec :: int

record itimerspec =
  it_interval :: timespec
  it_value :: timespec

text \<open>
  \<open>Eventfd n\<close> is an event counter with value \<open>n\<close>; \<open>PipeRead p\<close> and \<open>PipeWrite p\<close> are the ends of pipe \<open>p\<close>;
  \<open>Timerfd t n\<close> is a timer set to \<open>t\<close> with \<open>n\<close> unread expirations; \<open>Foreign r w\<close> is a descriptor of the
  application that is readable if \<open>r\<close> and writable if \<open>w\<close>.
\<close>

datatype ofile = Eventfd nat | PipeRead nat | PipeWrite nat | Timerfd itimerspec nat | Foreign bool bool

record pipe =
  bytes :: nat
  reader_open :: bool
  writer_open :: bool

abbreviation EVENTFD_MAX :: nat where "EVENTFD_MAX \<equiv> 2 ^ 64 - 2"
abbreviation PIPE_CAPACITY :: nat where "PIPE_CAPACITY \<equiv> 65536"
abbreviation PIPE_BUF :: nat where "PIPE_BUF \<equiv> 4096"

section \<open>Kernel objects\<close>

text \<open>
  The structures behind a handle. The \<open>Type\<close> field is the constructor of \<open>kobject\<close> and the \<open>ops\<close> table is
  determined by it. A recursive pthread mutex is its owner and its count.
\<close>

record WINPR_EVENT =
  Mode :: ULONG
  pipe_fd0 :: int
  pipe_fd1 :: int
  bAttached :: bool
  bManualReset :: bool

record WINPR_SEMAPHORE =
  sem_Mode :: ULONG
  sem_fd0 :: int
  sem_fd1 :: int

record WINPR_MUTEX =
  mux_Mode :: ULONG
  mux_owner :: "nat option"
  mux_count :: nat

record WINPR_TIMER =
  tmr_Mode :: ULONG
  tmr_fd :: int
  bInit :: bool
  lPeriod :: LONG
  tmr_bManualReset :: bool
  pfnCompletionRoutine :: addr
  lpArgToCompletionRoutine :: addr
  tmr_timeout :: itimerspec

record WINPR_THREAD =
  thr_Mode :: ULONG
  started :: bool
  thr_fd0 :: int
  thr_fd1 :: int
  detached :: bool
  joined :: bool
  exited :: bool
  dwExitCode :: DWORD
  pthread :: nat
  lpParameter :: addr
  lpStartAddress :: addr

datatype kobject = is_EventObject: EventObject (the_event: WINPR_EVENT)
  | is_SemaphoreObject: SemaphoreObject (the_semaphore: WINPR_SEMAPHORE)
  | is_MutexObject: MutexObject (the_mutex: WINPR_MUTEX)
  | is_TimerObject: TimerObject (the_timer: WINPR_TIMER)
  | is_ThreadObject: ThreadObject (the_thread: WINPR_THREAD)

text \<open>
  The state of a process: descriptors, pipes, heap objects, the error variable of src/libuzi/error.c,
  the dictionary of running threads of src/libuzi/thread.c, from a pthread to its object, and the flag of
  src/libuzi/timer.c that the signal handler of timers is installed.
\<close>

record os =
  fds :: "int \<rightharpoonup> ofile"
  pipes :: "pipe list"
  objects :: "addr \<rightharpoonup> kobject"
  g_LastError :: DWORD
  thread_list :: "(nat \<times> addr) list option"
  handler_installed :: bool

section \<open>Constants\<close>

abbreviation INVALID_HANDLE_VALUE :: addr where "INVALID_HANDLE_VALUE \<equiv> 0xFFFFFFFFFFFFFFFF"
abbreviation UZI_FD_READ :: ULONG where "UZI_FD_READ \<equiv> 1"
abbreviation UZI_FD_WRITE :: ULONG where "UZI_FD_WRITE \<equiv> 2"
abbreviation WAIT_OBJECT_0 :: DWORD where "WAIT_OBJECT_0 \<equiv> 0"
abbreviation WAIT_TIMEOUT :: DWORD where "WAIT_TIMEOUT \<equiv> 0x102"
abbreviation WAIT_FAILED :: DWORD where "WAIT_FAILED \<equiv> 0xFFFFFFFF"
abbreviation INFINITE :: DWORD where "INFINITE \<equiv> 0xFFFFFFFF"
abbreviation ERROR_INVALID_HANDLE :: DWORD where "ERROR_INVALID_HANDLE \<equiv> 6"
abbreviation ERROR_INTERNAL_ERROR :: DWORD where "ERROR_INTERNAL_ERROR \<equiv> 0x54F"
abbreviation POLLIN :: u16 where "POLLIN \<equiv> 1"
abbreviation POLLOUT :: u16 where "POLLOUT \<equiv> 4"
abbreviation POLLERR :: u16 where "POLLERR \<equiv> 8"
abbreviation POLLHUP :: u16 where "POLLHUP \<equiv> 16"
abbreviation POLLNVAL :: u16 where "POLLNVAL \<equiv> 32"

section \<open>System calls\<close>

text \<open>\<open>close\<close>: the descriptor becomes free; closing an end of a pipe is visible at the other end.\<close>

definition sys_close :: "int \<Rightarrow> os \<Rightarrow> os" where
  "sys_close fd s =
     (case fds s fd of
        Some (PipeRead p) \<Rightarrow> s\<lparr>fds := (fds s)(fd := None), pipes := (pipes s)[p := (pipes s ! p)\<lparr>reader_open := False\<rparr>]\<rparr>
      | Some (PipeWrite p) \<Rightarrow> s\<lparr>fds := (fds s)(fd := None), pipes := (pipes s)[p := (pipes s ! p)\<lparr>writer_open := False\<rparr>]\<rparr>
      | Some _ \<Rightarrow> s\<lparr>fds := (fds s)(fd := None)\<rparr>
      | None \<Rightarrow> s)"

text \<open>
  \<open>pipe\<close> and \<open>eventfd\<close>: the descriptors they return are parameters of the callers; a successful call
  installs the file.
\<close>

definition sys_pipe :: "int \<Rightarrow> int \<Rightarrow> os \<Rightarrow> os" where
  "sys_pipe r w s = s\<lparr>fds := (fds s)(r \<mapsto> PipeRead (length (pipes s)), w \<mapsto> PipeWrite (length (pipes s))),
     pipes := pipes s @ [\<lparr>bytes = 0, reader_open = True, writer_open = True\<rparr>]\<rparr>"

definition sys_eventfd :: "int \<Rightarrow> os \<Rightarrow> os" where
  "sys_eventfd fd s = s\<lparr>fds := (fds s)(fd \<mapsto> Eventfd 0)\<rparr>"

text \<open>\<open>write\<close> of \<open>n\<close> bytes to a pipe, where \<open>n \<le> PIPE_BUF\<close> is atomic; the result is the number of bytes, or -1.\<close>

definition sys_write :: "int \<Rightarrow> nat \<Rightarrow> os \<Rightarrow> (int \<times> os) outcome" where
  "sys_write fd n s =
     (case fds s fd of
        Some (PipeWrite p) \<Rightarrow>
          if \<not> reader_open (pipes s ! p) then Undefined
          else if bytes (pipes s ! p) + n \<le> PIPE_CAPACITY
          then Done (int n, s\<lparr>pipes := (pipes s)[p := (pipes s ! p)\<lparr>bytes := bytes (pipes s ! p) + n\<rparr>]\<rparr>)
          else Blocks
      | Some (Foreign _ _) \<Rightarrow> Undefined
      | _ \<Rightarrow> Done (- 1, s))"

text \<open>\<open>read\<close> of up to \<open>n\<close> bytes.\<close>

definition sys_read :: "int \<Rightarrow> nat \<Rightarrow> os \<Rightarrow> (int \<times> os) outcome" where
  "sys_read fd n s =
     (case fds s fd of
        Some (PipeRead p) \<Rightarrow>
          if bytes (pipes s ! p) = 0 then (if writer_open (pipes s ! p) then Blocks else Done (0, s))
          else let k = min n (bytes (pipes s ! p)) in
            Done (int k, s\<lparr>pipes := (pipes s)[p := (pipes s ! p)\<lparr>bytes := bytes (pipes s ! p) - k\<rparr>]\<rparr>)
      | Some (Eventfd c) \<Rightarrow> if n < 8 \<or> c = 0 then Done (- 1, s) else Done (8, s\<lparr>fds := (fds s)(fd \<mapsto> Eventfd 0)\<rparr>)
      | Some (Timerfd t c) \<Rightarrow> if n < 8 \<or> c = 0 then Done (- 1, s) else Done (8, s\<lparr>fds := (fds s)(fd \<mapsto> Timerfd t 0)\<rparr>)
      | Some (Foreign _ _) \<Rightarrow> Undefined
      | _ \<Rightarrow> Done (- 1, s))"

text \<open>
  \<open>eventfd_write\<close> and \<open>eventfd_read\<close> of src/libuzi/event.c: eight bytes, 0 on success and -1 otherwise.
  The counters are created with \<open>EFD_NONBLOCK\<close>, so a call on one is not interrupted.
\<close>

definition eventfd_write :: "int \<Rightarrow> nat \<Rightarrow> os \<Rightarrow> (int \<times> os) outcome" where
  "eventfd_write fd v s =
     (case fds s fd of
        Some (Eventfd c) \<Rightarrow> if c + v \<le> EVENTFD_MAX then Done (0, s\<lparr>fds := (fds s)(fd \<mapsto> Eventfd (c + v))\<rparr>) else Done (- 1, s)
      | _ \<Rightarrow> and_then (sys_write fd 8 s) (\<lambda>(n, s'). Done (if n = 8 then 0 else - 1, s')))"

definition eventfd_read :: "int \<Rightarrow> os \<Rightarrow> (int \<times> os) outcome" where
  "eventfd_read fd s = and_then (sys_read fd 8 s) (\<lambda>(n, s'). Done (if n = 8 then 0 else - 1, s'))"

text \<open>
  \<open>poll\<close> on one entry: the returned events are the requested ones that hold, and \<open>POLLERR\<close>, \<open>POLLHUP\<close>,
  \<open>POLLNVAL\<close> whether requested or not. A negative descriptor is ignored.
\<close>

definition flag :: "bool \<Rightarrow> u16 \<Rightarrow> u16" where
  "flag b w = (if b then w else 0)"

definition readiness :: "ofile \<Rightarrow> os \<Rightarrow> u16" where
  "readiness f s =
     (case f of
        Eventfd c \<Rightarrow> flag (0 < c) POLLIN OR flag (c < EVENTFD_MAX) POLLOUT
      | PipeRead p \<Rightarrow> flag (0 < bytes (pipes s ! p)) POLLIN OR flag (\<not> writer_open (pipes s ! p)) POLLHUP
      | PipeWrite p \<Rightarrow> flag (bytes (pipes s ! p) + PIPE_BUF \<le> PIPE_CAPACITY) POLLOUT OR flag (\<not> reader_open (pipes s ! p)) POLLERR
      | Timerfd t c \<Rightarrow> flag (0 < c) POLLIN
      | Foreign r w \<Rightarrow> flag r POLLIN OR flag w POLLOUT)"

definition revents :: "os \<Rightarrow> int \<times> u16 \<Rightarrow> u16" where
  "revents s pfd =
     (if fst pfd < 0 then 0
      else case fds s (fst pfd) of
        None \<Rightarrow> POLLNVAL
      | Some f \<Rightarrow> readiness f s AND (snd pfd OR POLLERR OR POLLHUP OR POLLNVAL))"

text \<open>
  A blocked \<open>poll\<close> lets the other threads run: \<open>env\<close> lists their actions until the time-out expires. The
  time-out is an \<^verbatim>\<open>int\<close>: a negative one means to wait without limit. An interrupted call is restarted,
  which is an action that changes nothing. The result is the number of entries with events.
\<close>

definition poll_count :: "os \<Rightarrow> (int \<times> u16) list \<Rightarrow> nat" where
  "poll_count s pfds = length (filter (\<lambda>p. revents s p \<noteq> 0) pfds)"

fun sys_poll :: "(int \<times> u16) list \<Rightarrow> DWORD \<Rightarrow> (os \<Rightarrow> os) list \<Rightarrow> os \<Rightarrow> (int \<times> os \<times> (os \<Rightarrow> os) list) outcome" where
  "sys_poll pfds ms env s =
     (if 0 < poll_count s pfds then Done (int (poll_count s pfds), s, env)
      else if ms = 0 then Done (0, s, env)
      else case env of
        [] \<Rightarrow> if sint ms < 0 then Blocks else Done (0, s, [])
      | act # env' \<Rightarrow> sys_poll pfds ms env' (act s))"

declare sys_poll.simps [simp del]

section \<open>Handles and errors\<close>

text \<open>src/libuzi/error.c.\<close>

definition GetLastError :: "os \<Rightarrow> DWORD" where
  "GetLastError s = g_LastError s"

definition SetLastError :: "DWORD \<Rightarrow> os \<Rightarrow> os" where
  "SetLastError dwErrCode s = s\<lparr>g_LastError := dwErrCode\<rparr>"

text \<open>\<open>winpr_Handle_GetInfo\<close>: \<open>None\<close> for the two invalid handles, else the object it points to.\<close>

definition winpr_Handle_GetInfo :: "addr \<Rightarrow> os \<Rightarrow> kobject option outcome" where
  "winpr_Handle_GetInfo handle s =
     (if handle = NULL \<or> handle = INVALID_HANDLE_VALUE then Done None
      else case objects s handle of None \<Rightarrow> Undefined | Some ob \<Rightarrow> Done (Some ob))"

fun Object_Mode :: "kobject \<Rightarrow> ULONG" where
  "Object_Mode (EventObject e) = Mode e"
| "Object_Mode (SemaphoreObject m) = sem_Mode m"
| "Object_Mode (MutexObject m) = mux_Mode m"
| "Object_Mode (TimerObject t) = tmr_Mode t"
| "Object_Mode (ThreadObject t) = thr_Mode t"

text \<open>
  The field at the offset of \<open>pipe_fd[0]\<close> in an event, whatever the handle refers to: semaphores and timers
  have their descriptor there, a thread has the flag \<open>started\<close>, a mutex has bytes of its implementation.
\<close>

fun event_fd0 :: "kobject \<Rightarrow> int outcome" where
  "event_fd0 (EventObject e) = Done (pipe_fd0 e)"
| "event_fd0 (SemaphoreObject m) = Done (sem_fd0 m)"
| "event_fd0 (TimerObject t) = Done (tmr_fd t)"
| "event_fd0 (ThreadObject t) = Done (if started t then 1 else 0)"
| "event_fd0 (MutexObject m) = Undefined"

section \<open>Lemmas\<close>

lemma revents_mask [simp]:
  "flag b w AND m = flag (b \<and> w AND m \<noteq> 0) (w AND m)"
  "flag False w = 0" "flag True w = w"
  by (auto simp: flag_def)

lemma GetInfo_valid [simp]:
  "objects s h = Some ob \<Longrightarrow> h \<noteq> NULL \<Longrightarrow> h \<noteq> INVALID_HANDLE_VALUE \<Longrightarrow> winpr_Handle_GetInfo h s = Done (Some ob)"
  by (simp add: winpr_Handle_GetInfo_def)

lemma GetInfo_invalid [simp]:
  "winpr_Handle_GetInfo NULL s = Done None" "winpr_Handle_GetInfo INVALID_HANDLE_VALUE s = Done None"
  by (simp_all add: winpr_Handle_GetInfo_def)

text \<open>\<open>poll\<close> returns at once when an entry is ready, and with the time-out 0.\<close>

lemma sys_poll_ready: "0 < poll_count s pfds \<Longrightarrow> sys_poll pfds ms env s = Done (int (poll_count s pfds), s, env)"
  by (subst sys_poll.simps) simp

lemma sys_poll_zero: "sys_poll pfds 0 env s = Done (int (poll_count s pfds), s, env)"
  by (subst sys_poll.simps) simp

lemma poll_count_single [simp]: "poll_count s [p] = (if revents s p \<noteq> 0 then 1 else 0)"
  by (simp add: poll_count_def)

end
