(* ===== verification/Handle_Ops.thy ===== *)
theory Handle_Ops
  imports Descriptors
begin

text \<open>
  The operation tables of the handle types (the \<open>ops\<close> of src/libuzi/event.c, semaphore.c, mutex.c, timer.c
  and thread.c) and the functions of src/libuzi/handle.h that call through them.
\<close>

section \<open>IsHandled\<close>

text \<open>The check that every operation of a type makes on its argument.\<close>

definition is_handled :: "(kobject \<Rightarrow> bool) \<Rightarrow> addr \<Rightarrow> os \<Rightarrow> (bool \<times> os) outcome" where
  "is_handled of_type handle s =
     (if handle = NULL then Done (False, SetLastError ERROR_INVALID_HANDLE s)
      else case objects s handle of
        None \<Rightarrow> Undefined
      | Some ob \<Rightarrow> if of_type ob then Done (True, s) else Done (False, SetLastError ERROR_INVALID_HANDLE s))"

definition EventIsHandled :: "addr \<Rightarrow> os \<Rightarrow> (bool \<times> os) outcome" where
  "EventIsHandled = is_handled is_EventObject"

definition SemaphoreIsHandled :: "addr \<Rightarrow> os \<Rightarrow> (bool \<times> os) outcome" where
  "SemaphoreIsHandled = is_handled is_SemaphoreObject"

definition MutexIsHandled :: "addr \<Rightarrow> os \<Rightarrow> (bool \<times> os) outcome" where
  "MutexIsHandled = is_handled is_MutexObject"

definition TimerIsHandled :: "addr \<Rightarrow> os \<Rightarrow> (bool \<times> os) outcome" where
  "TimerIsHandled = is_handled is_TimerObject"

definition ThreadIsHandled :: "addr \<Rightarrow> os \<Rightarrow> (bool \<times> os) outcome" where
  "ThreadIsHandled = is_handled is_ThreadObject"

lemmas IsHandled_defs =
  EventIsHandled_def SemaphoreIsHandled_def MutexIsHandled_def TimerIsHandled_def ThreadIsHandled_def is_handled_def

section \<open>GetFd\<close>

definition EventGetFd :: "addr \<Rightarrow> os \<Rightarrow> (int \<times> os) outcome" where
  "EventGetFd handle s = and_then (EventIsHandled handle s) (\<lambda>(ok, s).
     if \<not> ok then Done (- 1, s) else Done (pipe_fd0 (the_event (the (objects s handle))), s))"

definition SemaphoreGetFd :: "addr \<Rightarrow> os \<Rightarrow> (int \<times> os) outcome" where
  "SemaphoreGetFd handle s = and_then (SemaphoreIsHandled handle s) (\<lambda>(ok, s).
     if \<not> ok then Done (- 1, s) else Done (sem_fd0 (the_semaphore (the (objects s handle))), s))"

definition MutexGetFd :: "addr \<Rightarrow> os \<Rightarrow> (int \<times> os) outcome" where
  "MutexGetFd handle s = and_then (MutexIsHandled handle s) (\<lambda>(ok, s). Done (- 1, s))"

definition TimerGetFd :: "addr \<Rightarrow> os \<Rightarrow> (int \<times> os) outcome" where
  "TimerGetFd handle s = and_then (TimerIsHandled handle s) (\<lambda>(ok, s).
     if \<not> ok then Done (- 1, s) else Done (tmr_fd (the_timer (the (objects s handle))), s))"

definition ThreadGetFd :: "addr \<Rightarrow> os \<Rightarrow> (int \<times> os) outcome" where
  "ThreadGetFd handle s = and_then (ThreadIsHandled handle s) (\<lambda>(ok, s).
     if \<not> ok then Done (- 1, s) else Done (thr_fd0 (the_thread (the (objects s handle))), s))"

section \<open>CleanupHandle\<close>

definition SemaphoreCleanupHandle :: "addr \<Rightarrow> os \<Rightarrow> (DWORD \<times> os) outcome" where
  "SemaphoreCleanupHandle handle s = and_then (SemaphoreIsHandled handle s) (\<lambda>(ok, s).
     if \<not> ok then Done (WAIT_FAILED, s)
     else and_then (sys_read (sem_fd0 (the_semaphore (the (objects s handle)))) 1 s) (\<lambda>(length, s).
       if length \<noteq> 1 then Done (WAIT_FAILED, s) else Done (WAIT_OBJECT_0, s)))"

text \<open>A read of a timer descriptor fails with \<open>EAGAIN\<close> or \<open>EBADF\<close>, never with \<open>ETIMEDOUT\<close>.\<close>

definition TimerCleanupHandle :: "addr \<Rightarrow> os \<Rightarrow> (DWORD \<times> os) outcome" where
  "TimerCleanupHandle handle s = and_then (TimerIsHandled handle s) (\<lambda>(ok, s).
     if \<not> ok then Done (WAIT_FAILED, s)
     else and_then (sys_read (tmr_fd (the_timer (the (objects s handle)))) 8 s) (\<lambda>(length, s).
       if length \<noteq> 8 then Done (WAIT_FAILED, s) else Done (WAIT_OBJECT_0, s)))"

text \<open>
  \<open>pthread_join\<close> fails on a detached thread. The thread signals its descriptor as its last action, so the
  join of a signalled thread waits for its return only; the mutex of the object is free between calls.
\<close>

definition ThreadCleanupHandle :: "addr \<Rightarrow> os \<Rightarrow> (DWORD \<times> os) outcome" where
  "ThreadCleanupHandle handle s = and_then (ThreadIsHandled handle s) (\<lambda>(ok, s).
     if \<not> ok then Done (WAIT_FAILED, s)
     else let thread = the_thread (the (objects s handle)) in
       if \<not> joined thread then
         (if detached thread then Done (WAIT_FAILED, s)
          else Done (WAIT_OBJECT_0, s\<lparr>objects := (objects s)(handle \<mapsto> ThreadObject (thread\<lparr>joined := True\<rparr>))\<rparr>))
       else Done (WAIT_OBJECT_0, s))"

section \<open>Dispatch\<close>

text \<open>\<open>winpr_Handle_getFd\<close> and \<open>winpr_Handle_cleanup\<close>; events and mutexes have no cleanup function.\<close>

definition winpr_Handle_getFd :: "addr \<Rightarrow> os \<Rightarrow> (int \<times> os) outcome" where
  "winpr_Handle_getFd handle s = and_then (winpr_Handle_GetInfo handle s) (\<lambda>info.
     case info of
       None \<Rightarrow> Done (- 1, s)
     | Some (EventObject _) \<Rightarrow> EventGetFd handle s
     | Some (SemaphoreObject _) \<Rightarrow> SemaphoreGetFd handle s
     | Some (MutexObject _) \<Rightarrow> MutexGetFd handle s
     | Some (TimerObject _) \<Rightarrow> TimerGetFd handle s
     | Some (ThreadObject _) \<Rightarrow> ThreadGetFd handle s)"

definition winpr_Handle_cleanup :: "addr \<Rightarrow> os \<Rightarrow> (DWORD \<times> os) outcome" where
  "winpr_Handle_cleanup handle s = and_then (winpr_Handle_GetInfo handle s) (\<lambda>info.
     case info of
       None \<Rightarrow> Done (WAIT_FAILED, s)
     | Some (EventObject _) \<Rightarrow> Done (WAIT_OBJECT_0, s)
     | Some (SemaphoreObject _) \<Rightarrow> SemaphoreCleanupHandle handle s
     | Some (MutexObject _) \<Rightarrow> Done (WAIT_OBJECT_0, s)
     | Some (TimerObject _) \<Rightarrow> TimerCleanupHandle handle s
     | Some (ThreadObject _) \<Rightarrow> ThreadCleanupHandle handle s)"

section \<open>Lemmas\<close>

lemmas GetFd_defs = EventGetFd_def SemaphoreGetFd_def MutexGetFd_def TimerGetFd_def ThreadGetFd_def

lemmas Cleanup_defs = SemaphoreCleanupHandle_def TimerCleanupHandle_def ThreadCleanupHandle_def

text \<open>The descriptor an object is waited on.\<close>

fun object_fd :: "kobject \<Rightarrow> int" where
  "object_fd (EventObject e) = pipe_fd0 e"
| "object_fd (SemaphoreObject m) = sem_fd0 m"
| "object_fd (MutexObject m) = - 1"
| "object_fd (TimerObject t) = tmr_fd t"
| "object_fd (ThreadObject t) = thr_fd0 t"

text \<open>A handle to an allocated object.\<close>

definition handle_to :: "os \<Rightarrow> addr \<Rightarrow> kobject \<Rightarrow> bool" where
  "handle_to s h ob \<longleftrightarrow> h \<noteq> NULL \<and> h \<noteq> INVALID_HANDLE_VALUE \<and> objects s h = Some ob"

lemma GetInfo_handle: "handle_to s h ob \<Longrightarrow> winpr_Handle_GetInfo h s = Done (Some ob)"
  by (simp add: handle_to_def)

lemma getFd_handle: "handle_to s h ob \<Longrightarrow> winpr_Handle_getFd h s = Done (object_fd ob, s)"
  by (cases ob) (auto simp: winpr_Handle_getFd_def handle_to_def GetFd_defs IsHandled_defs)

lemma getFd_invalid: "h = NULL \<or> h = INVALID_HANDLE_VALUE \<Longrightarrow> winpr_Handle_getFd h s = Done (- 1, s)"
  by (auto simp: winpr_Handle_getFd_def)

end
