(* ===== verification/Wait.thy ===== *)
theory Wait
  imports Handle_Ops
begin

text \<open>
  src/libuzi/wait.c, in the configuration with \<open>poll\<close> and \<open>pthread_mutex_timedlock\<close>: \<open>WaitForSingleObject\<close>
  and \<open>WaitForMultipleObjects\<close>.
\<close>

section \<open>Time\<close>

text \<open>Seconds and nanoseconds fit the 64-bit \<^verbatim>\<open>time_t\<close> and \<^verbatim>\<open>long\<close>; differences are 64-bit words.\<close>

definition ts_ns :: "timespec \<Rightarrow> int" where
  "ts_ns t = tv_sec t * 1000000000 + tv_nsec t"

definition ts_difftime :: "timespec \<Rightarrow> timespec \<Rightarrow> u64" where
  "ts_difftime old new = word_of_int (tv_sec new * 1000000000 + tv_nsec new) - word_of_int (tv_sec old * 1000000000 + tv_nsec old)"

definition ts_add_ms :: "timespec \<Rightarrow> DWORD \<Rightarrow> timespec" where
  "ts_add_ms ts dwMilliseconds =
     (let ts = ts\<lparr>tv_sec := tv_sec ts + uint dwMilliseconds div 1000\<rparr>;
          ts = ts\<lparr>tv_nsec := tv_nsec ts + (uint dwMilliseconds mod 1000) * 1000000\<rparr>;
          ts = ts\<lparr>tv_sec := tv_sec ts + tv_nsec ts div 1000000000\<rparr>
      in ts\<lparr>tv_nsec := tv_nsec ts mod 1000000000\<rparr>)"

definition handle_mode_to_pollevent :: "ULONG \<Rightarrow> u16" where
  "handle_mode_to_pollevent mode =
     (if mode AND UZI_FD_READ \<noteq> 0 then POLLIN else 0) OR (if mode AND UZI_FD_WRITE \<noteq> 0 then POLLOUT else 0)"

section \<open>Surroundings of a wait\<close>

text \<open>
  \<open>others\<close> lists the actions of the other threads while the caller is blocked, up to the time-out;
  \<open>monotonic k\<close> and \<open>realtime k\<close> are the k-th readings of the two clocks.
\<close>

record surroundings =
  others :: "(os \<Rightarrow> os) list"
  monotonic :: "nat \<Rightarrow> timespec"
  realtime :: "nat \<Rightarrow> timespec"

section \<open>Mutexes\<close>

definition pthread_mutex_trylock :: "nat \<Rightarrow> WINPR_MUTEX \<Rightarrow> WINPR_MUTEX option" where
  "pthread_mutex_trylock tid m =
     (case mux_owner m of
        None \<Rightarrow> Some (m\<lparr>mux_owner := Some tid, mux_count := 1\<rparr>)
      | Some t \<Rightarrow> if t = tid then Some (m\<lparr>mux_count := mux_count m + 1\<rparr>) else None)"

definition pthread_mutex_unlock :: "nat \<Rightarrow> WINPR_MUTEX \<Rightarrow> WINPR_MUTEX option" where
  "pthread_mutex_unlock tid m =
     (if mux_owner m = Some tid
      then Some (if mux_count m \<le> 1 then m\<lparr>mux_owner := None, mux_count := 0\<rparr> else m\<lparr>mux_count := mux_count m - 1\<rparr>)
      else None)"

text \<open>Blocking acquisition: True when locked, False when the time-out expired first.\<close>

fun lock_loop :: "nat \<Rightarrow> addr \<Rightarrow> bool \<Rightarrow> (os \<Rightarrow> os) list \<Rightarrow> os \<Rightarrow> (bool \<times> os) outcome" where
  "lock_loop tid h timed env s =
     (case objects s h of
        Some (MutexObject m) \<Rightarrow>
          (case pthread_mutex_trylock tid m of
             Some m' \<Rightarrow> Done (True, s\<lparr>objects := (objects s)(h \<mapsto> MutexObject m')\<rparr>)
           | None \<Rightarrow> (case env of
               [] \<Rightarrow> if timed then Done (False, s) else Blocks
             | act # env' \<Rightarrow> lock_loop tid h timed env' (act s)))
      | _ \<Rightarrow> Undefined)"

declare lock_loop.simps [simp del]

text \<open>
  \<open>pthread_mutex_timedlock\<close> compares its absolute time-out with the realtime clock \<open>now\<close>; a lock that is
  free is taken whatever the time.
\<close>

definition pthread_mutex_timedlock :: "nat \<Rightarrow> addr \<Rightarrow> timespec \<Rightarrow> timespec \<Rightarrow> (os \<Rightarrow> os) list \<Rightarrow> os \<Rightarrow> (bool \<times> os) outcome" where
  "pthread_mutex_timedlock tid h abstime now env s =
     lock_loop tid h True (if ts_ns abstime \<le> ts_ns now then [] else env) s"

section \<open>WaitForSingleObject\<close>

definition waitOnFd :: "int \<Rightarrow> ULONG \<Rightarrow> DWORD \<Rightarrow> (os \<Rightarrow> os) list \<Rightarrow> os \<Rightarrow> (int \<times> os) outcome" where
  "waitOnFd fd mode dwMilliseconds env s =
     and_then (sys_poll [(fd, handle_mode_to_pollevent mode)] dwMilliseconds env s) (\<lambda>(status, s, _). Done (status, s))"

definition WaitForSingleObject :: "nat \<Rightarrow> surroundings \<Rightarrow> addr \<Rightarrow> DWORD \<Rightarrow> os \<Rightarrow> (DWORD \<times> os) outcome" where
  "WaitForSingleObject tid w hHandle dwMilliseconds s = and_then (winpr_Handle_GetInfo hHandle s) (\<lambda>info.
     case info of
       None \<Rightarrow> Done (WAIT_FAILED, SetLastError ERROR_INVALID_HANDLE s)
     | Some (MutexObject _) \<Rightarrow>
         if dwMilliseconds \<noteq> INFINITE then
           and_then (pthread_mutex_timedlock tid hHandle (ts_add_ms (monotonic w 0) dwMilliseconds) (realtime w 0) (others w) s)
             (\<lambda>(locked, s). if \<not> locked then Done (WAIT_TIMEOUT, s) else Done (WAIT_OBJECT_0, s))
         else and_then (lock_loop tid hHandle False (others w) s) (\<lambda>(_, s). Done (WAIT_OBJECT_0, s))
     | Some Object \<Rightarrow>
         and_then (winpr_Handle_getFd hHandle s) (\<lambda>(fd, s).
           if fd < 0 then Done (WAIT_FAILED, SetLastError ERROR_INVALID_HANDLE s)
           else and_then (waitOnFd fd (Object_Mode Object) dwMilliseconds (others w) s) (\<lambda>(status, s).
             if status < 0 then Done (WAIT_FAILED, SetLastError ERROR_INTERNAL_ERROR s)
             else if status \<noteq> 1 then Done (WAIT_TIMEOUT, s)
             else winpr_Handle_cleanup hHandle s)))"

section \<open>WaitForMultipleObjects\<close>

text \<open>The first loop fills the poll array: an entry holds the index in the handle array and the poll request.\<close>

fun fill_pollfds :: "bool \<Rightarrow> bool list \<Rightarrow> (nat \<times> addr) list \<Rightarrow> os \<Rightarrow> ((nat \<times> int \<times> u16) list option \<times> os) outcome" where
  "fill_pollfds bWaitAll signalled_idx [] s = Done (Some [], s)"
| "fill_pollfds bWaitAll signalled_idx ((index, h) # hs) s =
     (if bWaitAll \<and> signalled_idx ! index then fill_pollfds bWaitAll signalled_idx hs s
      else and_then (winpr_Handle_GetInfo h s) (\<lambda>info.
        case info of
          None \<Rightarrow> Done (None, SetLastError ERROR_INVALID_HANDLE s)
        | Some Object \<Rightarrow> and_then (winpr_Handle_getFd h s) (\<lambda>(fd, s).
            if fd = - 1 then Done (None, SetLastError ERROR_INVALID_HANDLE s)
            else and_then (fill_pollfds bWaitAll signalled_idx hs s) (\<lambda>(rest, s).
              Done (map_option ((#) (index, fd, handle_mode_to_pollevent (Object_Mode Object))) rest, s)))))"

text \<open>The scan for the first handle that is not yet signalled.\<close>

definition advance_signalled :: "bool list \<Rightarrow> nat \<Rightarrow> nat" where
  "advance_signalled signalled_idx signalled = signalled + length (takeWhile (\<lambda>b. b) (drop signalled signalled_idx))"

text \<open>
  The second loop looks at the entries that were polled, given with the events they returned among the
  requested ones. It returns a value (\<open>Inl\<close>) or goes on with its variables (\<open>Inr\<close>).
\<close>

fun check_signalled :: "bool \<Rightarrow> nat \<Rightarrow> addr list \<Rightarrow> (nat \<times> nat \<times> u16) list \<Rightarrow> bool list \<Rightarrow> nat \<Rightarrow> bool \<Rightarrow> os
    \<Rightarrow> ((DWORD + bool list \<times> nat \<times> bool) \<times> os) outcome" where
  "check_signalled bWaitAll nCount lpHandles [] signalled_idx signalled signal_handled s =
     Done (Inr (signalled_idx, signalled, signal_handled), s)"
| "check_signalled bWaitAll nCount lpHandles ((index, idx, signal_set) # rest) signalled_idx signalled signal_handled s =
     and_then (winpr_Handle_GetInfo (lpHandles ! idx) s) (\<lambda>info.
       case info of
         None \<Rightarrow> Done (Inl WAIT_FAILED, SetLastError ERROR_INVALID_HANDLE s)
       | Some Object \<Rightarrow> and_then (winpr_Handle_getFd (lpHandles ! idx) s) (\<lambda>(fd, s).
           if fd = - 1 then Done (Inl WAIT_FAILED, SetLastError ERROR_INVALID_HANDLE s)
           else if signal_set \<noteq> 0 then
             and_then (winpr_Handle_cleanup (lpHandles ! idx) s) (\<lambda>(rc, s).
               if rc \<noteq> WAIT_OBJECT_0 then Done (Inl rc, s)
               else if \<not> bWaitAll then Done (Inl (WAIT_OBJECT_0 + word_of_nat index), s)
               else let signalled_idx = signalled_idx[idx := True];
                        signalled = advance_signalled signalled_idx signalled
                    in if nCount \<le> signalled then Done (Inl WAIT_OBJECT_0, s)
                       else check_signalled bWaitAll nCount lpHandles rest signalled_idx signalled True s)
           else check_signalled bWaitAll nCount lpHandles rest signalled_idx signalled signal_handled s))"

text \<open>The entries with the returned events, and their positions in the poll array.\<close>

definition polled_events :: "os \<Rightarrow> (nat \<times> int \<times> u16) list \<Rightarrow> (nat \<times> nat \<times> u16) list" where
  "polled_events s entries = map (\<lambda>(index, idx, pfd). (index, idx, revents s pfd AND snd pfd)) (enumerate 0 entries)"

text \<open>
  The time that is left after a round: \<open>None\<close> when the code takes it to be used up. The readings \<open>2 k\<close> and
  \<open>2 k + 1\<close> of the clock are those of round \<open>k\<close>.
\<close>

definition remaining_time :: "bool \<Rightarrow> timespec \<Rightarrow> timespec \<Rightarrow> DWORD \<Rightarrow> DWORD option" where
  "remaining_time bWaitAll starttime timenow dwMilliseconds =
     (if bWaitAll \<and> dwMilliseconds \<noteq> INFINITE then
        let diff = ts_difftime timenow starttime in
        if diff div 1000 > ucast dwMilliseconds then None else Some (ucast (ucast dwMilliseconds - diff div 1000))
      else Some dwMilliseconds)"

text \<open>The main loop. \<open>fuel\<close> bounds the rounds; a call that has not returned after them is still waiting.\<close>

fun wait_loop :: "nat \<Rightarrow> nat \<Rightarrow> surroundings \<Rightarrow> bool \<Rightarrow> addr list \<Rightarrow> DWORD \<Rightarrow> bool list \<Rightarrow> nat \<Rightarrow> os \<Rightarrow> (DWORD \<times> os) outcome" where
  "wait_loop 0 k w bWaitAll handles dwMilliseconds signalled_idx signalled s = Blocks"
| "wait_loop (Suc fuel) k w bWaitAll handles dwMilliseconds signalled_idx signalled s =
     and_then (fill_pollfds bWaitAll signalled_idx (enumerate 0 handles) s) (\<lambda>(entries, s).
       case entries of
         None \<Rightarrow> Done (WAIT_FAILED, s)
       | Some entries \<Rightarrow> and_then (sys_poll (map snd entries) dwMilliseconds (others w) s) (\<lambda>(status, s, env).
           if status < 0 then Done (WAIT_FAILED, SetLastError ERROR_INTERNAL_ERROR s)
           else if status = 0 then Done (WAIT_TIMEOUT, s)
           else case remaining_time bWaitAll (monotonic w (2 * k)) (monotonic w (2 * k + 1)) dwMilliseconds of
               None \<Rightarrow> Done (WAIT_TIMEOUT, s)
             | Some dwMilliseconds \<Rightarrow>
                 and_then (check_signalled bWaitAll (length handles) handles (polled_events s entries) signalled_idx signalled False s)
                   (\<lambda>(r, s). case r of
                      Inl rc \<Rightarrow> Done (rc, s)
                    | Inr (signalled_idx, signalled, signal_handled) \<Rightarrow>
                        if bWaitAll \<or> \<not> signal_handled
                        then wait_loop fuel (Suc k) (w\<lparr>others := env\<rparr>) bWaitAll handles dwMilliseconds signalled_idx signalled s
                        else Done (WAIT_FAILED, SetLastError ERROR_INTERNAL_ERROR s))))"

definition WaitForMultipleObjects :: "nat \<Rightarrow> surroundings \<Rightarrow> DWORD \<Rightarrow> addr list \<Rightarrow> bool \<Rightarrow> DWORD \<Rightarrow> os \<Rightarrow> (DWORD \<times> os) outcome" where
  "WaitForMultipleObjects fuel w nCount lpHandles bWaitAll dwMilliseconds s =
     (if nCount = 0 \<or> 64 < nCount then Done (WAIT_FAILED, s)
      else if length lpHandles < unat nCount then Undefined
      else wait_loop fuel 0 w bWaitAll (take (unat nCount) lpHandles) dwMilliseconds (replicate (unat nCount) False) 0 s)"

end
