(* ===== verification/Waitable.thy ===== *)
theory Waitable
  imports Wait
begin

text \<open>
  The contract between src/libuzi/wait.c and the handle types: what \<open>GetFd\<close> and \<open>CleanupHandle\<close> promise of an
  object that can be waited on, the behaviour of the wait functions proved from it, and the proof that
  events, semaphores, waitable timers and threads keep it.
\<close>

text \<open>The entry of the poll array for a handle in a call on objects in known states.\<close>

definition entry_of :: "os \<Rightarrow> nat \<times> addr \<Rightarrow> nat \<times> int \<times> u16" where
  "entry_of s ih = (fst ih, object_fd (the (objects s (snd ih))), POLLIN)"

section \<open>The contract\<close>

text \<open>
  \<open>holds v h s\<close>: the object at handle \<open>h\<close> is in the abstract state \<open>v\<close>. Its descriptor is readable exactly when
  \<open>v\<close> is signalled, and the cleanup function succeeds then and takes \<open>v\<close> to \<open>consume v\<close>.
\<close>

locale handle_ops =
  fixes holds :: "'v \<Rightarrow> addr \<Rightarrow> os \<Rightarrow> bool"
    and signalled :: "'v \<Rightarrow> bool"
    and consume :: "'v \<Rightarrow> 'v"
  assumes ready: "holds v h s \<Longrightarrow> \<exists>ob. handle_to s h ob \<and> \<not> is_MutexObject ob \<and> 0 \<le> object_fd ob \<and> Object_Mode ob = UZI_FD_READ \<and>
      revents s (object_fd ob, POLLIN) = (if signalled v then POLLIN else 0)"
    and cleanup: "holds v h s \<Longrightarrow> signalled v \<Longrightarrow>
      \<exists>s'. winpr_Handle_cleanup h s = Done (WAIT_OBJECT_0, s') \<and> holds (consume v) h s'"
begin

lemma wait_single_split:
  assumes "holds v h s"
  shows "WaitForSingleObject tid w h ms s = (if signalled v then winpr_Handle_cleanup h s else WaitForSingleObject tid w h ms s)"
proof -
  obtain ob where ob: "handle_to s h ob" "\<not> is_MutexObject ob" "0 \<le> object_fd ob" "Object_Mode ob = UZI_FD_READ"
      "revents s (object_fd ob, POLLIN) = (if signalled v then POLLIN else 0)"
    using ready [OF assms] by blast
  then show ?thesis
    by (cases ob) (auto simp: WaitForSingleObject_def GetInfo_handle getFd_handle waitOnFd_def handle_mode_to_pollevent_def sys_poll_ready)
qed

text \<open>A wait on a signalled object succeeds at once, whatever the time-out, and consumes the signal.\<close>

lemma wait_signalled:
  assumes "holds v h s" "signalled v"
  shows "\<exists>s'. WaitForSingleObject tid w h ms s = Done (WAIT_OBJECT_0, s') \<and> holds (consume v) h s'"
  using wait_single_split [OF assms(1)] cleanup [OF assms] assms(2) by auto

text \<open>A poll of an object that is not signalled times out and changes nothing.\<close>

lemma wait_unsignalled:
  assumes "holds v h s" "\<not> signalled v"
  shows "WaitForSingleObject tid w h 0 s = Done (WAIT_TIMEOUT, s)"
proof -
  obtain ob where ob: "handle_to s h ob" "\<not> is_MutexObject ob" "0 \<le> object_fd ob" "Object_Mode ob = UZI_FD_READ"
      "revents s (object_fd ob, POLLIN) = 0"
    using ready [OF assms(1)] assms(2) by auto
  then show ?thesis
    by (cases ob) (auto simp: WaitForSingleObject_def GetInfo_handle getFd_handle waitOnFd_def handle_mode_to_pollevent_def sys_poll_zero)
qed

lemma fill_all:
  assumes "\<And>i h. (i, h) \<in> set hs \<Longrightarrow> \<exists>v. holds v h s"
  shows "fill_pollfds bWaitAll sig hs s = Done (Some (map (entry_of s) (filter (\<lambda>(i, h). \<not> (bWaitAll \<and> sig ! i)) hs)), s)"
  using assms
proof (induction hs)
  case (Cons ih hs)
  obtain i h where ih: "ih = (i, h)" by force
  have IH: "fill_pollfds bWaitAll sig hs s = Done (Some (map (entry_of s) (filter (\<lambda>(i, h). \<not> (bWaitAll \<and> sig ! i)) hs)), s)"
    using Cons by (meson list.set_intros(2))
  obtain v where "holds v h s" using Cons.prems ih by auto
  then obtain ob where "handle_to s h ob" "0 \<le> object_fd ob" "Object_Mode ob = UZI_FD_READ" using ready by blast
  then show ?case
    by (cases "bWaitAll \<and> sig ! i")
      (use IH in \<open>simp add: ih\<close>, simp add: IH ih GetInfo_handle getFd_handle handle_mode_to_pollevent_def, auto simp: entry_of_def handle_to_def)
qed simp

lemma fill_none_signalled:
  assumes "\<And>i. i < length hs \<Longrightarrow> holds (vs ! i) (hs ! i) s"
  shows "fill_pollfds bWaitAll (replicate (length hs) False) (enumerate 0 hs) s = Done (Some (map (entry_of s) (enumerate 0 hs)), s)"
proof -
  have "filter (\<lambda>(i, h). \<not> (bWaitAll \<and> replicate (length hs) False ! i)) (enumerate 0 hs) = enumerate 0 hs"
    by (rule filter_True) (auto simp: in_set_enumerate_eq)
  then show ?thesis
    using fill_all [of "enumerate 0 hs" s bWaitAll "replicate (length hs) False"] assms by (auto simp: in_set_enumerate_eq)
qed

lemma entry_events:
  assumes "holds v h s"
  shows "revents s (snd (entry_of s (i, h))) = (if signalled v then POLLIN else 0)"
  using ready [OF assms] by (auto simp: entry_of_def handle_to_def)

text \<open>What the second loop sees when every handle is polled.\<close>

lemma polled_all:
  assumes "length vs = length hs" and "\<And>i. i < length hs \<Longrightarrow> holds (vs ! i) (hs ! i) s"
  shows "polled_events s (map (entry_of s) (enumerate 0 hs)) =
    map (\<lambda>i. (i, i, if signalled (vs ! i) then POLLIN else 0)) [0..<length hs]"
proof (rule nth_equalityI)
  fix i assume "i < length (polled_events s (map (entry_of s) (enumerate 0 hs)))"
  then have i: "i < length hs" by (simp add: polled_events_def)
  have "fst (entry_of s (i, hs ! i)) = i" "snd (snd (entry_of s (i, hs ! i))) = POLLIN" by (simp_all add: entry_of_def)
  then show "polled_events s (map (entry_of s) (enumerate 0 hs)) ! i =
      map (\<lambda>i. (i, i, if signalled (vs ! i) then POLLIN else 0)) [0..<length hs] ! i"
    using entry_events [OF assms(2) [OF i], of i] i by (simp add: polled_events_def nth_enumerate_eq split_beta)
qed (simp add: polled_events_def)

lemma poll_count_positive:
  assumes "length vs = length hs" and "\<And>i. i < length hs \<Longrightarrow> holds (vs ! i) (hs ! i) s" and "k < length hs" "signalled (vs ! k)"
  shows "0 < poll_count s (map snd (map (entry_of s) (enumerate 0 hs)))"
proof -
  let ?p = "snd (entry_of s (k, hs ! k))"
  have "(k, hs ! k) \<in> set (enumerate 0 hs)" using assms(3) by (simp add: in_set_enumerate_eq)
  moreover have "revents s ?p \<noteq> 0" using entry_events [OF assms(2) [OF assms(3)], of k] assms(4) by simp
  ultimately have "?p \<in> set (filter (\<lambda>p. revents s p \<noteq> 0) (map snd (map (entry_of s) (enumerate 0 hs))))" by force
  then show ?thesis unfolding poll_count_def by (metis length_pos_if_in_set)
qed

lemma check_skip:
  assumes "\<And>i idx e. (i, idx, e) \<in> set es \<Longrightarrow> e = 0 \<and> (\<exists>v. holds v (hs ! idx) s)"
  shows "check_signalled bWaitAll n hs (es @ rest) sig c b s = check_signalled bWaitAll n hs rest sig c b s"
  using assms
proof (induction es)
  case (Cons e es)
  obtain i idx ev where e: "e = (i, idx, ev)" by (cases e)
  then have ev: "ev = 0" and "\<exists>v. holds v (hs ! idx) s" using Cons.prems by auto
  then obtain ob where "handle_to s (hs ! idx) ob" "0 \<le> object_fd ob" using ready by blast
  moreover have "check_signalled bWaitAll n hs (es @ rest) sig c b s = check_signalled bWaitAll n hs rest sig c b s"
    using Cons by (meson list.set_intros(2))
  ultimately show ?case by (simp add: e ev GetInfo_handle getFd_handle)
qed simp

lemma check_hit:
  assumes "holds v (hs ! idx) s" "winpr_Handle_cleanup (hs ! idx) s = Done (WAIT_OBJECT_0, s')"
  shows "check_signalled bWaitAll n hs ((i, idx, POLLIN) # rest) sig c b s =
      (if \<not> bWaitAll then Done (Inl (word_of_nat i), s')
       else if n \<le> advance_signalled (sig[idx := True]) c then Done (Inl WAIT_OBJECT_0, s')
       else check_signalled bWaitAll n hs rest (sig[idx := True]) (advance_signalled (sig[idx := True]) c) True s')"
proof -
  obtain ob where "handle_to s (hs ! idx) ob" "0 \<le> object_fd ob" using ready [OF assms(1)] by blast
  then show ?thesis using assms(2) by (simp add: GetInfo_handle getFd_handle Let_def)
qed

text \<open>Waiting for any of several objects returns the first one that is signalled and consumes only that.\<close>

lemma wait_any:
  assumes len: "length vs = length hs" "0 < length hs" "length hs \<le> 64"
    and all: "\<And>i. i < length hs \<Longrightarrow> holds (vs ! i) (hs ! i) s"
    and k: "k < length hs" "signalled (vs ! k)" "\<And>i. i < k \<Longrightarrow> \<not> signalled (vs ! i)"
  shows "\<exists>s'. WaitForMultipleObjects (Suc fuel) w (word_of_nat (length hs)) hs False ms s = Done (word_of_nat k, s') \<and>
    winpr_Handle_cleanup (hs ! k) s = Done (WAIT_OBJECT_0, s') \<and> holds (consume (vs ! k)) (hs ! k) s'"
proof -
  let ?n = "length hs"
  let ?row = "\<lambda>i. (i, i, if signalled (vs ! i) then POLLIN else 0)"
  have n: "unat (word_of_nat ?n :: DWORD) = ?n" using len by (intro unat_of_nat_small) simp
  then have nz: "(word_of_nat ?n :: DWORD) \<noteq> 0" "\<not> 64 < (word_of_nat ?n :: DWORD)"
    using len by (auto simp: word_less_nat_alt unat_eq_zero)
  have fill: "fill_pollfds False (replicate ?n False) (enumerate 0 hs) s = Done (Some (map (entry_of s) (enumerate 0 hs)), s)"
    using fill_none_signalled all by blast
  have pos: "0 < poll_count s (map snd (map (entry_of s) (enumerate 0 hs)))"
    by (rule poll_count_positive [OF len(1) all k(1,2)])
  obtain s' where s': "winpr_Handle_cleanup (hs ! k) s = Done (WAIT_OBJECT_0, s')" "holds (consume (vs ! k)) (hs ! k) s'"
    using cleanup [OF all [OF k(1)] k(2)] by blast
  note hit = check_hit [OF all [OF k(1)] s'(1), of False ?n k]
  have "[0..<?n] = [0..<k] @ k # [Suc k..<?n]" using upt_add_eq_append [of 0 k "?n - k"] k(1) by (simp add: upt_conv_Cons)
  then have rows: "map ?row [0..<?n] = map ?row [0..<k] @ (k, k, POLLIN) # map ?row [Suc k..<?n]" using k(2) by simp
  have skip: "check_signalled False ?n hs (map ?row [0..<k] @ rest) sig c b s = check_signalled False ?n hs rest sig c b s" for rest sig c b
  proof (rule check_skip)
    fix i idx e assume "(i, idx, e) \<in> set (map ?row [0..<k])"
    then have "idx < k" "e = 0" using k(3) by auto
    then show "e = 0 \<and> (\<exists>v. holds v (hs ! idx) s)" using all [of idx] k(1) by auto
  qed
  have "check_signalled False ?n hs (map ?row [0..<?n]) sig c b s = Done (Inl (word_of_nat k), s')" for sig c b
    unfolding rows skip hit by simp
  then have "wait_loop (Suc fuel) 0 w False hs ms (replicate ?n False) 0 s = Done (word_of_nat k, s')"
    using pos by (simp add: fill sys_poll_ready polled_all [OF len(1) all] remaining_time_def)
  then show ?thesis using s' len n nz by (auto simp: WaitForMultipleObjects_def)
qed

text \<open>Waiting for all of several signalled objects with a time-out, when time passes during the call: a time-out.\<close>

lemma wait_all_timed:
  assumes len: "length vs = length hs" "0 < length hs" "length hs \<le> 64"
    and all: "\<And>i. i < length hs \<Longrightarrow> holds (vs ! i) (hs ! i) s" and k: "k < length hs" "signalled (vs ! k)"
    and used: "remaining_time True (monotonic w 0) (monotonic w 1) ms = None"
  shows "WaitForMultipleObjects (Suc fuel) w (word_of_nat (length hs)) hs True ms s = Done (WAIT_TIMEOUT, s)"
proof -
  let ?n = "length hs"
  have n: "unat (word_of_nat ?n :: DWORD) = ?n" using len by (intro unat_of_nat_small) simp
  then have nz: "(word_of_nat ?n :: DWORD) \<noteq> 0" "\<not> 64 < (word_of_nat ?n :: DWORD)"
    using len by (auto simp: word_less_nat_alt unat_eq_zero)
  have fill: "fill_pollfds True (replicate ?n False) (enumerate 0 hs) s = Done (Some (map (entry_of s) (enumerate 0 hs)), s)"
    using fill_none_signalled all by blast
  show ?thesis
    using poll_count_positive [OF len(1) all k] used
    by (simp add: WaitForMultipleObjects_def n nz fill sys_poll_ready)
qed

end

section \<open>Several objects\<close>

text \<open>
  Objects at separate handles do not share descriptors or pipes, so that consuming the signal of one leaves
  the others as they are.
\<close>

locale handle_ops_many = handle_ops +
  fixes separate :: "addr \<Rightarrow> addr \<Rightarrow> os \<Rightarrow> bool"
  assumes frame: "holds v h s \<Longrightarrow> signalled v \<Longrightarrow> winpr_Handle_cleanup h s = Done (rc, s') \<Longrightarrow> separate g h s \<Longrightarrow> holds u g s \<Longrightarrow> holds u g s'"
    and separate_stable: "holds v h s \<Longrightarrow> signalled v \<Longrightarrow> winpr_Handle_cleanup h s = Done (rc, s') \<Longrightarrow> separate a b s \<Longrightarrow> separate a b s'"
begin

lemma check_all:
  assumes "j < length hs" "\<And>i. i < length hs \<Longrightarrow> holds (if i < j then consume (vs ! i) else vs ! i) (hs ! i) s"
    and "\<And>i. i < length hs \<Longrightarrow> signalled (vs ! i)"
    and "\<And>i i'. i < length hs \<Longrightarrow> i' < length hs \<Longrightarrow> i \<noteq> i' \<Longrightarrow> separate (hs ! i) (hs ! i') s"
  shows "\<exists>s'. check_signalled True (length hs) hs (map (\<lambda>i. (i, i, POLLIN)) [j..<length hs])
      (replicate j True @ replicate (length hs - j) False) j b s = Done (Inl WAIT_OBJECT_0, s') \<and>
    (\<forall>i < length hs. holds (consume (vs ! i)) (hs ! i) s')"
  using assms
proof (induction "length hs - j" arbitrary: j b s)
  case (Suc m)
  let ?n = "length hs" and ?row = "\<lambda>i. (i, i, POLLIN)"
  have hj: "holds (vs ! j) (hs ! j) s" using Suc.prems(1,2) by (metis less_irrefl)
  obtain s' where s': "winpr_Handle_cleanup (hs ! j) s = Done (WAIT_OBJECT_0, s')" "holds (consume (vs ! j)) (hs ! j) s'"
    using cleanup [OF hj] Suc.prems by blast
  have "[j..<?n] = j # [Suc j..<?n]" using Suc.prems(1) by (rule upt_conv_Cons)
  then have rows: "map ?row [j..<?n] = (j, j, POLLIN) # map ?row [Suc j..<?n]" by simp
  have "?n - j = Suc (?n - Suc j)" using Suc.prems(1) by simp
  then have sig: "(replicate j True @ replicate (?n - j) False)[j := True] = replicate (Suc j) True @ replicate (?n - Suc j) False"
    by (simp add: list_update_append replicate_app_Cons_same)
  have adv: "advance_signalled (replicate (Suc j) True @ replicate (?n - Suc j) False) j = Suc j"
    using Suc.prems(1) by (simp add: advance_signalled_def takeWhile_append flip: replicate_Suc)
  have step: "check_signalled True ?n hs (map ?row [j..<?n]) (replicate j True @ replicate (?n - j) False) j b s =
      (if ?n \<le> Suc j then Done (Inl WAIT_OBJECT_0, s')
       else check_signalled True ?n hs (map ?row [Suc j..<?n]) (replicate (Suc j) True @ replicate (?n - Suc j) False) (Suc j) True s')"
    unfolding rows check_hit [OF hj s'(1)] sig adv by simp
  have keep: "holds (if i < Suc j then consume (vs ! i) else vs ! i) (hs ! i) s'" if i: "i < ?n" for i
  proof (cases "i = j")
    case False
    then have "holds (if i < j then consume (vs ! i) else vs ! i) (hs ! i) s'"
      using frame [OF hj _ s'(1)] Suc.prems i by blast
    then show ?thesis using False by auto
  qed (use s'(2) in simp)
  have apart: "separate (hs ! i) (hs ! i') s'" if "i < ?n" "i' < ?n" "i \<noteq> i'" for i i'
    using separate_stable [OF hj _ s'(1)] Suc.prems that by blast
  show ?case
  proof (cases "?n \<le> Suc j")
    case True
    then have "holds (consume (vs ! i)) (hs ! i) s'" if "i < ?n" for i
      using keep [OF that] less_le_trans [OF that True] by simp
    then show ?thesis unfolding step using True by simp
  next
    case False
    then have "m = ?n - Suc j" "Suc j < ?n" using Suc.hyps(2) by auto
    from Suc.hyps(1) [OF this keep Suc.prems(3) apart, of True] show ?thesis unfolding step using False by simp
  qed
qed simp

text \<open>Waiting for all of several signalled objects consumes every signal.\<close>

lemma wait_all:
  assumes len: "length vs = length hs" "0 < length hs" "length hs \<le> 64"
    and all: "\<And>i. i < length hs \<Longrightarrow> holds (vs ! i) (hs ! i) s" "\<And>i. i < length hs \<Longrightarrow> signalled (vs ! i)"
    and apart: "\<And>i i'. i < length hs \<Longrightarrow> i' < length hs \<Longrightarrow> i \<noteq> i' \<Longrightarrow> separate (hs ! i) (hs ! i') s"
    and time: "remaining_time True (monotonic w 0) (monotonic w 1) ms = Some ms'"
  shows "\<exists>s'. WaitForMultipleObjects (Suc fuel) w (word_of_nat (length hs)) hs True ms s = Done (WAIT_OBJECT_0, s') \<and>
    (\<forall>i < length hs. holds (consume (vs ! i)) (hs ! i) s')"
proof -
  let ?n = "length hs"
  have n: "unat (word_of_nat ?n :: DWORD) = ?n" using len by (intro unat_of_nat_small) simp
  then have nz: "(word_of_nat ?n :: DWORD) \<noteq> 0" "\<not> 64 < (word_of_nat ?n :: DWORD)"
    using len by (auto simp: word_less_nat_alt unat_eq_zero)
  have fill: "fill_pollfds True (replicate ?n False) (enumerate 0 hs) s = Done (Some (map (entry_of s) (enumerate 0 hs)), s)"
    using fill_none_signalled all(1) by blast
  have rows: "polled_events s (map (entry_of s) (enumerate 0 hs)) = map (\<lambda>i. (i, i, POLLIN)) [0..<?n]"
    using polled_all [OF len(1) all(1)] all(2) by simp
  obtain s' where s': "check_signalled True ?n hs (map (\<lambda>i. (i, i, POLLIN)) [0..<?n]) (replicate ?n False) 0 False s = Done (Inl WAIT_OBJECT_0, s')"
      "\<forall>i < ?n. holds (consume (vs ! i)) (hs ! i) s'"
    using check_all [of 0 hs vs s False] len all apart by auto
  then have "WaitForMultipleObjects (Suc fuel) w (word_of_nat ?n) hs True ms s = Done (WAIT_OBJECT_0, s')"
    using poll_count_positive [OF len(1) all(1) len(2) all(2) [OF len(2)]] time
    by (simp add: WaitForMultipleObjects_def n nz fill sys_poll_ready rows)
  then show ?thesis using s'(2) by blast
qed

end

end
