(* ===== verification/Wait_Objects.thy ===== *)
theory Wait_Objects
  imports Waitable
begin

text \<open>
  Events, semaphores, waitable timers and threads keep the contract of waitable objects; the behaviour of the
  wait functions on any mixture of them follows.
\<close>

section \<open>Abstract states\<close>

text \<open>
  An event is set or not, a semaphore has a count, a timer has a number of unread expirations, a thread has
  ended or not and has been joined or not.
\<close>

datatype wait_value = VEvent bool | VSemaphore nat | VTimer nat | VThread bool bool

fun value_signalled :: "wait_value \<Rightarrow> bool" where
  "value_signalled (VEvent b) = b"
| "value_signalled (VSemaphore n) = (0 < n)"
| "value_signalled (VTimer n) = (0 < n)"
| "value_signalled (VThread b j) = b"

fun value_consume :: "wait_value \<Rightarrow> wait_value" where
  "value_consume (VEvent b) = VEvent b"
| "value_consume (VSemaphore n) = VSemaphore (n - 1)"
| "value_consume (VTimer n) = VTimer 0"
| "value_consume (VThread b j) = VThread b True"

text \<open>A semaphore whose pipe holds \<open>n\<close> bytes and is open at both ends.\<close>

definition semaphore_pipe :: "WINPR_SEMAPHORE \<Rightarrow> nat \<Rightarrow> nat \<Rightarrow> os \<Rightarrow> bool" where
  "semaphore_pipe m p n s \<longleftrightarrow> sem_Mode m = UZI_FD_READ \<and> 0 \<le> sem_fd0 m \<and> fds s (sem_fd0 m) = Some (PipeRead p) \<and>
     fds s (sem_fd1 m) = Some (PipeWrite p) \<and> p < length (pipes s) \<and>
     pipes s ! p = \<lparr>bytes = n, reader_open = True, writer_open = True\<rparr>"

fun waits_as :: "wait_value \<Rightarrow> addr \<Rightarrow> os \<Rightarrow> bool" where
  "waits_as (VEvent b) h s = (\<exists>e c. handle_to s h (EventObject e) \<and> Mode e = UZI_FD_READ \<and> 0 \<le> pipe_fd0 e \<and>
     fds s (pipe_fd0 e) = Some (Eventfd c) \<and> b = (0 < c))"
| "waits_as (VSemaphore n) h s = (\<exists>m p. handle_to s h (SemaphoreObject m) \<and> semaphore_pipe m p n s)"
| "waits_as (VTimer n) h s = (\<exists>t x. handle_to s h (TimerObject t) \<and> tmr_Mode t = UZI_FD_READ \<and> 0 \<le> tmr_fd t \<and>
     fds s (tmr_fd t) = Some (Timerfd x n))"
| "waits_as (VThread b j) h s = (\<exists>t c. handle_to s h (ThreadObject t) \<and> thr_Mode t = UZI_FD_READ \<and> 0 \<le> thr_fd0 t \<and>
     fds s (thr_fd0 t) = Some (Eventfd c) \<and> b = (0 < c) \<and> \<not> detached t \<and> joined t = j)"

definition separate_objects :: "addr \<Rightarrow> addr \<Rightarrow> os \<Rightarrow> bool" where
  "separate_objects g h s \<longleftrightarrow> (\<exists>ob ob'. handle_to s g ob \<and> handle_to s h ob' \<and> g \<noteq> h \<and> object_fd ob \<noteq> object_fd ob' \<and>
     (\<forall>p. fds s (object_fd ob) = Some (PipeRead p) \<longrightarrow> fds s (object_fd ob') \<noteq> Some (PipeRead p)))"

section \<open>The contract holds\<close>

lemmas wait_object_defs = handle_to_def winpr_Handle_cleanup_def Cleanup_defs IsHandled_defs sys_read_def

lemma revents_readable:
  "0 \<le> fd \<Longrightarrow> fds s fd = Some (Eventfd c) \<Longrightarrow> revents s (fd, POLLIN) = (if 0 < c then POLLIN else 0)"
  "0 \<le> fd \<Longrightarrow> fds s fd = Some (Timerfd x n) \<Longrightarrow> revents s (fd, POLLIN) = (if 0 < n then POLLIN else 0)"
  "0 \<le> fd \<Longrightarrow> fds s fd = Some (PipeRead p) \<Longrightarrow> writer_open (pipes s ! p) \<Longrightarrow>
     revents s (fd, POLLIN) = (if 0 < bytes (pipes s ! p) then POLLIN else 0)"
  by (simp_all add: revents_def readiness_def flag_def)

lemma waits_as_ready:
  assumes "waits_as v h s"
  shows "\<exists>ob. handle_to s h ob \<and> \<not> is_MutexObject ob \<and> 0 \<le> object_fd ob \<and> Object_Mode ob = UZI_FD_READ \<and>
      revents s (object_fd ob, POLLIN) = (if value_signalled v then POLLIN else 0)"
proof (cases v)
  case (VEvent b)
  then obtain e c where "handle_to s h (EventObject e)" "Mode e = UZI_FD_READ" "0 \<le> pipe_fd0 e" "fds s (pipe_fd0 e) = Some (Eventfd c)" "b = (0 < c)"
    using assms by auto
  then show ?thesis using VEvent by (intro exI [of _ "EventObject e"]) (simp add: revents_readable)
next
  case (VSemaphore n)
  then obtain m p where "handle_to s h (SemaphoreObject m)" "semaphore_pipe m p n s" using assms by auto
  then show ?thesis using VSemaphore
    by (intro exI [of _ "SemaphoreObject m"]) (simp add: semaphore_pipe_def revents_readable)
next
  case (VTimer n)
  then obtain t x where "handle_to s h (TimerObject t)" "tmr_Mode t = UZI_FD_READ" "0 \<le> tmr_fd t" "fds s (tmr_fd t) = Some (Timerfd x n)"
    using assms by auto
  then show ?thesis using VTimer by (intro exI [of _ "TimerObject t"]) (simp add: revents_readable)
next
  case (VThread b j)
  then obtain t c where "handle_to s h (ThreadObject t)" "thr_Mode t = UZI_FD_READ" "0 \<le> thr_fd0 t" "fds s (thr_fd0 t) = Some (Eventfd c)" "b = (0 < c)"
    using assms by auto
  then show ?thesis using VThread by (intro exI [of _ "ThreadObject t"]) (simp add: revents_readable)
qed

text \<open>The cleanup functions on objects in known states.\<close>

lemma cleanup_event: "handle_to s h (EventObject e) \<Longrightarrow> winpr_Handle_cleanup h s = Done (WAIT_OBJECT_0, s)"
  by (simp add: wait_object_defs)

lemma cleanup_semaphore:
  "handle_to s h (SemaphoreObject m) \<Longrightarrow> semaphore_pipe m p n s \<Longrightarrow> 0 < n \<Longrightarrow>
   winpr_Handle_cleanup h s = Done (WAIT_OBJECT_0, s\<lparr>pipes := (pipes s)[p := \<lparr>bytes = n - 1, reader_open = True, writer_open = True\<rparr>]\<rparr>)"
  by (simp add: wait_object_defs semaphore_pipe_def Let_def min_def)

lemma cleanup_timer:
  "handle_to s h (TimerObject t) \<Longrightarrow> fds s (tmr_fd t) = Some (Timerfd x n) \<Longrightarrow> 0 < n \<Longrightarrow>
   winpr_Handle_cleanup h s = Done (WAIT_OBJECT_0, s\<lparr>fds := (fds s)(tmr_fd t \<mapsto> Timerfd x 0)\<rparr>)"
  by (simp add: wait_object_defs)

lemma cleanup_thread:
  "handle_to s h (ThreadObject t) \<Longrightarrow> \<not> detached t \<Longrightarrow>
   winpr_Handle_cleanup h s = Done (WAIT_OBJECT_0, s\<lparr>objects := (objects s)(h \<mapsto> ThreadObject (t\<lparr>joined := True\<rparr>))\<rparr>)"
  by (cases "joined t") (auto simp: wait_object_defs Let_def fun_upd_idem)

lemmas cleanup_rules = cleanup_event cleanup_semaphore cleanup_timer cleanup_thread

text \<open>One description of all of them: the new state, by the type of the object.\<close>

lemma waits_as_cleanup_cases:
  assumes "waits_as v h s" "value_signalled v"
  obtains (event) e where "handle_to s h (EventObject e)" "winpr_Handle_cleanup h s = Done (WAIT_OBJECT_0, s)" "value_consume v = v"
    | (semaphore) m p n where "v = VSemaphore (Suc n)" "handle_to s h (SemaphoreObject m)" "semaphore_pipe m p (Suc n) s"
        "winpr_Handle_cleanup h s = Done (WAIT_OBJECT_0, s\<lparr>pipes := (pipes s)[p := \<lparr>bytes = n, reader_open = True, writer_open = True\<rparr>]\<rparr>)"
    | (timer) t x n where "v = VTimer n" "handle_to s h (TimerObject t)" "tmr_Mode t = UZI_FD_READ" "0 \<le> tmr_fd t" "fds s (tmr_fd t) = Some (Timerfd x n)"
        "winpr_Handle_cleanup h s = Done (WAIT_OBJECT_0, s\<lparr>fds := (fds s)(tmr_fd t \<mapsto> Timerfd x 0)\<rparr>)"
    | (thread) t b j where "v = VThread b j" "handle_to s h (ThreadObject t)" "\<not> detached t"
        "winpr_Handle_cleanup h s = Done (WAIT_OBJECT_0, s\<lparr>objects := (objects s)(h \<mapsto> ThreadObject (t\<lparr>joined := True\<rparr>))\<rparr>)"
proof (cases v)
  case (VEvent b)
  then show ?thesis using assms event cleanup_event by auto
next
  case (VSemaphore n)
  then obtain k where "n = Suc k" using assms(2) by (cases n) auto
  then show ?thesis using VSemaphore assms semaphore cleanup_semaphore by fastforce
next
  case (VTimer n)
  then show ?thesis using assms timer cleanup_timer by fastforce
next
  case (VThread b j)
  then show ?thesis using assms thread cleanup_thread by fastforce
qed

lemma waits_as_cleanup:
  assumes "waits_as v h s" "value_signalled v"
  shows "\<exists>s'. winpr_Handle_cleanup h s = Done (WAIT_OBJECT_0, s') \<and> waits_as (value_consume v) h s'"
  using assms
proof (cases rule: waits_as_cleanup_cases)
  case (semaphore m p n)
  then show ?thesis by (auto simp: semaphore_pipe_def handle_to_def)
next
  case (timer t x n)
  then show ?thesis by (auto simp: handle_to_def)
next
  case (thread t b j)
  then show ?thesis using assms(1) by (auto simp: handle_to_def)
qed (use assms in auto)

lemma semaphore_pipe_frame:
  "semaphore_pipe m p n s \<Longrightarrow> fds s fd = Some (Timerfd x k) \<Longrightarrow> semaphore_pipe m p n (s\<lparr>fds := (fds s)(fd \<mapsto> f)\<rparr>)"
  "semaphore_pipe m p n s \<Longrightarrow> semaphore_pipe m p n (s\<lparr>objects := obs\<rparr>)"
  by (auto simp: semaphore_pipe_def)

lemma waits_as_frame:
  assumes "waits_as v h s" "value_signalled v" "winpr_Handle_cleanup h s = Done (rc, s')" "separate_objects g h s" "waits_as u g s"
  shows "waits_as u g s'"
  using assms(1,2)
proof (cases rule: waits_as_cleanup_cases)
  case (semaphore m p n)
  then show ?thesis using assms(3-5)
    by (cases u) (auto simp: handle_to_def separate_objects_def semaphore_pipe_def)
next
  case (timer t x n)
  then show ?thesis using assms(3-5)
    by (cases u) (auto simp: handle_to_def separate_objects_def intro: semaphore_pipe_frame)
next
  case (thread t b j)
  then show ?thesis using assms(3-5)
    by (cases u) (auto simp: handle_to_def separate_objects_def semaphore_pipe_def)
qed (use assms in auto)

lemma separate_objects_stable:
  assumes "waits_as v h s" "value_signalled v" "winpr_Handle_cleanup h s = Done (rc, s')" "separate_objects a b s"
  shows "separate_objects a b s'"
  using assms(1,2)
proof (cases rule: waits_as_cleanup_cases)
  case (semaphore m p n)
  then show ?thesis using assms(3,4) by (auto simp: handle_to_def separate_objects_def)
next
  case (timer t x n)
  then show ?thesis using assms(3,4) by (auto simp: handle_to_def separate_objects_def)
next
  case (thread t b j)
  then show ?thesis using assms(3,4) by (auto simp: handle_to_def separate_objects_def)
qed (use assms in auto)

interpretation wo: handle_ops_many waits_as value_signalled value_consume separate_objects
  by unfold_locales (fact waits_as_ready waits_as_cleanup waits_as_frame separate_objects_stable)+

end
