(* ===== verification/Event.thy ===== *)
theory Event
  imports Wait_Objects
begin

text \<open>
  src/libuzi/event.c in the configuration with \<open>eventfd\<close>: creation, setting, resetting and closing of events
  and the functions on their descriptors.
\<close>

section \<open>Operations\<close>

text \<open>
  A block of memory and a descriptor are parameters: \<open>block\<close> is the result of \<open>calloc\<close> (NULL when it fails, else
  an address that is not in use), \<open>efd\<close> the result of \<open>eventfd\<close> (negative when it fails, else a free number).
\<close>

definition SetEvent :: "addr \<Rightarrow> os \<Rightarrow> (bool \<times> os) outcome" where
  "SetEvent hEvent s = and_then (winpr_Handle_GetInfo hEvent s) (\<lambda>info.
     case info of
       None \<Rightarrow> Done (False, s)
     | Some Object \<Rightarrow> and_then (event_fd0 Object) (\<lambda>fd.
         and_then (eventfd_write fd 1 s) (\<lambda>(length, s). Done (length = 0, s))))"

definition CreateEventW :: "addr \<Rightarrow> int \<Rightarrow> bool \<Rightarrow> bool \<Rightarrow> os \<Rightarrow> (addr \<times> os) outcome" where
  "CreateEventW block efd manual bInitialState s =
     (if block = NULL then Done (NULL, s)
      else let event = \<lparr>Mode = UZI_FD_READ, pipe_fd0 = 0, pipe_fd1 = 0, bAttached = False, bManualReset = manual\<rparr> in
      if \<not> bManualReset event then Done (NULL, s\<lparr>objects := (objects s)(block \<mapsto> EventObject event)\<rparr>)
      else let event = event\<lparr>pipe_fd0 := efd, pipe_fd1 := - 1\<rparr> in
      if efd < 0 then Done (NULL, s\<lparr>objects := (objects s)(block := None)\<rparr>)
      else let s = (sys_eventfd efd s)\<lparr>objects := (objects s)(block \<mapsto> EventObject event)\<rparr> in
      if bInitialState then and_then (SetEvent block s) (\<lambda>(_, s). Done (block, s)) else Done (block, s))"

definition CreateEventA :: "addr \<Rightarrow> int \<Rightarrow> bool \<Rightarrow> bool \<Rightarrow> os \<Rightarrow> (addr \<times> os) outcome" where
  "CreateEventA block efd manual bInitialState s = CreateEventW block efd manual bInitialState s"

text \<open>
  The loop of \<open>ResetEvent\<close> reads while a poll reports the object ready. Each successful read empties a counter
  or takes bytes from a pipe, so the data that is waiting bounds the number of rounds.
\<close>

definition no_wait :: surroundings where
  "no_wait = \<lparr>others = [], monotonic = (\<lambda>_. \<lparr>tv_sec = 0, tv_nsec = 0\<rparr>), realtime = (\<lambda>_. \<lparr>tv_sec = 0, tv_nsec = 0\<rparr>)\<rparr>"

definition unread :: "os \<Rightarrow> int \<Rightarrow> nat" where
  "unread s fd = (case fds s fd of Some (Eventfd c) \<Rightarrow> min c 1 | Some (Timerfd t c) \<Rightarrow> min c 1 | Some (PipeRead p) \<Rightarrow> bytes (pipes s ! p) | _ \<Rightarrow> 0)"

fun reset_loop :: "nat \<Rightarrow> nat \<Rightarrow> addr \<Rightarrow> int outcome \<Rightarrow> os \<Rightarrow> (bool \<times> os) outcome" where
  "reset_loop 0 tid hEvent fd0 s = Blocks"
| "reset_loop (Suc fuel) tid hEvent fd0 s =
     and_then (WaitForSingleObject tid no_wait hEvent 0 s) (\<lambda>(rc, s).
       if rc = WAIT_OBJECT_0 then
         and_then fd0 (\<lambda>fd. and_then (eventfd_read fd s) (\<lambda>(length, s).
           if length < 0 then Done (False, s) else reset_loop fuel tid hEvent fd0 s))
       else Done (True, s))"

definition ResetEvent :: "nat \<Rightarrow> addr \<Rightarrow> os \<Rightarrow> (bool \<times> os) outcome" where
  "ResetEvent tid hEvent s = and_then (winpr_Handle_GetInfo hEvent s) (\<lambda>info.
     case info of
       None \<Rightarrow> Done (False, s)
     | Some Object \<Rightarrow>
         reset_loop (Suc (case event_fd0 Object of Done fd \<Rightarrow> unread s fd | _ \<Rightarrow> 0)) tid hEvent (event_fd0 Object) s)"

definition EventCloseHandle :: "addr \<Rightarrow> os \<Rightarrow> (bool \<times> os) outcome" where
  "EventCloseHandle handle s = and_then (EventIsHandled handle s) (\<lambda>(ok, s).
     if \<not> ok then Done (False, s)
     else let event = the_event (the (objects s handle));
              s = (if \<not> bAttached event then
                     let s = (if pipe_fd0 event \<noteq> - 1 then sys_close (pipe_fd0 event) s else s)
                     in if pipe_fd1 event \<noteq> - 1 then sys_close (pipe_fd1 event) s else s
                   else s)
          in Done (True, s\<lparr>objects := (objects s)(handle := None)\<rparr>))"

definition CreateFileDescriptorEventW :: "addr \<Rightarrow> bool \<Rightarrow> bool \<Rightarrow> int \<Rightarrow> ULONG \<Rightarrow> os \<Rightarrow> addr \<times> os" where
  "CreateFileDescriptorEventW block manual bInitialState FileDescriptor mode s =
     (if block \<noteq> NULL then
        (block, s\<lparr>objects := (objects s)(block \<mapsto> EventObject
           \<lparr>Mode = mode, pipe_fd0 = FileDescriptor, pipe_fd1 = - 1, bAttached = True, bManualReset = manual\<rparr>)\<rparr>)
      else (NULL, s))"

definition CreateFileDescriptorEventA :: "addr \<Rightarrow> bool \<Rightarrow> bool \<Rightarrow> int \<Rightarrow> ULONG \<Rightarrow> os \<Rightarrow> addr \<times> os" where
  "CreateFileDescriptorEventA block manual bInitialState FileDescriptor mode s =
     CreateFileDescriptorEventW block manual bInitialState FileDescriptor mode s"

text \<open>A wait object is a descriptor cast to a pointer and back: 32 bits, read as signed.\<close>

definition CreateWaitObjectEvent :: "addr \<Rightarrow> bool \<Rightarrow> bool \<Rightarrow> u64 \<Rightarrow> os \<Rightarrow> addr \<times> os" where
  "CreateWaitObjectEvent block manual bInitialState pObject s =
     CreateFileDescriptorEventW block manual bInitialState (sint (ucast pObject :: 32 word)) UZI_FD_READ s"

definition GetEventFileDescriptor :: "addr \<Rightarrow> os \<Rightarrow> int outcome" where
  "GetEventFileDescriptor hEvent s = and_then (winpr_Handle_GetInfo hEvent s) (\<lambda>info.
     case info of None \<Rightarrow> Done (- 1) | Some Object \<Rightarrow> event_fd0 Object)"

definition GetEventWaitObject :: "addr \<Rightarrow> os \<Rightarrow> u64 outcome" where
  "GetEventWaitObject hEvent s = and_then (GetEventFileDescriptor hEvent s) (\<lambda>fd. Done (word_of_int fd))"

text \<open>
  \<open>SetEventFileDescriptor\<close> writes the event fields of whatever object it is given; only on an event is the
  effect the documented one.
\<close>

definition SetEventFileDescriptor :: "addr \<Rightarrow> int \<Rightarrow> ULONG \<Rightarrow> os \<Rightarrow> (int \<times> os) outcome" where
  "SetEventFileDescriptor hEvent FileDescriptor mode s = and_then (winpr_Handle_GetInfo hEvent s) (\<lambda>info.
     case info of
       None \<Rightarrow> Done (- 1, s)
     | Some (EventObject event) \<Rightarrow>
         let s = (if \<not> bAttached event \<and> 0 \<le> pipe_fd0 event then sys_close (pipe_fd0 event) s else s)
         in Done (0, s\<lparr>objects := (objects s)(hEvent \<mapsto> EventObject (event\<lparr>bAttached := True, Mode := mode, pipe_fd0 := FileDescriptor\<rparr>))\<rparr>)
     | Some _ \<Rightarrow> Undefined)"

section \<open>Lemmas\<close>

text \<open>An event that owns a counter: what \<open>CreateEventW\<close> makes and every operation keeps.\<close>

definition owned_event :: "bool \<Rightarrow> addr \<Rightarrow> os \<Rightarrow> bool" where
  "owned_event b h s \<longleftrightarrow> (\<exists>e c. handle_to s h (EventObject e) \<and> Mode e = UZI_FD_READ \<and> 0 \<le> pipe_fd0 e \<and> pipe_fd1 e = - 1 \<and>
     \<not> bAttached e \<and> bManualReset e \<and> fds s (pipe_fd0 e) = Some (Eventfd c) \<and> b = (0 < c) \<and> c \<le> EVENTFD_MAX)"

lemma owned_event_waits: "owned_event b h s \<Longrightarrow> waits_as (VEvent b) h s"
  by (auto simp: owned_event_def)

lemma SetEvent_owned:
  assumes "owned_event b h s"
  shows "\<exists>ok s'. SetEvent h s = Done (ok, s') \<and> owned_event True h s' \<and> (ok \<or> s' = s)"
proof -
  obtain e c where e: "handle_to s h (EventObject e)" "fds s (pipe_fd0 e) = Some (Eventfd c)" "c \<le> EVENTFD_MAX"
    using assms unfolding owned_event_def by blast
  show ?thesis
  proof (cases "c + 1 \<le> EVENTFD_MAX")
    case True
    then show ?thesis using assms e by (auto simp: SetEvent_def owned_event_def GetInfo_handle eventfd_write_def handle_to_def)
  next
    case False
    then show ?thesis using assms e by (auto simp: SetEvent_def owned_event_def GetInfo_handle eventfd_write_def handle_to_def)
  qed
qed

lemma ResetEvent_owned:
  assumes "owned_event b h s"
  shows "\<exists>s'. ResetEvent tid h s = Done (True, s') \<and> owned_event False h s'"
proof -
  obtain e c where e: "handle_to s h (EventObject e)" "fds s (pipe_fd0 e) = Some (Eventfd c)" "b = (0 < c)" "0 \<le> pipe_fd0 e"
    using assms unfolding owned_event_def by blast
  show ?thesis
  proof (cases b)
    case True
    let ?s = "s\<lparr>fds := (fds s)(pipe_fd0 e \<mapsto> Eventfd 0)\<rparr>"
    have un: "unread s (pipe_fd0 e) = 1" using e True by (simp add: unread_def)
    have off: "owned_event False h ?s" using assms e by (auto simp: owned_event_def handle_to_def)
    have w1: "WaitForSingleObject tid no_wait h 0 s = Done (WAIT_OBJECT_0, s)"
      using wo.wait_single_split [OF owned_event_waits [OF assms], of tid no_wait 0] cleanup_event [OF e(1)] True by simp
    have w2: "WaitForSingleObject tid no_wait h 0 ?s = Done (WAIT_TIMEOUT, ?s)"
      using wo.wait_unsignalled [OF owned_event_waits [OF off]] by simp
    have rd: "eventfd_read (pipe_fd0 e) s = Done (0, ?s)" using e True by (simp add: eventfd_read_def sys_read_def)
    have "ResetEvent tid h s = Done (True, ?s)" using w1 w2 rd un by (simp add: ResetEvent_def GetInfo_handle [OF e(1)])
    then show ?thesis using off by blast
  next
    case False
    then have "WaitForSingleObject tid no_wait h 0 s = Done (WAIT_TIMEOUT, s)"
      using wo.wait_unsignalled [OF owned_event_waits [OF assms]] by simp
    then have "ResetEvent tid h s = Done (True, s)" by (simp add: ResetEvent_def GetInfo_handle [OF e(1)])
    then show ?thesis using assms False by auto
  qed
qed

end
