(* ===== verification/Semaphore.thy ===== *)
theory Semaphore
  imports Wait_Objects
begin

text \<open>
  src/libuzi/semaphore.c in the configuration with pipes: the count of a semaphore is the number of bytes in
  its pipe.
\<close>

section \<open>Operations\<close>

text \<open>The loops that write one byte per unit of a count.\<close>

fun write_bytes :: "int \<Rightarrow> nat \<Rightarrow> os \<Rightarrow> (bool \<times> os) outcome" where
  "write_bytes fd 0 s = Done (True, s)"
| "write_bytes fd (Suc n) s = and_then (sys_write fd 1 s) (\<lambda>(length, s).
     if length \<noteq> 1 then Done (False, s) else write_bytes fd n s)"

text \<open>\<open>pipe2\<close> is the result of \<open>pipe\<close>: \<open>None\<close> when it fails, else two free descriptors.\<close>

definition CreateSemaphoreW :: "addr \<Rightarrow> (int \<times> int) option \<Rightarrow> LONG \<Rightarrow> LONG \<Rightarrow> os \<Rightarrow> (addr \<times> os) outcome" where
  "CreateSemaphoreW block pipe2 lInitialCount lMaximumCount s =
     (if block = NULL then Done (NULL, s)
      else case pipe2 of
        None \<Rightarrow> Done (NULL, s\<lparr>objects := (objects s)(block := None)\<rparr>)
      | Some (r, w) \<Rightarrow>
          and_then (write_bytes w (nat (sint lInitialCount)) (sys_pipe r w s)) (\<lambda>(ok, s).
            if \<not> ok then Done (NULL, (sys_close w (sys_close r s))\<lparr>objects := (objects s)(block := None)\<rparr>)
            else Done (block, s\<lparr>objects := (objects s)(block \<mapsto> SemaphoreObject \<lparr>sem_Mode = UZI_FD_READ, sem_fd0 = r, sem_fd1 = w\<rparr>)\<rparr>)))"

definition CreateSemaphoreA :: "addr \<Rightarrow> (int \<times> int) option \<Rightarrow> LONG \<Rightarrow> LONG \<Rightarrow> os \<Rightarrow> (addr \<times> os) outcome" where
  "CreateSemaphoreA block pipe2 lInitialCount lMaximumCount s = CreateSemaphoreW block pipe2 lInitialCount lMaximumCount s"

definition ReleaseSemaphore :: "addr \<Rightarrow> LONG \<Rightarrow> os \<Rightarrow> (bool \<times> os) outcome" where
  "ReleaseSemaphore hSemaphore lReleaseCount s = and_then (winpr_Handle_GetInfo hSemaphore s) (\<lambda>info.
     case info of
       None \<Rightarrow> Done (False, s)
     | Some (SemaphoreObject semaphore) \<Rightarrow>
         if sem_fd0 semaphore \<noteq> - 1 then write_bytes (sem_fd1 semaphore) (nat (sint lReleaseCount)) s else Done (True, s)
     | Some _ \<Rightarrow> Done (False, s))"

definition SemaphoreCloseHandle :: "addr \<Rightarrow> os \<Rightarrow> (bool \<times> os) outcome" where
  "SemaphoreCloseHandle handle s = and_then (SemaphoreIsHandled handle s) (\<lambda>(ok, s).
     if \<not> ok then Done (False, s)
     else let semaphore = the_semaphore (the (objects s handle));
              s = (if sem_fd0 semaphore \<noteq> - 1 then
                     let s = sys_close (sem_fd0 semaphore) s
                     in if sem_fd1 semaphore \<noteq> - 1 then sys_close (sem_fd1 semaphore) s else s
                   else s)
          in Done (True, s\<lparr>objects := (objects s)(handle := None)\<rparr>))"

section \<open>Lemmas\<close>

lemma sys_write_semaphore:
  "semaphore_pipe m p n s \<Longrightarrow> n < PIPE_CAPACITY \<Longrightarrow>
   sys_write (sem_fd1 m) 1 s = Done (1, s\<lparr>pipes := (pipes s)[p := \<lparr>bytes = Suc n, reader_open = True, writer_open = True\<rparr>]\<rparr>)"
  by (simp add: sys_write_def semaphore_pipe_def)

lemma semaphore_pipe_update:
  "semaphore_pipe m p n s \<Longrightarrow>
   semaphore_pipe m p k (s\<lparr>pipes := (pipes s)[p := \<lparr>bytes = k, reader_open = True, writer_open = True\<rparr>]\<rparr>)"
  by (simp add: semaphore_pipe_def)

lemma write_bytes_semaphore:
  assumes "semaphore_pipe m p n s"
  shows "write_bytes (sem_fd1 m) k s =
    (if n + k \<le> PIPE_CAPACITY
     then Done (True, s\<lparr>pipes := (pipes s)[p := \<lparr>bytes = n + k, reader_open = True, writer_open = True\<rparr>]\<rparr>)
     else if n \<le> PIPE_CAPACITY then Blocks else write_bytes (sem_fd1 m) k s)"
  using assms
proof (induction k arbitrary: n s)
  case 0
  then have "(pipes s)[p := \<lparr>bytes = n, reader_open = True, writer_open = True\<rparr>] = pipes s"
    by (simp add: semaphore_pipe_def list_update_same_conv)
  then show ?case by simp
next
  case (Suc k)
  show ?case
  proof (cases "n < PIPE_CAPACITY")
    case True
    then show ?thesis using Suc.IH [OF semaphore_pipe_update [OF Suc.prems, of "Suc n"]] sys_write_semaphore [OF Suc.prems]
      by (cases "n + k \<le> 65535") simp_all
  next
    case False
    then show ?thesis using Suc.prems by (simp add: sys_write_def semaphore_pipe_def)
  qed
qed

end
