(* ===== verification/Mutex.thy ===== *)
theory Mutex
  imports Wait_Objects
begin

text \<open>
  src/libuzi/mutex.c: mutex handles over recursive pthread mutexes.
\<close>

section \<open>Operations\<close>

definition CreateMutexW :: "nat \<Rightarrow> addr \<Rightarrow> bool \<Rightarrow> os \<Rightarrow> addr \<times> os" where
  "CreateMutexW tid block bInitialOwner s =
     (if block \<noteq> NULL then
        let mutex = \<lparr>mux_Mode = UZI_FD_READ, mux_owner = None, mux_count = 0\<rparr>;
            mutex = (if bInitialOwner then the (pthread_mutex_trylock tid mutex) else mutex)
        in (block, s\<lparr>objects := (objects s)(block \<mapsto> MutexObject mutex)\<rparr>)
      else (NULL, s))"

definition CreateMutexA :: "nat \<Rightarrow> addr \<Rightarrow> bool \<Rightarrow> os \<Rightarrow> addr \<times> os" where
  "CreateMutexA tid block bInitialOwner s = CreateMutexW tid block bInitialOwner s"

definition ReleaseMutex :: "nat \<Rightarrow> addr \<Rightarrow> os \<Rightarrow> (bool \<times> os) outcome" where
  "ReleaseMutex tid hMutex s = and_then (winpr_Handle_GetInfo hMutex s) (\<lambda>info.
     case info of
       None \<Rightarrow> Done (False, s)
     | Some (MutexObject mutex) \<Rightarrow>
         (case pthread_mutex_unlock tid mutex of
            None \<Rightarrow> Done (False, s)
          | Some mutex' \<Rightarrow> Done (True, s\<lparr>objects := (objects s)(hMutex \<mapsto> MutexObject mutex')\<rparr>))
     | Some _ \<Rightarrow> Done (False, s))"

text \<open>The result of \<open>pthread_mutex_destroy\<close> is ignored.\<close>

definition MutexCloseHandle :: "addr \<Rightarrow> os \<Rightarrow> (bool \<times> os) outcome" where
  "MutexCloseHandle handle s = and_then (MutexIsHandled handle s) (\<lambda>(ok, s).
     if \<not> ok then Done (False, s) else Done (True, s\<lparr>objects := (objects s)(handle := None)\<rparr>))"

section \<open>Abstract states\<close>

text \<open>The mutex at \<open>h\<close> is free, or held by a thread with a positive nesting depth.\<close>

definition mutex_at :: "(nat \<times> nat) option \<Rightarrow> addr \<Rightarrow> os \<Rightarrow> bool" where
  "mutex_at holder h s \<longleftrightarrow> (\<exists>m. handle_to s h (MutexObject m) \<and>
     (case holder of
        None \<Rightarrow> mux_owner m = None \<and> mux_count m = 0
      | Some (t, n) \<Rightarrow> mux_owner m = Some t \<and> mux_count m = n \<and> 0 < n))"

text \<open>A recursive lock: acquisition and release by thread \<open>tid\<close>; \<open>None\<close> when the lock refuses.\<close>

fun acquire :: "nat \<Rightarrow> (nat \<times> nat) option \<Rightarrow> (nat \<times> nat) option option" where
  "acquire tid None = Some (Some (tid, 1))"
| "acquire tid (Some (t, n)) = (if t = tid then Some (Some (t, n + 1)) else None)"

fun release :: "nat \<Rightarrow> (nat \<times> nat) option \<Rightarrow> (nat \<times> nat) option option" where
  "release tid None = None"
| "release tid (Some (t, n)) = (if t \<noteq> tid then None else if n \<le> 1 then Some None else Some (Some (t, n - 1)))"

lemma lock_loop_acquire:
  assumes "mutex_at holder h s" "acquire tid holder = Some holder'"
  shows "\<exists>s'. lock_loop tid h timed env s = Done (True, s') \<and> mutex_at holder' h s'"
proof -
  obtain m where m: "handle_to s h (MutexObject m)" "case holder of None \<Rightarrow> mux_owner m = None \<and> mux_count m = 0
      | Some (t, n) \<Rightarrow> mux_owner m = Some t \<and> mux_count m = n \<and> 0 < n"
    using assms(1) unfolding mutex_at_def by blast
  then show ?thesis using assms(2)
    by (subst lock_loop.simps, cases holder) (auto simp: handle_to_def pthread_mutex_trylock_def mutex_at_def split: if_splits)
qed

lemma lock_loop_refused:
  assumes "mutex_at holder h s" "acquire tid holder = None"
  shows "lock_loop tid h timed env s =
    (case env of [] \<Rightarrow> if timed then Done (False, s) else Blocks | act # env' \<Rightarrow> lock_loop tid h timed env' (act s))"
proof -
  obtain m where m: "handle_to s h (MutexObject m)" "case holder of None \<Rightarrow> mux_owner m = None \<and> mux_count m = 0
      | Some (t, n) \<Rightarrow> mux_owner m = Some t \<and> mux_count m = n \<and> 0 < n"
    using assms(1) unfolding mutex_at_def by blast
  then show ?thesis using assms(2)
    by (subst lock_loop.simps, cases holder) (auto simp: handle_to_def pthread_mutex_trylock_def split: if_splits)
qed

lemma WaitForSingleObject_mutex:
  assumes "mutex_at holder h s"
  shows "WaitForSingleObject tid w h ms s =
    (if ms \<noteq> INFINITE then
       and_then (lock_loop tid h True (if ts_ns (ts_add_ms (monotonic w 0) ms) \<le> ts_ns (realtime w 0) then [] else others w) s)
         (\<lambda>(locked, s). Done (if locked then WAIT_OBJECT_0 else WAIT_TIMEOUT, s))
     else and_then (lock_loop tid h False (others w) s) (\<lambda>(_, s). Done (WAIT_OBJECT_0, s)))"
proof -
  obtain m where "handle_to s h (MutexObject m)" using assms unfolding mutex_at_def by blast
  then show ?thesis by (auto simp: WaitForSingleObject_def GetInfo_handle pthread_mutex_timedlock_def intro!: arg_cong2 [where f = and_then])
qed

lemma carry_nanoseconds:
  fixes q r m x y :: int
  assumes "q * 1000 + r = m" "x * 1000000000 + y = n + r * 1000000"
  shows "(s + q + x) * 1000000000 + y = s * 1000000000 + n + m * 1000000"
proof -
  have "y = n + r * 1000000 - x * 1000000000" using assms(2) by simp
  then show ?thesis unfolding assms(1) [symmetric] by (simp add: algebra_simps)
qed

lemma ts_ns_add_ms: "ts_ns (ts_add_ms t ms) = ts_ns t + uint ms * 1000000"
proof -
  let ?m = "uint ms"
  let ?a = "tv_nsec t + ?m mod 1000 * 1000000"
  have "ts_ns (ts_add_ms t ms) = (tv_sec t + ?m div 1000 + ?a div 1000000000) * 1000000000 + ?a mod 1000000000"
    by (simp add: ts_ns_def ts_add_ms_def Let_def)
  also have "\<dots> = tv_sec t * 1000000000 + tv_nsec t + ?m * 1000000"
    by (rule carry_nanoseconds) (rule div_mult_mod_eq)+
  finally show ?thesis by (simp add: ts_ns_def)
qed

end
