(* ===== verification/Waitable_Timer.thy ===== *)
theory Waitable_Timer
  imports Wait_Objects
begin

text \<open>
  The waitable timers of src/libuzi/timer.c in the configuration with \<open>timerfd\<close> and POSIX timers.
\<close>

section \<open>Operations\<close>

definition zero_timespec :: timespec where
  "zero_timespec = \<lparr>tv_sec = 0, tv_nsec = 0\<rparr>"

definition zero_itimerspec :: itimerspec where
  "zero_itimerspec = \<lparr>it_interval = zero_timespec, it_value = zero_timespec\<rparr>"

definition put_timer :: "addr \<Rightarrow> WINPR_TIMER \<Rightarrow> os \<Rightarrow> os" where
  "put_timer h t s = s\<lparr>objects := (objects s)(h \<mapsto> TimerObject t)\<rparr>"

definition TimerCloseHandle :: "addr \<Rightarrow> os \<Rightarrow> (bool \<times> os) outcome" where
  "TimerCloseHandle handle s = and_then (TimerIsHandled handle s) (\<lambda>(ok, s).
     if \<not> ok then Done (False, s)
     else let timer = the_timer (the (objects s handle));
              s = (if tmr_fd timer \<noteq> - 1 then sys_close (tmr_fd timer) s else s)
          in Done (True, s\<lparr>objects := (objects s)(handle := None)\<rparr>))"

text \<open>A period in milliseconds as a time specification.\<close>

definition period_spec :: "LONG \<Rightarrow> timespec" where
  "period_spec p = \<lparr>tv_sec = sint p div 1000, tv_nsec = (sint p mod 1000) * 1000000\<rparr>"

text \<open>The signal handler: the completion routine it calls with its argument, and the re-armed timer.\<close>

definition WaitableTimerSignalHandler :: "bool \<Rightarrow> addr \<Rightarrow> os \<Rightarrow> ((addr \<times> addr) option \<times> os) outcome" where
  "WaitableTimerSignalHandler is_SIGALRM handle s =
     (if handle = NULL \<or> \<not> is_SIGALRM then Done (None, s)
      else case objects s handle of
        Some (TimerObject timer) \<Rightarrow>
          if pfnCompletionRoutine timer \<noteq> NULL then
            Done (Some (pfnCompletionRoutine timer, lpArgToCompletionRoutine timer),
              if lPeriod timer \<noteq> 0
              then put_timer handle (timer\<lparr>tmr_timeout := (tmr_timeout timer)\<lparr>it_interval := period_spec (lPeriod timer)\<rparr>\<rparr>) s
              else s)
          else Done (None, s)
      | _ \<Rightarrow> Undefined)"

definition InstallWaitableTimerSignalHandler :: "os \<Rightarrow> os" where
  "InstallWaitableTimerSignalHandler s = (if \<not> handler_installed s then s\<lparr>handler_installed := True\<rparr> else s)"

text \<open>
  \<open>tfd\<close> is the result of \<open>timerfd_create\<close>, \<open>status\<close> that of \<open>fcntl\<close> and \<open>created\<close> whether \<open>timer_create\<close> succeeds. The
  result is negative on failure.
\<close>

definition InitializeWaitableTimer :: "int \<Rightarrow> int \<Rightarrow> bool \<Rightarrow> addr \<Rightarrow> WINPR_TIMER \<Rightarrow> os \<Rightarrow> int \<times> os" where
  "InitializeWaitableTimer tfd status created handle timer s =
     (if lpArgToCompletionRoutine timer = NULL then
        if tfd \<le> 0 then (- 1, s\<lparr>objects := (objects s)(handle := None)\<rparr>)
        else let timer = timer\<lparr>tmr_fd := tfd\<rparr>; s = s\<lparr>fds := (fds s)(tfd \<mapsto> Timerfd zero_itimerspec 0)\<rparr> in
          if status \<noteq> 0 then (- 1, put_timer handle timer (sys_close tfd s))
          else (0, put_timer handle (timer\<lparr>bInit := True\<rparr>) s)
      else let s = InstallWaitableTimerSignalHandler s in
        if \<not> created then (- 1, s) else (0, put_timer handle (timer\<lparr>bInit := True\<rparr>) s))"

definition CreateWaitableTimerA :: "addr \<Rightarrow> bool \<Rightarrow> os \<Rightarrow> addr \<times> os" where
  "CreateWaitableTimerA block manual s =
     (if block \<noteq> NULL then
        (block, put_timer block \<lparr>tmr_Mode = UZI_FD_READ, tmr_fd = - 1, bInit = False, lPeriod = 0, tmr_bManualReset = manual,
           pfnCompletionRoutine = NULL, lpArgToCompletionRoutine = NULL, tmr_timeout = zero_itimerspec\<rparr> s)
      else (NULL, s))"

definition CreateWaitableTimerW :: "addr \<Rightarrow> bool \<Rightarrow> os \<Rightarrow> addr \<times> os" where
  "CreateWaitableTimerW block manual s = (NULL, s)"

definition CreateWaitableTimerExA :: "addr \<Rightarrow> DWORD \<Rightarrow> os \<Rightarrow> addr \<times> os" where
  "CreateWaitableTimerExA block dwFlags s = CreateWaitableTimerA block (dwFlags AND 1 \<noteq> 0) s"

definition CreateWaitableTimerExW :: "addr \<Rightarrow> DWORD \<Rightarrow> os \<Rightarrow> addr \<times> os" where
  "CreateWaitableTimerExW block dwFlags s = (NULL, s)"

text \<open>\<open>timerfd_settime\<close>: valid times on a timer descriptor; earlier expirations are forgotten.\<close>

definition valid_timespec :: "timespec \<Rightarrow> bool" where
  "valid_timespec t \<longleftrightarrow> 0 \<le> tv_sec t \<and> 0 \<le> tv_nsec t \<and> tv_nsec t < 1000000000"

definition timerfd_settime :: "int \<Rightarrow> itimerspec \<Rightarrow> os \<Rightarrow> int \<times> os" where
  "timerfd_settime fd t s =
     (case fds s fd of
        Some (Timerfd _ _) \<Rightarrow>
          if valid_timespec (it_value t) \<and> valid_timespec (it_interval t) then (0, s\<lparr>fds := (fds s)(fd \<mapsto> Timerfd t 0)\<rparr>) else (- 1, s)
      | _ \<Rightarrow> (- 1, s))"

text \<open>
  The time-out that \<open>SetWaitableTimer\<close> computes from a due time in units of 100 nanoseconds; \<open>None\<close> for an
  absolute (positive) due time, which is refused.
\<close>

definition due_timeout :: "u64 \<Rightarrow> LONG \<Rightarrow> itimerspec option" where
  "due_timeout due p =
     (if 0 < sint due then None
      else let interval = (if 0 < sint p then period_spec p else zero_timespec) in
        Some \<lparr>it_interval = interval,
          it_value = (if sint due \<noteq> 0 then \<lparr>tv_sec = - sint due div 10000000, tv_nsec = (- sint due mod 10000000) * 100\<rparr> else interval)\<rparr>)"

text \<open>
  \<open>SetWaitableTimer\<close>. \<open>lpDueTime\<close> is \<open>None\<close> for a null pointer; negating the least 64-bit integer is undefined.
  \<open>settime\<close> tells whether \<open>timer_settime\<close> succeeds.
\<close>

definition SetWaitableTimer :: "int \<Rightarrow> int \<Rightarrow> bool \<Rightarrow> bool \<Rightarrow> addr \<Rightarrow> u64 option \<Rightarrow> LONG \<Rightarrow> addr \<Rightarrow> addr \<Rightarrow> os \<Rightarrow> (bool \<times> os) outcome" where
  "SetWaitableTimer tfd status created settime hTimer lpDueTime period pfn lpArg s =
     and_then (winpr_Handle_GetInfo hTimer s) (\<lambda>info.
       case info of
         Some (TimerObject timer) \<Rightarrow>
           (case lpDueTime of
              None \<Rightarrow> Done (False, s)
            | Some due \<Rightarrow>
                if sint period < 0 then Done (False, s)
                else let timer = timer\<lparr>lPeriod := period, pfnCompletionRoutine := pfn, lpArgToCompletionRoutine := lpArg\<rparr>;
                         s = put_timer hTimer timer s;
                         (r, s) = (if \<not> bInit timer then InitializeWaitableTimer tfd status created hTimer timer s else (0, s))
                     in if r < 0 then Done (False, s)
                        else if sint due = - (2 ^ 63) then Undefined
                        else let timer = the_timer (the (objects s hTimer)) in
                          case due_timeout due period of
                            None \<Rightarrow> Done (False, put_timer hTimer (timer\<lparr>tmr_timeout := zero_itimerspec\<rparr>) s)
                          | Some t \<Rightarrow>
                              let s = put_timer hTimer (timer\<lparr>tmr_timeout := t\<rparr>) s in
                              if pfn = NULL then (case timerfd_settime (tmr_fd timer) t s of (st, s) \<Rightarrow> Done (st = 0, s))
                              else Done (settime, s))
       | _ \<Rightarrow> Done (False, s))"

definition SetWaitableTimerEx :: "addr \<Rightarrow> os \<Rightarrow> bool outcome" where
  "SetWaitableTimerEx hTimer s = and_then (winpr_Handle_GetInfo hTimer s) (\<lambda>info.
     case info of None \<Rightarrow> Done False | Some _ \<Rightarrow> Done True)"

definition CancelWaitableTimer :: "addr \<Rightarrow> os \<Rightarrow> bool \<times> os" where
  "CancelWaitableTimer hTimer s = (True, s)"

section \<open>Lemmas\<close>

text \<open>The computed time-out is the requested one, in the form the system accepts.\<close>

lemma due_timeout_exact:
  assumes "due_timeout due p = Some t" "0 \<le> sint p" "sint due \<noteq> 0"
  shows "ts_ns (it_value t) = - sint due * 100 \<and> ts_ns (it_interval t) = sint p * 1000000 \<and>
    valid_timespec (it_value t) \<and> valid_timespec (it_interval t)"
proof -
  let ?d = "- sint due" and ?p = "sint p"
  have d: "0 < ?d" and t: "it_value t = \<lparr>tv_sec = ?d div 10000000, tv_nsec = (?d mod 10000000) * 100\<rparr>"
      "it_interval t = (if 0 < ?p then period_spec p else zero_timespec)"
    using assms by (auto simp: due_timeout_def Let_def split: if_splits)
  have "0 \<le> ?d mod 10000000" "?d mod 10000000 < 10000000" "0 \<le> ?p mod 1000" "?p mod 1000 < 1000" by simp_all
  then show ?thesis using d assms(2) split_ms_ns [of ?p] split_ticks_ns [of ?d]
    unfolding t ts_ns_def valid_timespec_def period_spec_def zero_timespec_def
    by (auto simp: pos_imp_zdiv_nonneg_iff)
qed

end
