(* ===== verification/Thread.thy ===== *)
theory Thread
  imports Wait_Objects
begin

text \<open>
  src/libuzi/thread.c in the configuration with \<open>eventfd\<close>. Each function is one step of the caller; the body of
  a thread runs between its creation and the end of its launcher. The dictionary of threads is used through
  the behaviour that src/libuzi/dictionary.c has: entries in the order of insertion, the first match is found.
\<close>

section \<open>The dictionary of threads\<close>

definition list_contains :: "nat \<Rightarrow> os \<Rightarrow> bool" where
  "list_contains tid s = (case thread_list s of None \<Rightarrow> False | Some kvs \<Rightarrow> map_of kvs tid \<noteq> None)"

fun remove_first :: "nat \<Rightarrow> (nat \<times> addr) list \<Rightarrow> (nat \<times> addr) list" where
  "remove_first tid [] = []"
| "remove_first tid ((k, v) # kvs) = (if k = tid then kvs else (k, v) # remove_first tid kvs)"

definition put_thread :: "addr \<Rightarrow> WINPR_THREAD \<Rightarrow> os \<Rightarrow> os" where
  "put_thread h t s = s\<lparr>objects := (objects s)(h \<mapsto> ThreadObject t)\<rparr>"

section \<open>Signalling\<close>

definition set_event :: "WINPR_THREAD \<Rightarrow> os \<Rightarrow> (bool \<times> os) outcome" where
  "set_event thread s = and_then (eventfd_write (thr_fd0 thread) 1 s) (\<lambda>(length, s). Done (length = 0, s))"

definition reset_event :: "WINPR_THREAD \<Rightarrow> os \<Rightarrow> (bool \<times> os) outcome" where
  "reset_event thread s = and_then (eventfd_read (thr_fd0 thread) s) (\<lambda>(length, s). Done (0 < length, s))"

section \<open>End of a thread object\<close>

definition cleanup_handle :: "addr \<Rightarrow> WINPR_THREAD \<Rightarrow> os \<Rightarrow> os" where
  "cleanup_handle handle thread s =
     (let s = (if 0 \<le> thr_fd0 thread then sys_close (thr_fd0 thread) s else s);
          s = (if 0 \<le> thr_fd1 thread then sys_close (thr_fd1 thread) s else s);
          s = (if list_contains (pthread thread) s then s\<lparr>thread_list := map_option (remove_first (pthread thread)) (thread_list s)\<rparr> else s)
      in s\<lparr>objects := (objects s)(handle := None)\<rparr>)"

text \<open>
  The end of \<open>thread_launcher\<close>: \<open>rc\<close> is what the start routine returned, or 0 when there is none. The start routine
  may have ended or changed the object through \<open>ExitThread\<close>, \<open>TerminateThread\<close> or \<open>CloseHandle\<close>.
\<close>

definition thread_launcher :: "u64 \<Rightarrow> addr \<Rightarrow> os \<Rightarrow> os outcome" where
  "thread_launcher rc handle s =
     (case objects s handle of
        Some (ThreadObject thread) \<Rightarrow>
          let rc = (if lpStartAddress thread = NULL then 0 else rc);
              thread = (if \<not> exited thread then thread\<lparr>dwExitCode := ucast rc\<rparr> else thread);
              s = put_thread handle thread s
          in and_then (set_event thread s) (\<lambda>(_, s).
               Done (if detached thread \<or> \<not> started thread then cleanup_handle handle thread s else s))
      | _ \<Rightarrow> Undefined)"

section \<open>Creation\<close>

text \<open>
  The results of the system calls: \<open>created\<close> is the new pthread, \<open>None\<close> when \<open>pthread_create\<close> fails; \<open>add_ok\<close> tells
  whether the dictionary could allocate its item.
\<close>

record thread_calls =
  created :: "nat option"
  add_ok :: bool

definition winpr_StartThread :: "thread_calls \<Rightarrow> addr \<Rightarrow> WINPR_THREAD \<Rightarrow> os \<Rightarrow> (bool \<times> os) outcome" where
  "winpr_StartThread c handle thread s =
     (let thread = thread\<lparr>started := True\<rparr>; s = put_thread handle thread s in
      and_then (reset_event thread s) (\<lambda>(_, s).
        case created c of
          None \<Rightarrow> Done (False, s)
        | Some tid \<Rightarrow>
            let s = put_thread handle (thread\<lparr>pthread := tid\<rparr>) s in
            if \<not> add_ok c then Done (False, s)
            else Done (True, s\<lparr>thread_list := map_option (\<lambda>kvs. kvs @ [(tid, handle)]) (thread_list s)\<rparr>)))"

text \<open>
  \<open>init_ok\<close> tells whether the mutexes and the condition variable of the object could be initialised, \<open>list_ok\<close>
  whether \<open>ListDictionary_New\<close> succeeds.
\<close>

definition CreateThread :: "addr \<Rightarrow> int \<Rightarrow> bool \<Rightarrow> bool \<Rightarrow> thread_calls \<Rightarrow> addr \<Rightarrow> addr \<Rightarrow> DWORD \<Rightarrow> os \<Rightarrow> (addr \<times> os) outcome" where
  "CreateThread block efd init_ok list_ok c start param dwCreationFlags s =
     (if block = NULL then Done (NULL, s)
      else let thread = \<lparr>thr_Mode = 0, started = False, thr_fd0 = efd, thr_fd1 = - 1, detached = False, joined = False, exited = False,
                 dwExitCode = 0, pthread = 0, lpParameter = param, lpStartAddress = start\<rparr>;
               freed = (\<lambda>s. s\<lparr>objects := (objects s)(block := None)\<rparr>)
      in if efd < 0 then Done (NULL, freed s)
      else let s = put_thread block thread (sys_eventfd efd s);
               failed = (\<lambda>s. Done (NULL, freed (sys_close efd s)))
      in if \<not> init_ok then failed s
      else let thread = thread\<lparr>thr_Mode := UZI_FD_READ\<rparr>; s = put_thread block thread s
      in if thread_list s = None \<and> \<not> list_ok then failed s
      else let s = (if thread_list s = None then s\<lparr>thread_list := Some []\<rparr> else s)
      in and_then (if dwCreationFlags AND 4 = 0 then winpr_StartThread c block thread s else set_event thread s)
           (\<lambda>(ok, s). if \<not> ok then failed s else Done (block, s)))"

definition ResumeThread :: "thread_calls \<Rightarrow> addr \<Rightarrow> os \<Rightarrow> (DWORD \<times> os) outcome" where
  "ResumeThread c hThread s = and_then (winpr_Handle_GetInfo hThread s) (\<lambda>info.
     case info of
       None \<Rightarrow> Done (- 1, s)
     | Some (ThreadObject thread) \<Rightarrow>
         if \<not> started thread then and_then (winpr_StartThread c hThread thread s) (\<lambda>(ok, s). Done (if ok then 0 else - 1, s))
         else Done (0, s)
     | Some _ \<Rightarrow> Undefined)"

section \<open>Closing and ending\<close>

text \<open>The poll of \<open>ThreadCloseHandle\<close> joins a thread that has ended.\<close>

definition ThreadCloseHandle :: "nat \<Rightarrow> surroundings \<Rightarrow> addr \<Rightarrow> os \<Rightarrow> (bool \<times> os) outcome" where
  "ThreadCloseHandle tid w handle s =
     (case objects s handle of
        Some (ThreadObject thread) \<Rightarrow>
          if \<not> list_contains (pthread thread) s then Done (True, s)
          else and_then
            (if started thread then and_then (WaitForSingleObject tid w handle 0 s) (\<lambda>(rc, s). Done (rc \<noteq> WAIT_OBJECT_0, s)) else Done (False, s))
            (\<lambda>(running, s).
              let s = (if running then put_thread handle (thread\<lparr>detached := True\<rparr>) s else cleanup_handle handle thread s)
              in Done (True, case thread_list s of Some kvs \<Rightarrow> if length kvs < 1 then s\<lparr>thread_list := None\<rparr> else s | None \<Rightarrow> s))
      | _ \<Rightarrow> Undefined)"

text \<open>\<open>ExitThread\<close>: the calling pthread ends; its object, if it has one, is signalled first.\<close>

definition ExitThread :: "nat \<Rightarrow> DWORD \<Rightarrow> os \<Rightarrow> os outcome" where
  "ExitThread tid code s =
     (if \<not> list_contains tid s then Done s
      else let handle = the (map_of (the (thread_list s)) tid) in
        case objects s handle of
          Some (ThreadObject thread) \<Rightarrow>
            let thread = thread\<lparr>exited := True, dwExitCode := code\<rparr> in
            and_then (set_event thread (put_thread handle thread s)) (\<lambda>(_, s).
              Done (if detached thread \<or> \<not> started thread then cleanup_handle handle thread s else s))
        | _ \<Rightarrow> Undefined)"

definition GetExitCodeThread :: "addr \<Rightarrow> os \<Rightarrow> DWORD option outcome" where
  "GetExitCodeThread hThread s = and_then (winpr_Handle_GetInfo hThread s) (\<lambda>info.
     case info of
       None \<Rightarrow> Done None
     | Some (ThreadObject thread) \<Rightarrow> Done (Some (dwExitCode thread))
     | Some _ \<Rightarrow> Undefined)"

definition GetCurrentThread :: "nat \<Rightarrow> os \<Rightarrow> addr" where
  "GetCurrentThread tid s = (if \<not> list_contains tid s then NULL else the (map_of (the (thread_list s)) tid))"

definition GetCurrentThreadId :: "nat \<Rightarrow> DWORD" where
  "GetCurrentThreadId tid = word_of_nat tid AND 0xFFFFFFFF"

definition TerminateThread :: "addr \<Rightarrow> DWORD \<Rightarrow> os \<Rightarrow> (bool \<times> os) outcome" where
  "TerminateThread hThread code s = and_then (winpr_Handle_GetInfo hThread s) (\<lambda>info.
     case info of
       None \<Rightarrow> Done (False, s)
     | Some (ThreadObject thread) \<Rightarrow>
         let thread = thread\<lparr>exited := True, dwExitCode := code\<rparr> in
         and_then (set_event thread (put_thread hThread thread s)) (\<lambda>(_, s). Done (True, s))
     | Some _ \<Rightarrow> Undefined)"

text \<open>\<open>yielded\<close> is the result of \<open>sched_yield\<close>; the first component lists the calls of \<open>usleep\<close>.\<close>

definition SwitchToThread :: "int \<Rightarrow> DWORD list \<times> bool" where
  "SwitchToThread yielded = (if yielded = 0 then [1] else [], True)"

section \<open>Lemmas\<close>

text \<open>Closing a thread object that has ended.\<close>

lemma ThreadCloseHandle_ended:
  assumes "objects s h = Some (ThreadObject t)" "list_contains (pthread t) s" "started t"
    and "WaitForSingleObject tid w h 0 s = Done (WAIT_OBJECT_0, s1)" "thread_list (cleanup_handle h t s1) = Some kvs"
  shows "ThreadCloseHandle tid w h s =
    Done (True, if kvs = [] then (cleanup_handle h t s1)\<lparr>thread_list := None\<rparr> else cleanup_handle h t s1)"
  using assms by (simp add: ThreadCloseHandle_def)

end
