(* ===== verification/Handles.thy ===== *)
theory Handles
  imports Event Semaphore Mutex Waitable_Timer Thread
begin

text \<open>
  src/libuzi/handle.c: closing and duplicating a handle of any type, and the event and wait functions of the
  public interface src/libuzi/uzi.c.
\<close>

section \<open>CloseHandle\<close>

definition CloseHandle :: "nat \<Rightarrow> surroundings \<Rightarrow> addr \<Rightarrow> os \<Rightarrow> (bool \<times> os) outcome" where
  "CloseHandle tid w hObject s = and_then (winpr_Handle_GetInfo hObject s) (\<lambda>info.
     case info of
       None \<Rightarrow> Done (False, s)
     | Some (EventObject _) \<Rightarrow> EventCloseHandle hObject s
     | Some (SemaphoreObject _) \<Rightarrow> SemaphoreCloseHandle hObject s
     | Some (MutexObject _) \<Rightarrow> MutexCloseHandle hObject s
     | Some (TimerObject _) \<Rightarrow> TimerCloseHandle hObject s
     | Some (ThreadObject _) \<Rightarrow> ThreadCloseHandle tid w hObject s)"

text \<open>The duplicate is the same pointer.\<close>

definition DuplicateHandle :: "addr \<Rightarrow> bool \<times> addr" where
  "DuplicateHandle hSourceHandle = (True, hSourceHandle)"

section \<open>The public interface\<close>

definition UziCreateEvent :: "addr \<Rightarrow> int \<Rightarrow> bool \<Rightarrow> bool \<Rightarrow> os \<Rightarrow> (addr \<times> os) outcome" where
  "UziCreateEvent block efd manualReset initialState s = CreateEventA block efd manualReset initialState s"

definition UziSetEvent :: "addr \<Rightarrow> os \<Rightarrow> (bool \<times> os) outcome" where
  "UziSetEvent handle s = SetEvent handle s"

definition UziResetEvent :: "nat \<Rightarrow> addr \<Rightarrow> os \<Rightarrow> (bool \<times> os) outcome" where
  "UziResetEvent tid handle s = ResetEvent tid handle s"

definition UziWaitSingle :: "nat \<Rightarrow> surroundings \<Rightarrow> addr \<Rightarrow> DWORD \<Rightarrow> os \<Rightarrow> (DWORD \<times> os) outcome" where
  "UziWaitSingle tid w handle timeout s = WaitForSingleObject tid w handle timeout s"

definition UziEventIsSet :: "nat \<Rightarrow> surroundings \<Rightarrow> addr \<Rightarrow> os \<Rightarrow> (bool \<times> os) outcome" where
  "UziEventIsSet tid w handle s = and_then (UziWaitSingle tid w handle 0 s) (\<lambda>(status, s). Done (status = WAIT_OBJECT_0, s))"

definition UziCloseHandle :: "nat \<Rightarrow> surroundings \<Rightarrow> addr \<Rightarrow> os \<Rightarrow> (bool \<times> os) outcome" where
  "UziCloseHandle tid w handle s = CloseHandle tid w handle s"

definition UziWaitMulti :: "nat \<Rightarrow> surroundings \<Rightarrow> DWORD \<Rightarrow> addr list \<Rightarrow> bool \<Rightarrow> DWORD \<Rightarrow> os \<Rightarrow> (DWORD \<times> os) outcome" where
  "UziWaitMulti fuel w nCount handles waitAll timeout s = WaitForMultipleObjects fuel w nCount handles waitAll timeout s"

section \<open>Lemmas\<close>

lemmas CloseHandle_defs = CloseHandle_def EventCloseHandle_def SemaphoreCloseHandle_def MutexCloseHandle_def TimerCloseHandle_def IsHandled_defs

lemma fds_sys_close: "fds (sys_close fd s) = (fds s)(fd := None)"
  by (auto simp: sys_close_def split: option.split ofile.split)

lemma objects_sys_close [simp]: "objects (sys_close fd s) = objects s"
  by (auto simp: sys_close_def split: option.split ofile.split)

lemma thread_list_sys_close [simp]: "thread_list (sys_close fd s) = thread_list s"
  by (auto simp: sys_close_def split: option.split ofile.split)

text \<open>The descriptors that belong to an object.\<close>

fun owned_fds :: "kobject \<Rightarrow> int set" where
  "owned_fds (EventObject e) = (if bAttached e then {} else {pipe_fd0 e, pipe_fd1 e} - {- 1})"
| "owned_fds (SemaphoreObject m) = (if sem_fd0 m = - 1 then {} else {sem_fd0 m, sem_fd1 m} - {- 1})"
| "owned_fds (MutexObject m) = {}"
| "owned_fds (TimerObject t) = {tmr_fd t} - {- 1}"
| "owned_fds (ThreadObject t) = {fd \<in> {thr_fd0 t, thr_fd1 t}. 0 \<le> fd}"

lemma CloseHandle_releases:
  assumes "handle_to s h ob" "\<not> is_ThreadObject ob"
  shows "\<exists>s'. CloseHandle tid w h s = Done (True, s') \<and> objects s' = (objects s)(h := None) \<and>
    fds s' = (fds s) |` (- owned_fds ob)"
  using assms
  by (cases ob) (auto simp: CloseHandle_defs handle_to_def GetInfo_handle Let_def fds_sys_close restrict_map_def fun_eq_iff)

end
