(* ===== verification/Barrier.thy ===== *)
theory Barrier
  imports Handles Interlocked
begin

text \<open>
  src/libuzi/barrier.c: synchronisation barriers. Initialisation and deletion are functions on the process
  state; entering is cut at the accesses to the shared structure and to the two events, and interleaved
  between as many threads as the barrier is made for.
\<close>

section \<open>The structure\<close>

record RTL_BARRIER =
  Reserved1 :: LONG
  Reserved2 :: LONG
  Reserved3_0 :: addr
  Reserved3_1 :: addr
  Reserved4 :: DWORD
  Reserved5 :: DWORD

abbreviation ERROR_INVALID_PARAMETER :: DWORD where "ERROR_INVALID_PARAMETER \<equiv> 0x57"
abbreviation SPIN_ONLY :: DWORD where "SPIN_ONLY \<equiv> 1"
abbreviation BLOCK_ONLY :: DWORD where "BLOCK_ONLY \<equiv> 2"

text \<open>
  Initialisation: \<open>mem0\<close>, \<open>mem1\<close> are the blocks and descriptors of the two events, \<open>nproc\<close> the number of processors.
  The result holds the barrier unless the call failed.
\<close>

definition winpr_InitializeSynchronizationBarrier ::
  "nat \<Rightarrow> addr \<times> int \<Rightarrow> addr \<times> int \<Rightarrow> DWORD \<Rightarrow> bool \<Rightarrow> LONG \<Rightarrow> LONG \<Rightarrow> os \<Rightarrow> (RTL_BARRIER option \<times> os) outcome" where
  "winpr_InitializeSynchronizationBarrier tid mem0 mem1 nproc is_null lTotalThreads lSpinCount s =
     (if is_null \<or> sint lTotalThreads < 1 \<or> sint lSpinCount < - 1 then Done (None, SetLastError ERROR_INVALID_PARAMETER s)
      else let lSpinCount = (if lSpinCount = - 1 then 2000 else lSpinCount) in
        and_then (CreateEventA (fst mem0) (snd mem0) True False s) (\<lambda>(hEvent0, s).
          if hEvent0 = NULL then Done (None, s)
          else and_then (CreateEventA (fst mem1) (snd mem1) True False s) (\<lambda>(hEvent1, s).
            if hEvent1 = NULL then and_then (CloseHandle tid no_wait hEvent0 s) (\<lambda>(_, s). Done (None, s))
            else Done (Some \<lparr>Reserved1 = lTotalThreads, Reserved2 = lTotalThreads, Reserved3_0 = hEvent0, Reserved3_1 = hEvent1,
                   Reserved4 = nproc, Reserved5 = lSpinCount\<rparr>, s))))"

text \<open>Deletion waits until every thread of the current phase has left the count; here it has.\<close>

definition winpr_DeleteSynchronizationBarrier :: "nat \<Rightarrow> RTL_BARRIER option \<Rightarrow> os \<Rightarrow> (RTL_BARRIER option \<times> os) outcome" where
  "winpr_DeleteSynchronizationBarrier tid lpBarrier s =
     (case lpBarrier of
        None \<Rightarrow> Done (None, s)
      | Some b \<Rightarrow>
          if Reserved1 b \<noteq> Reserved2 b then Blocks
          else and_then (if Reserved3_0 b \<noteq> NULL then CloseHandle tid no_wait (Reserved3_0 b) s else Done (True, s)) (\<lambda>(_, s).
            and_then (if Reserved3_1 b \<noteq> NULL then CloseHandle tid no_wait (Reserved3_1 b) s else Done (True, s)) (\<lambda>(_, s).
              Done (Some \<lparr>Reserved1 = 0, Reserved2 = 0, Reserved3_0 = NULL, Reserved3_1 = NULL, Reserved4 = 0, Reserved5 = 0\<rparr>, s))))"

text \<open>A successful initialisation: the count is complete, and the two events are different and not set.\<close>

lemma InitializeSynchronizationBarrier_ok:
  assumes "0 < h0" "h0 \<noteq> INVALID_HANDLE_VALUE" "0 < h1" "h1 \<noteq> INVALID_HANDLE_VALUE" "h0 \<noteq> h1" "0 \<le> f0" "0 \<le> f1" "f0 \<noteq> f1"
    and "1 \<le> sint n" "- 1 \<le> sint sp"
  shows "\<exists>b s'. winpr_InitializeSynchronizationBarrier tid (h0, f0) (h1, f1) nproc False n sp s = Done (Some b, s') \<and>
    Reserved1 b = n \<and> Reserved2 b = n \<and> Reserved3_0 b = h0 \<and> Reserved3_1 b = h1 \<and> owned_event False h0 s' \<and> owned_event False h1 s'"
  using assms
  by (auto simp: winpr_InitializeSynchronizationBarrier_def CreateEventA_def CreateEventW_def sys_eventfd_def owned_event_def handle_to_def Let_def)

section \<open>Entering\<close>

text \<open>
  The program points of a thread in \<open>winpr_EnterSynchronizationBarrier\<close>: outside, before the read of the dormant
  event, before the decrement, spinning, blocked on the current event, and the steps of the last thread.
  \<open>entered\<close> and \<open>left\<close> are ghosts: how often the thread has been counted in, and how often it has returned.
\<close>

datatype barrier_pc = B_idle | B_read | B_dec | B_spin | B_block | B_reset | B_count | B_sw1 | B_sw0 | B_set

record barrier_thread =
  bpc :: barrier_pc
  hCurrentEvent :: addr
  hDormantEvent :: addr
  spins :: DWORD
  entered :: nat
  left :: nat

definition returns :: "barrier_thread \<Rightarrow> barrier_thread" where
  "returns l = l\<lparr>bpc := B_idle, left := left l + 1\<rparr>"

text \<open>One step of a thread; \<open>signal\<close> tells which events are set.\<close>

definition winpr_EnterSynchronizationBarrier ::
  "DWORD \<Rightarrow> RTL_BARRIER \<Rightarrow> (addr \<Rightarrow> bool) \<Rightarrow> barrier_thread \<Rightarrow> (RTL_BARRIER \<times> (addr \<Rightarrow> bool) \<times> barrier_thread) option" where
  "winpr_EnterSynchronizationBarrier dwFlags b signal l =
     (case bpc l of
        B_idle \<Rightarrow> Some (b, signal, l\<lparr>bpc := B_read, hCurrentEvent := Reserved3_0 b\<rparr>)
      | B_read \<Rightarrow> Some (b, signal, l\<lparr>bpc := B_dec, hDormantEvent := Reserved3_1 b\<rparr>)
      | B_dec \<Rightarrow>
          (let (remainingThreads, r1) = InterlockedDecrement (Reserved1 b);
               spinOnly = dwFlags AND SPIN_ONLY \<noteq> 0; blockOnly = dwFlags AND BLOCK_ONLY \<noteq> 0
           in Some (b\<lparr>Reserved1 := r1\<rparr>, signal,
                l\<lparr>entered := entered l + 1, spins := 0,
                  bpc := (if 0 < sint remainingThreads
                          then (if spinOnly \<or> remainingThreads < Reserved4 b \<and> \<not> blockOnly then B_spin else B_block)
                          else B_reset)\<rparr>))
      | B_spin \<Rightarrow>
          (if Reserved3_0 b \<noteq> hCurrentEvent l then Some (b, signal, returns l)
           else if dwFlags AND SPIN_ONLY \<noteq> 0 then Some (b, signal, l)
           else let sp = spins l + 1 in Some (b, signal, l\<lparr>spins := sp, bpc := (if sp > Reserved5 b then B_block else B_spin)\<rparr>))
      | B_block \<Rightarrow> if signal (hCurrentEvent l) then Some (b, signal, returns l) else None
      | B_reset \<Rightarrow> Some (b, signal(hDormantEvent l := False), l\<lparr>bpc := B_count\<rparr>)
      | B_count \<Rightarrow> Some (b\<lparr>Reserved1 := Reserved2 b\<rparr>, signal, l\<lparr>bpc := B_sw1\<rparr>)
      | B_sw1 \<Rightarrow> Some (b\<lparr>Reserved3_1 := hCurrentEvent l\<rparr>, signal, l\<lparr>bpc := B_sw0\<rparr>)
      | B_sw0 \<Rightarrow> Some (b\<lparr>Reserved3_0 := hDormantEvent l\<rparr>, signal, l\<lparr>bpc := B_set\<rparr>)
      | B_set \<Rightarrow> Some (b, signal(hCurrentEvent l := True), returns l))"

text \<open>
  The system: \<open>gen\<close> is a ghost that counts the switches of the events, \<open>trues\<close> one that counts the calls that
  returned TRUE.
\<close>

record 't barrier_system =
  bar :: RTL_BARRIER
  signal_of :: "addr \<Rightarrow> bool"
  thr :: "'t \<Rightarrow> barrier_thread"
  gen :: nat
  trues :: nat

definition run_thread :: "DWORD \<Rightarrow> 't \<Rightarrow> 't barrier_system \<Rightarrow> 't barrier_system option" where
  "run_thread dwFlags t s =
     (case winpr_EnterSynchronizationBarrier dwFlags (bar s) (signal_of s) (thr s t) of
        None \<Rightarrow> None
      | Some (b, sg, l) \<Rightarrow> Some \<lparr>bar = b, signal_of = sg, thr = (thr s)(t := l),
          gen = (if bpc (thr s t) = B_sw0 then gen s + 1 else gen s),
          trues = (if bpc (thr s t) = B_set then trues s + 1 else trues s)\<rparr>)"

inductive barrier_reachable :: "'t::finite barrier_system \<Rightarrow> bool" where
  start: "Reserved1 (bar s) = word_of_nat CARD('t) \<Longrightarrow> Reserved2 (bar s) = word_of_nat CARD('t) \<Longrightarrow> CARD('t) < 2 ^ 31 \<Longrightarrow>
    Reserved3_0 (bar s) \<noteq> Reserved3_1 (bar s) \<Longrightarrow> \<forall>h. \<not> signal_of s h \<Longrightarrow>
    \<forall>t. bpc (thr s t) = B_idle \<and> entered (thr s t) = 0 \<and> left (thr s t) = 0 \<Longrightarrow> gen s = 0 \<Longrightarrow> trues s = 0 \<Longrightarrow> barrier_reachable (s :: 't barrier_system)"
| step: "barrier_reachable s \<Longrightarrow> run_thread dwFlags t s = Some s' \<Longrightarrow> barrier_reachable s'"

section \<open>Invariant\<close>

text \<open>
  \<open>c\<close> is the event of the current phase \<open>g\<close> and \<open>d\<close> the other one. A thread between calls has passed \<open>g\<close> phases;
  one that waits is counted in the current phase, or its phase is over and it is about to leave; the last
  thread of a phase is alone.
\<close>

definition thread_ok :: "nat \<Rightarrow> addr \<Rightarrow> addr \<Rightarrow> barrier_thread \<Rightarrow> bool" where
  "thread_ok g c d l \<longleftrightarrow>
     (case bpc l of
        B_idle \<Rightarrow> entered l = g \<and> left l = g
      | B_read \<Rightarrow> entered l = g \<and> left l = g \<and> hCurrentEvent l = c
      | B_dec \<Rightarrow> entered l = g \<and> left l = g \<and> hCurrentEvent l = c \<and> hDormantEvent l = d
      | B_spin \<Rightarrow> entered l = left l + 1 \<and> (left l = g \<and> hCurrentEvent l = c \<or> left l + 1 = g \<and> hCurrentEvent l = d)
      | B_block \<Rightarrow> entered l = left l + 1 \<and> (left l = g \<and> hCurrentEvent l = c \<or> left l + 1 = g \<and> hCurrentEvent l = d)
      | B_set \<Rightarrow> entered l = g \<and> left l + 1 = g \<and> hCurrentEvent l = d
      | _ \<Rightarrow> entered l = g + 1 \<and> left l = g \<and> hCurrentEvent l = c \<and> hDormantEvent l = d)"

definition is_last :: "barrier_pc \<Rightarrow> bool" where
  "is_last p \<longleftrightarrow> p = B_reset \<or> p = B_count \<or> p = B_sw1 \<or> p = B_sw0"

definition waiting :: "barrier_thread \<Rightarrow> bool" where
  "waiting l \<longleftrightarrow> bpc l = B_spin \<or> bpc l = B_block"

definition counted :: "'t barrier_system \<Rightarrow> 't set" where
  "counted s = {t. entered (thr s t) = gen s + 1}"

text \<open>The parts of the invariant: the events, the last thread, the counter, the TRUE results, and those who may leave.\<close>

definition inv_events :: "addr \<Rightarrow> addr \<Rightarrow> 't barrier_system \<Rightarrow> bool" where
  "inv_events c d s \<longleftrightarrow> c \<noteq> d \<and> Reserved3_0 (bar s) = c \<and> Reserved3_1 (bar s) = (if \<exists>t. bpc (thr s t) = B_sw0 then c else d) \<and>
     \<not> signal_of s c \<and> (\<forall>t. bpc (thr s t) = B_count \<or> bpc (thr s t) = B_sw1 \<or> bpc (thr s t) = B_sw0 \<longrightarrow> \<not> signal_of s d)"

definition inv_last :: "'t barrier_system \<Rightarrow> bool" where
  "inv_last s \<longleftrightarrow> (\<forall>t u. is_last (bpc (thr s t)) \<and> is_last (bpc (thr s u)) \<longrightarrow> t = u) \<and>
     (\<forall>t u. bpc (thr s t) = B_set \<and> bpc (thr s u) = B_set \<longrightarrow> t = u) \<and>
     (\<forall>t. is_last (bpc (thr s t)) \<longrightarrow> counted s = UNIV) \<and> (counted s = UNIV \<longrightarrow> (\<exists>t. is_last (bpc (thr s t))))"

definition inv_count :: "'t::finite barrier_system \<Rightarrow> bool" where
  "inv_count s \<longleftrightarrow> CARD('t) < 2 ^ 31 \<and> Reserved2 (bar s) = word_of_nat CARD('t) \<and>
     Reserved1 (bar s) = word_of_nat (if \<exists>t. bpc (thr s t) = B_sw1 \<or> bpc (thr s t) = B_sw0 then CARD('t) else CARD('t) - card (counted s))"

definition inv_trues :: "'t barrier_system \<Rightarrow> bool" where
  "inv_trues s \<longleftrightarrow> trues s + (if \<exists>t. bpc (thr s t) = B_set then 1 else 0) = gen s"

definition inv_lag :: "addr \<Rightarrow> 't barrier_system \<Rightarrow> bool" where
  "inv_lag d s \<longleftrightarrow> (\<forall>t. waiting (thr s t) \<and> entered (thr s t) = gen s \<longrightarrow> signal_of s d \<or> (\<exists>u. bpc (thr s u) = B_set))"

definition barrier_inv :: "addr \<Rightarrow> addr \<Rightarrow> 't::finite barrier_system \<Rightarrow> bool" where
  "barrier_inv c d s \<longleftrightarrow> (\<forall>t. thread_ok (gen s) c d (thr s t)) \<and> inv_events c d s \<and> inv_last s \<and> inv_count s \<and> inv_trues s \<and> inv_lag d s"

lemmas inv_part_defs = inv_events_def inv_last_def inv_count_def inv_trues_def inv_lag_def

lemma barrier_inv_start:
  fixes s :: "'t::finite barrier_system"
  assumes "Reserved1 (bar s) = word_of_nat CARD('t)" "Reserved2 (bar s) = word_of_nat CARD('t)" "CARD('t) < 2 ^ 31"
    and "Reserved3_0 (bar s) \<noteq> Reserved3_1 (bar s)" "\<forall>h. \<not> signal_of s h"
    and "\<forall>t. bpc (thr s t) = B_idle \<and> entered (thr s t) = 0 \<and> left (thr s t) = 0" "gen s = 0" "trues s = 0"
  shows "barrier_inv (Reserved3_0 (bar s)) (Reserved3_1 (bar s)) s"
proof -
  have "counted s = {}" using assms(6,7) by (simp add: counted_def)
  then show ?thesis using assms by (simp add: barrier_inv_def inv_part_defs thread_ok_def is_last_def waiting_def)
qed

text \<open>A step that neither counts a thread nor belongs to the last thread.\<close>

lemma quiet_step:
  assumes inv: "barrier_inv c d s" and new: "thread_ok (gen s) c d l" "entered l = entered (thr s t)"
    and old: "bpc (thr s t) \<in> {B_idle, B_read, B_dec, B_spin, B_block}" "bpc l \<in> {B_idle, B_read, B_dec, B_spin, B_block}"
    and lag: "waiting l \<Longrightarrow> waiting (thr s t)"
  shows "barrier_inv c d (s\<lparr>thr := (thr s)(t := l)\<rparr>)"
proof -
  define s' where "s' = s\<lparr>thr := (thr s)(t := l)\<rparr>"
  have same: "bar s' = bar s" "signal_of s' = signal_of s" "gen s' = gen s" "trues s' = trues s" by (simp_all add: s'_def)
  have pcs: "is_last (bpc (thr s' u)) = is_last (bpc (thr s u))" "(bpc (thr s' u) = B_count) = (bpc (thr s u) = B_count)"
      "(bpc (thr s' u) = B_sw1) = (bpc (thr s u) = B_sw1)" "(bpc (thr s' u) = B_sw0) = (bpc (thr s u) = B_sw0)"
      "(bpc (thr s' u) = B_set) = (bpc (thr s u) = B_set)" for u
    using old by (auto simp: s'_def is_last_def)
  have ent: "entered (thr s' u) = entered (thr s u)" for u using new(2) by (simp add: s'_def)
  have cnt: "counted s' = counted s" by (simp add: counted_def ent same)
  have wt: "waiting (thr s' u) \<Longrightarrow> waiting (thr s u)" for u using lag by (cases "u = t") (auto simp: s'_def)
  have ok: "\<forall>u. thread_ok (gen s) c d (thr s' u)" using inv new(1) by (simp add: barrier_inv_def s'_def)
  have "inv_events c d s' = inv_events c d s" "inv_last s' = inv_last s" "inv_count s' = inv_count s" "inv_trues s' = inv_trues s"
    by (simp_all add: inv_part_defs pcs same cnt)
  moreover have "inv_lag d s'" using inv wt unfolding barrier_inv_def inv_lag_def same ent pcs by blast
  ultimately show ?thesis using inv ok unfolding barrier_inv_def s'_def [symmetric] same by blast
qed

text \<open>While the last thread \<open>t\<close> works at point \<open>p\<close>, everybody else waits in the current phase.\<close>

definition lone_last :: "'t \<Rightarrow> barrier_pc \<Rightarrow> addr \<Rightarrow> addr \<Rightarrow> 't::finite barrier_system \<Rightarrow> bool" where
  "lone_last t p c d s \<longleftrightarrow> is_last p \<and> bpc (thr s t) = p \<and> (\<forall>u. thread_ok (gen s) c d (thr s u)) \<and> (\<forall>u. entered (thr s u) = gen s + 1) \<and>
     (\<forall>u. u \<noteq> t \<longrightarrow> waiting (thr s u)) \<and> c \<noteq> d \<and> Reserved3_0 (bar s) = c \<and> Reserved3_1 (bar s) = (if p = B_sw0 then c else d) \<and>
     \<not> signal_of s c \<and> (p \<noteq> B_reset \<longrightarrow> \<not> signal_of s d) \<and> CARD('t) < 2 ^ 31 \<and> Reserved2 (bar s) = word_of_nat CARD('t) \<and>
     Reserved1 (bar s) = (if p = B_sw1 \<or> p = B_sw0 then word_of_nat CARD('t) else 0) \<and> trues s = gen s"

lemma waiting_pcs [simp]:
  "waiting l \<Longrightarrow> \<not> is_last (bpc l)" "waiting l \<Longrightarrow> bpc l \<noteq> B_set" "waiting l \<Longrightarrow> bpc l \<noteq> B_count"
  "waiting l \<Longrightarrow> bpc l \<noteq> B_sw1" "waiting l \<Longrightarrow> bpc l \<noteq> B_sw0"
  by (auto simp: waiting_def is_last_def)

lemma lone_last_inv:
  assumes "lone_last t p c d s"
  shows "barrier_inv c d s"
proof -
  have pc: "bpc (thr s t) = p" "is_last p" and others: "\<And>u. u \<noteq> t \<Longrightarrow> waiting (thr s u)" and ent: "\<And>u. entered (thr s u) = gen s + 1"
    using assms by (auto simp: lone_last_def)
  have cnt: "counted s = UNIV" by (simp add: counted_def ent)
  have only: "is_last (bpc (thr s u)) \<longleftrightarrow> u = t" "bpc (thr s u) \<noteq> B_set" "bpc (thr s u) = q \<Longrightarrow> is_last q \<Longrightarrow> u = t" for u q
    using pc others [of u] waiting_pcs [of "thr s u"] by (cases "u = t"; auto simp: is_last_def)+
  have ex: "(\<exists>u. bpc (thr s u) = B_sw0) \<longleftrightarrow> p = B_sw0" "(\<exists>u. bpc (thr s u) = B_sw1 \<or> bpc (thr s u) = B_sw0) \<longleftrightarrow> p = B_sw1 \<or> p = B_sw0"
    using only(3) pc(1) unfolding is_last_def by blast+
  have dsig: "\<not> signal_of s d" if "bpc (thr s u) = B_count \<or> bpc (thr s u) = B_sw1 \<or> bpc (thr s u) = B_sw0" for u
    using that only(3) [of u] pc(1) assms by (auto simp: lone_last_def is_last_def)
  have "inv_events c d s" "inv_last s" "inv_count s" "inv_trues s" "inv_lag d s"
    using assms cnt ex only(1,2) ent dsig unfolding inv_part_defs lone_last_def by simp_all
  then show ?thesis using assms by (simp add: barrier_inv_def lone_last_def)
qed

lemma lone_lastI:
  assumes inv: "barrier_inv c d s" and last: "is_last (bpc (thr s t))"
  shows "lone_last t (bpc (thr s t)) c d s"
proof -
  have ok: "thread_ok (gen s) c d (thr s u)" for u using inv by (simp add: barrier_inv_def)
  have ent: "entered (thr s u) = gen s + 1" for u
    using inv last unfolding barrier_inv_def inv_last_def counted_def by blast
  have uniq: "is_last (bpc (thr s u)) \<Longrightarrow> u = t" for u using inv last unfolding barrier_inv_def inv_last_def by blast
  have noset: "bpc (thr s u) \<noteq> B_set" for u using ok [of u] ent [of u] by (auto simp: thread_ok_def)
  have others: "waiting (thr s u)" if "u \<noteq> t" for u
    using ok [of u] ent [of u] uniq [of u] that by (auto simp: thread_ok_def waiting_def is_last_def split: barrier_pc.splits)
  have only: "bpc (thr s u) = q \<Longrightarrow> is_last q \<Longrightarrow> u = t" for u q using uniq by blast
  have ex: "(\<exists>u. bpc (thr s u) = B_sw0) \<longleftrightarrow> bpc (thr s t) = B_sw0"
      "(\<exists>u. bpc (thr s u) = B_sw1 \<or> bpc (thr s u) = B_sw0) \<longleftrightarrow> bpc (thr s t) = B_sw1 \<or> bpc (thr s t) = B_sw0"
    using only unfolding is_last_def by blast+
  have "counted s = UNIV" by (simp add: counted_def ent)
  then show ?thesis
    using inv last ok ent others ex noset unfolding barrier_inv_def inv_events_def inv_count_def inv_trues_def lone_last_def
    by (auto simp: is_last_def)
qed

text \<open>The steps of the last thread before the switch.\<close>

lemma last_move:
  fixes s :: "'t::finite barrier_system"
  assumes "lone_last t p c d s" "is_last q" "s' = s\<lparr>bar := b, signal_of := sg, thr := (thr s)(t := (thr s t)\<lparr>bpc := q\<rparr>)\<rparr>"
    and "Reserved3_0 b = c" "Reserved3_1 b = (if q = B_sw0 then c else d)" "\<not> sg c" "q \<noteq> B_reset \<Longrightarrow> \<not> sg d" "Reserved2 b = Reserved2 (bar s)"
    and "Reserved1 b = (if q = B_sw1 \<or> q = B_sw0 then word_of_nat CARD('t) else 0)"
  shows "lone_last t q c d s'"
proof -
  have "thread_ok (gen s) c d ((thr s t)\<lparr>bpc := q\<rparr>)"
    using assms(1,2) unfolding lone_last_def is_last_def by (auto simp: thread_ok_def split: barrier_pc.splits dest!: spec [of _ t])
  then show ?thesis using assms unfolding lone_last_def assms(3) by simp
qed

lemma last_steps:
  assumes "lone_last t p c d s" "run_thread f t s = Some s'"
  shows "p = B_reset \<Longrightarrow> lone_last t B_count c d s'" and "p = B_count \<Longrightarrow> lone_last t B_sw1 c d s'"
    and "p = B_sw1 \<Longrightarrow> lone_last t B_sw0 c d s'"
proof -
  have ok: "thread_ok (gen s) c d (thr s t)" and pc: "bpc (thr s t) = p" using assms(1) by (auto simp: lone_last_def)
  note run = assms(2) [unfolded run_thread_def winpr_EnterSynchronizationBarrier_def pc]
  note facts = assms(1) [unfolded lone_last_def]
  show "lone_last t B_count c d s'" if "p = B_reset"
    using run that ok pc facts by (intro last_move [OF assms(1), where b = "bar s" and sg = "(signal_of s)(d := False)"]) (auto simp: is_last_def thread_ok_def)
  show "lone_last t B_sw1 c d s'" if "p = B_count"
    using run that ok pc facts by (intro last_move [OF assms(1), where b = "(bar s)\<lparr>Reserved1 := Reserved2 (bar s)\<rparr>" and sg = "signal_of s"]) (auto simp: is_last_def thread_ok_def)
  show "lone_last t B_sw0 c d s'" if "p = B_sw1"
    using run that ok pc facts by (intro last_move [OF assms(1), where b = "(bar s)\<lparr>Reserved3_1 := c\<rparr>" and sg = "signal_of s"]) (auto simp: is_last_def thread_ok_def)
qed

text \<open>The switch: the next phase begins, and everybody who waited may leave.\<close>

lemma switch_step:
  assumes "lone_last t B_sw0 c d s" "run_thread f t s = Some s'"
  shows "barrier_inv d c s'"
proof -
  let ?l = "(thr s t)\<lparr>bpc := B_set\<rparr>"
  have l: "thread_ok (gen s) c d (thr s t)" "bpc (thr s t) = B_sw0" and others: "\<And>u. u \<noteq> t \<Longrightarrow> waiting (thr s u)"
    and ok: "\<And>u. thread_ok (gen s) c d (thr s u)" and ent: "\<And>u. entered (thr s u) = gen s + 1"
    using assms(1) by (auto simp: lone_last_def)
  have dorm: "hDormantEvent (thr s t) = d" "hCurrentEvent (thr s t) = c" "left (thr s t) = gen s" using l by (auto simp: thread_ok_def)
  have s': "s' = \<lparr>bar = (bar s)\<lparr>Reserved3_0 := d\<rparr>, signal_of = signal_of s, thr = (thr s)(t := ?l), gen = gen s + 1, trues = trues s\<rparr>"
    using assms(2) l(2) dorm by (simp add: run_thread_def winpr_EnterSynchronizationBarrier_def)
  have thr: "thr s' t = ?l" "u \<noteq> t \<Longrightarrow> thr s' u = thr s u" and g: "gen s' = gen s + 1" for u by (simp_all add: s')
  have ok': "thread_ok (gen s') d c (thr s' u)" for u
  proof (cases "u = t")
    case False
    then show ?thesis using ok [of u] others [of u] ent [of u] thr(2) [of u] unfolding g
      by (auto simp: thread_ok_def waiting_def)
  qed (use ent [of t] dorm in \<open>simp add: thr g thread_ok_def\<close>)
  have pcs: "\<not> is_last (bpc (thr s' u))" "bpc (thr s' u) = B_set \<longleftrightarrow> u = t" for u
    using others [of u] thr waiting_pcs [of "thr s u"] by (cases "u = t"; simp add: is_last_def)+
  then have none: "bpc (thr s' u) \<noteq> B_sw0" "bpc (thr s' u) \<noteq> B_sw1" "bpc (thr s' u) \<noteq> B_count" for u by (auto simp: is_last_def)
  have cnt: "counted s' = {}" using ent thr by (auto simp: counted_def g s')
  have "inv_events d c s'" "inv_last s'" "inv_count s'" "inv_trues s'" "inv_lag c s'"
    using assms(1) pcs none cnt unfolding inv_part_defs lone_last_def by (auto simp: s')
  then show ?thesis using ok' by (simp add: barrier_inv_def)
qed

text \<open>The signal of the last thread.\<close>

lemma set_step:
  assumes inv: "barrier_inv c d s" and pc: "bpc (thr s t) = B_set" and run: "run_thread f t s = Some s'"
  shows "barrier_inv c d s'"
proof -
  let ?l = "returns (thr s t)"
  have ok: "thread_ok (gen s) c d (thr s u)" for u using inv by (simp add: barrier_inv_def)
  have l: "hCurrentEvent (thr s t) = d" "entered (thr s t) = gen s" "left (thr s t) + 1 = gen s" using ok [of t] pc by (auto simp: thread_ok_def)
  have s': "s' = \<lparr>bar = bar s, signal_of = (signal_of s)(d := True), thr = (thr s)(t := ?l), gen = gen s, trues = trues s + 1\<rparr>"
    using run pc l by (simp add: run_thread_def winpr_EnterSynchronizationBarrier_def)
  have thr: "thr s' t = ?l" "u \<noteq> t \<Longrightarrow> thr s' u = thr s u" for u by (simp_all add: s')
  have ok': "thread_ok (gen s') c d (thr s' u)" for u
    using ok [of u] l thr by (cases "u = t") (simp_all add: s' thread_ok_def returns_def)
  have "t \<notin> counted s" by (simp add: counted_def l)
  then have "counted s \<noteq> UNIV" by blast
  then have nolast: "\<not> is_last (bpc (thr s u))" for u using inv unfolding barrier_inv_def inv_last_def by blast
  have set: "bpc (thr s u) = B_set \<Longrightarrow> u = t" for u using inv pc unfolding barrier_inv_def inv_last_def by blast
  have pcs: "\<not> is_last (bpc (thr s' u)) \<and> bpc (thr s' u) \<noteq> B_set" for u
  proof (cases "u = t")
    case False
    then show ?thesis using nolast [of u] set [of u] unfolding thr(2) [OF False] by blast
  qed (simp add: thr(1) returns_def is_last_def)
  have none: "bpc (thr r u) \<noteq> B_sw0" "bpc (thr r u) \<noteq> B_sw1" "bpc (thr r u) \<noteq> B_count" if "r = s \<or> r = s'" for r u
    using pcs [of u] nolast [of u] that by (auto simp: is_last_def)
  have cnt: "counted s' = counted s" unfolding counted_def s' by (auto simp: returns_def)
  have parts: "bar s' = bar s" "signal_of s' = (signal_of s)(d := True)" "gen s' = gen s" "trues s' = trues s + 1" by (simp_all add: s')
  have ex: "\<exists>u. bpc (thr s u) = B_set" using pc by blast
  note I = inv [unfolded barrier_inv_def]
  have "inv_events c d s'" using I none unfolding inv_events_def parts by simp
  moreover have "inv_last s'" using I pcs \<open>counted s \<noteq> UNIV\<close> unfolding inv_last_def cnt by simp
  moreover have "inv_count s'" using I none unfolding inv_count_def cnt parts by simp
  moreover have "inv_trues s'" using I pcs ex unfolding inv_trues_def parts by simp
  moreover have "inv_lag d s'" unfolding inv_lag_def parts by simp
  ultimately have "inv_events c d s'" "inv_last s'" "inv_count s'" "inv_trues s'" "inv_lag d s'" by blast+
  then show ?thesis using ok' by (simp add: barrier_inv_def)
qed

text \<open>The decrement.\<close>

lemma word_count_down:
  assumes "0 < n" "n < 2 ^ 31"
  shows "(word_of_nat n - 1 :: LONG) = word_of_nat (n - 1)" and "0 < sint (word_of_nat (n - 1) :: LONG) \<longleftrightarrow> 1 < n"
proof -
  show "(word_of_nat n - 1 :: LONG) = word_of_nat (n - 1)" using assms(1) by (simp add: of_nat_diff)
  have "sint (word_of_int (int (n - 1)) :: LONG) = int (n - 1)" using assms(2) by (intro sint_word_of_int_small) simp_all
  then show "0 < sint (word_of_nat (n - 1) :: LONG) \<longleftrightarrow> 1 < n" by simp
qed

lemma dec_step:
  fixes s :: "'t::finite barrier_system"
  assumes inv: "barrier_inv c d s" and pc: "bpc (thr s t) = B_dec" and run: "run_thread f t s = Some s'"
  shows "barrier_inv c d s'"
proof -
  define n where "n = CARD('t) - card (counted s)"
  have ok: "thread_ok (gen s) c d (thr s u)" for u using inv by (simp add: barrier_inv_def)
  have l: "entered (thr s t) = gen s" "left (thr s t) = gen s" "hCurrentEvent (thr s t) = c" "hDormantEvent (thr s t) = d"
    using ok [of t] pc by (auto simp: thread_ok_def)
  have t: "t \<notin> counted s" by (simp add: counted_def l)
  then have nu: "counted s \<noteq> UNIV" by blast
  then have nolast: "\<not> is_last (bpc (thr s u))" for u using inv unfolding barrier_inv_def inv_last_def by blast
  have none: "bpc (thr s u) \<noteq> B_sw0" "bpc (thr s u) \<noteq> B_sw1" "bpc (thr s u) \<noteq> B_count" for u using nolast [of u] by (auto simp: is_last_def)
  have N: "CARD('t) < 2 ^ 31" "Reserved1 (bar s) = word_of_nat n" using inv none unfolding barrier_inv_def inv_count_def n_def by auto
  have n: "0 < n" using nu by (simp add: n_def psubset_card_mono psubset_eq)
  have n31: "n < 2 ^ 31" using N(1) by (simp add: n_def)
  define r where "r = (word_of_nat n - 1 :: LONG)"
  have r: "r = word_of_nat (n - 1)" "0 < sint r \<longleftrightarrow> 1 < n" using word_count_down [OF n n31] by (simp_all only: r_def)
  define p where "p = (if 1 < n then (if f AND SPIN_ONLY \<noteq> 0 \<or> r < Reserved4 (bar s) \<and> \<not> f AND BLOCK_ONLY \<noteq> 0
    then B_spin else B_block) else B_reset)"
  have p: "if 1 < n then p = B_spin \<or> p = B_block else p = B_reset"
      "thr s' = (thr s)(t := (thr s t)\<lparr>entered := gen s + 1, spins := 0, bpc := p\<rparr>)" "bar s' = (bar s)\<lparr>Reserved1 := r\<rparr>"
      "signal_of s' = signal_of s" "gen s' = gen s" "trues s' = trues s"
    using run pc l(1) unfolding run_thread_def winpr_EnterSynchronizationBarrier_def InterlockedDecrement_def N(2) Let_def r_def [symmetric] p_def
    by (auto simp: r(2))
  let ?l = "(thr s t)\<lparr>entered := gen s + 1, spins := 0, bpc := p\<rparr>"
  have thr: "thr s' t = ?l" "u \<noteq> t \<Longrightarrow> thr s' u = thr s u" "gen s' = gen s" for u by (simp_all add: p)
  have cnt: "counted s' = insert t (counted s)" unfolding counted_def p(2,5) by auto
  have card: "CARD('t) - card (counted s') = n - 1" using t by (simp add: cnt n_def)
  have ok': "thread_ok (gen s') c d (thr s' u)" for u
    using ok [of u] l p(1) thr by (cases "u = t") (auto simp: thread_ok_def split: if_splits)
  show ?thesis
  proof (cases "1 < n")
    case True
    then have w: "waiting ?l" using p(1) by (simp add: waiting_def)
    have nu': "counted s' \<noteq> UNIV" using card True by (metis cancel_comm_monoid_add_class.diff_cancel less_numeral_extra(3) zero_less_diff)
    have pcs: "\<not> is_last (bpc (thr s' u))" "bpc (thr s' u) = B_set \<longleftrightarrow> bpc (thr s u) = B_set" for u
      using nolast [of u] w pc thr waiting_pcs [OF w] by (cases "u = t"; simp)+
    have none': "bpc (thr s' u) \<noteq> B_sw0" "bpc (thr s' u) \<noteq> B_sw1" "bpc (thr s' u) \<noteq> B_count" for u using pcs(1) [of u] by (auto simp: is_last_def)
    have lag: "waiting (thr s' u) \<and> entered (thr s' u) = gen s \<Longrightarrow> waiting (thr s u) \<and> entered (thr s u) = gen s" for u
      using thr by (cases "u = t") auto
    have "inv_events c d s'" "inv_last s'" "inv_count s'" "inv_trues s'"
      using inv pcs none none' nu' card unfolding barrier_inv_def inv_part_defs by (simp_all only: p(3-6) r(1) n_def [symmetric], simp_all)
    moreover have "inv_lag d s'" using inv lag pcs(2) unfolding barrier_inv_def inv_lag_def thr(3) p(4) by blast
    ultimately show ?thesis using ok' by (simp add: barrier_inv_def)
  next
    case False
    then have one: "n = 1" and pr: "p = B_reset" using n p(1) by auto
    then have "card (counted s') = CARD('t)" using card card_mono [OF finite subset_UNIV, of "counted s'"] by simp
    then have all: "counted s' = UNIV" by (metis card_subset_eq finite subset_UNIV)
    then have ent: "entered (thr s' u) = gen s' + 1" for u by (auto simp: counted_def)
    have "bpc (thr s u) \<noteq> B_set" if "u \<noteq> t" for u using ok [of u] ent [of u] thr that by (auto simp: thread_ok_def)
    then have others: "waiting (thr s' u)" if "u \<noteq> t" for u
      using ok [of u] ent [of u] nolast [of u] thr that by (auto simp: thread_ok_def waiting_def is_last_def split: barrier_pc.splits)
    have noset: "bpc (thr s u) \<noteq> B_set" for u using others [of u] thr pc by (cases "u = t") auto
    have "lone_last t B_reset c d s'"
      using inv ok' ent others pr one none noset thr N unfolding lone_last_def barrier_inv_def inv_part_defs
      by (simp add: p(3-6) r(1) is_last_def)
    then show ?thesis by (rule lone_last_inv)
  qed
qed

lemma no_last:
  assumes "barrier_inv c d s" "entered (thr s t) = gen s"
  shows "\<not> is_last (bpc (thr s u))"
proof -
  have "t \<notin> counted s" by (simp add: counted_def assms(2))
  then show ?thesis using assms(1) unfolding barrier_inv_def inv_last_def by blast
qed

text \<open>Every step of every thread keeps the invariant, with the events exchanged at a switch.\<close>

lemma barrier_inv_step:
  assumes inv: "barrier_inv c d s" and run: "run_thread f t s = Some s'"
  shows "barrier_inv c d s' \<or> barrier_inv d c s'"
proof -
  have ok: "thread_ok (gen s) c d (thr s t)" and ev: "inv_events c d s" using inv by (auto simp: barrier_inv_def)
  have keep: "bar s' = bar s \<Longrightarrow> signal_of s' = signal_of s \<Longrightarrow> gen s' = gen s \<Longrightarrow> trues s' = trues s \<Longrightarrow> thr s' = (thr s)(t := l) \<Longrightarrow>
      barrier_inv c d (s\<lparr>thr := (thr s)(t := l)\<rparr>) \<Longrightarrow> barrier_inv c d s'" for l
    by (cases s; cases s') simp
  note step = run [unfolded run_thread_def winpr_EnterSynchronizationBarrier_def]
  show ?thesis
  proof (cases "bpc (thr s t)")
    case B_idle
    have "barrier_inv c d s'"
      by (rule keep [OF _ _ _ _ _ quiet_step [OF inv, of "(thr s t)\<lparr>bpc := B_read, hCurrentEvent := Reserved3_0 (bar s)\<rparr>"]])
        (use B_idle step ok ev in \<open>auto simp: thread_ok_def waiting_def inv_events_def\<close>)
    then show ?thesis ..
  next
    case B_read
    then have "entered (thr s t) = gen s" using ok by (simp add: thread_ok_def)
    then have "\<not> (\<exists>u. bpc (thr s u) = B_sw0)" using no_last [OF inv] unfolding is_last_def by blast
    then have "Reserved3_1 (bar s) = d" using ev by (simp add: inv_events_def)
    then have "barrier_inv c d s'"
      by (intro keep [OF _ _ _ _ _ quiet_step [OF inv, of "(thr s t)\<lparr>bpc := B_dec, hDormantEvent := Reserved3_1 (bar s)\<rparr>"]])
        (use B_read step ok in \<open>auto simp: thread_ok_def waiting_def\<close>)
    then show ?thesis ..
  next
    case B_dec
    then show ?thesis using dec_step [OF inv _ run] by blast
  next
    case B_spin
    let ?l = "thr s' t"
    have l: "bar s' = bar s" "signal_of s' = signal_of s" "gen s' = gen s" "trues s' = trues s" "thr s' = (thr s)(t := ?l)"
        "entered ?l = entered (thr s t)" "bpc ?l \<in> {B_idle, B_spin, B_block}" "thread_ok (gen s) c d ?l"
      using B_spin step ok ev by (auto simp: thread_ok_def inv_events_def returns_def Let_def split: if_splits)
    have "barrier_inv c d s'"
      by (rule keep [OF l(1-5)], rule quiet_step [OF inv l(8,6)]) (use B_spin l(7) in \<open>auto simp: waiting_def\<close>)
    then show ?thesis ..
  next
    case B_block
    have "barrier_inv c d s'"
      by (rule keep [OF _ _ _ _ _ quiet_step [OF inv, of "returns (thr s t)"]])
        (use B_block step ok ev in \<open>auto simp: thread_ok_def waiting_def inv_events_def returns_def split: if_splits\<close>)
    then show ?thesis ..
  next
    case B_set
    then show ?thesis using set_step [OF inv _ run] by blast
  next
    case B_sw0
    then show ?thesis using switch_step [OF _ run] lone_lastI [OF inv, of t] by (auto simp: is_last_def)
  next
    case B_reset
    then have "lone_last t B_reset c d s" using lone_lastI [OF inv, of t] by (simp add: is_last_def)
    then show ?thesis using last_steps(1) [OF _ run] lone_last_inv by blast
  next
    case B_count
    then have "lone_last t B_count c d s" using lone_lastI [OF inv, of t] by (simp add: is_last_def)
    then show ?thesis using last_steps(2) [OF _ run] lone_last_inv by blast
  next
    case B_sw1
    then have "lone_last t B_sw1 c d s" using lone_lastI [OF inv, of t] by (simp add: is_last_def)
    then show ?thesis using last_steps(3) [OF _ run] lone_last_inv by blast
  qed
qed

lemma barrier_reachable_inv: "barrier_reachable s \<Longrightarrow> \<exists>c d. barrier_inv c d s"
  by (induction rule: barrier_reachable.induct) (use barrier_inv_start barrier_inv_step in blast)+

section \<open>Properties\<close>

lemma lagging_event:
  assumes "thread_ok g c d l" "waiting l" "entered l = g"
  shows "hCurrentEvent l = d"
proof -
  have "entered l = left l + 1 \<and> (left l = g \<and> hCurrentEvent l = c \<or> left l + 1 = g \<and> hCurrentEvent l = d)"
    using assms(1,2) unfolding thread_ok_def waiting_def by (cases "bpc l") simp_all
  then show ?thesis using assms(3) by (metis Suc_eq_plus1 n_not_Suc_n)
qed

lemma barrier_inv_bounds:
  assumes "barrier_inv c d s"
  shows "left (thr s t) \<le> gen s \<and> gen s \<le> entered (thr s t) \<and> entered (thr s t) \<le> gen s + 1"
proof -
  have "thread_ok (gen s) c d (thr s t)" using assms by (simp add: barrier_inv_def)
  then show ?thesis by (auto simp: thread_ok_def split: barrier_pc.splits)
qed

text \<open>A schedule: the flags and the thread of each step.\<close>

fun run_schedule :: "(DWORD \<times> 't) list \<Rightarrow> 't barrier_system \<Rightarrow> 't barrier_system option" where
  "run_schedule [] s = Some s"
| "run_schedule ((f, t) # sched) s = (case run_thread f t s of None \<Rightarrow> None | Some s' \<Rightarrow> run_schedule sched s')"

lemma run_schedule_reachable: "barrier_reachable s \<Longrightarrow> run_schedule sched s = Some s' \<Longrightarrow> barrier_reachable s'"
proof (induction sched arbitrary: s)
  case (Cons ft sched)
  obtain f t where ft: "ft = (f, t)" by (cases ft)
  with Cons.prems(2) obtain s1 where s1: "run_thread f t s = Some s1" "run_schedule sched s1 = Some s'" by (auto split: option.splits)
  then show ?case using Cons.IH [OF barrier_reachable.step [OF Cons.prems(1) s1(1)]] by blast
qed simp

text \<open>Two threads: one enters and blocks, the other one is the last, releases it and returns.\<close>

definition barrier_demo :: "bool barrier_system" where
  "barrier_demo = \<lparr>bar = \<lparr>Reserved1 = 2, Reserved2 = 2, Reserved3_0 = 100, Reserved3_1 = 200, Reserved4 = 4, Reserved5 = 2000\<rparr>, signal_of = (\<lambda>_. False),
     thr = (\<lambda>_. \<lparr>bpc = B_idle, hCurrentEvent = 0, hDormantEvent = 0, spins = 0, entered = 0, left = 0\<rparr>), gen = 0, trues = 0\<rparr>"

lemma barrier_demo_reachable: "barrier_reachable barrier_demo"
  by (rule barrier_reachable.start) (simp_all add: barrier_demo_def)

lemma barrier_demo_run:
  "\<exists>s. run_schedule (replicate 3 (BLOCK_ONLY, False) @ replicate 8 (BLOCK_ONLY, True)) barrier_demo = Some s \<and>
    left (thr s True) = 1 \<and> bpc (thr s True) = B_idle \<and> bpc (thr s False) = B_block \<and> entered (thr s False) = gen s"
  by (simp add: eval_nat_numeral barrier_demo_def run_thread_def winpr_EnterSynchronizationBarrier_def InterlockedDecrement_def returns_def)

text \<open>
  C31: the barrier holds its threads back. In every reachable state of the threads it is made for, a thread that
  has returned from \<open>k\<close> calls finds that every thread has entered at least \<open>k\<close> times; no thread is more than one
  phase ahead of the completed phases; and every completed phase returned TRUE to exactly one thread, up to
  the one that is about to return.
\<close>

theorem barrier_holds_back:
  assumes "barrier_reachable s"
  shows "(\<forall>t u. left (thr s t) \<le> entered (thr s u)) \<and> (\<forall>t. gen s \<le> entered (thr s t) \<and> entered (thr s t) \<le> gen s + 1) \<and>
    trues s + card {t. bpc (thr s t) = B_set} = gen s"
proof -
  obtain c d where inv: "barrier_inv c d s" using barrier_reachable_inv [OF assms] by blast
  note ok = barrier_inv_bounds [OF inv]
  have "trues s + card {t. bpc (thr s t) = B_set} = gen s"
  proof (cases "\<exists>t. bpc (thr s t) = B_set")
    case True
    then obtain t where "bpc (thr s t) = B_set" by blast
    then have "{t. bpc (thr s t) = B_set} = {t}" using inv unfolding barrier_inv_def inv_last_def by blast
    then show ?thesis using inv True unfolding barrier_inv_def inv_trues_def by simp
  next
    case False
    then show ?thesis using inv unfolding barrier_inv_def inv_trues_def by simp
  qed
  then show ?thesis using ok by (meson le_trans)
qed

theorem barrier_holds_back_witness:
  "\<exists>s :: bool barrier_system. barrier_reachable s \<and> left (thr s True) = 1 \<and> 1 \<le> entered (thr s False) \<and>
    trues s + card {t. bpc (thr s t) = B_set} = gen s"
proof -
  obtain s where s: "run_schedule (replicate 3 (BLOCK_ONLY, False) @ replicate 8 (BLOCK_ONLY, True)) barrier_demo = Some s" "left (thr s True) = 1"
    using barrier_demo_run by blast
  have r: "barrier_reachable s" by (rule run_schedule_reachable [OF barrier_demo_reachable s(1)])
  have "left (thr s True) \<le> entered (thr s False)" "trues s + card {t. bpc (thr s t) = B_set} = gen s" using barrier_holds_back [OF r] by blast+
  then show ?thesis using r s(2) by auto
qed

text \<open>
  C32: the barrier does not strand its threads. In every reachable state in which no thread is outside, some
  thread inside has a next step; and a thread that waits although its phase is over can return, or the last
  thread of that phase is about to signal it.
\<close>

theorem barrier_no_deadlock:
  assumes "barrier_reachable s"
  shows "((\<forall>t. bpc (thr s t) \<noteq> B_idle) \<longrightarrow> (\<exists>t. run_thread f t s \<noteq> None)) \<and>
    (\<forall>t. waiting (thr s t) \<and> entered (thr s t) = gen s \<longrightarrow> run_thread f t s \<noteq> None \<or> (\<exists>u. bpc (thr s u) = B_set))"
proof -
  obtain c d where inv: "barrier_inv c d s" using barrier_reachable_inv [OF assms] by blast
  have run: "run_thread f t s \<noteq> None" if "bpc (thr s t) \<noteq> B_block \<or> signal_of s (hCurrentEvent (thr s t))" for t
    using that by (auto simp: run_thread_def winpr_EnterSynchronizationBarrier_def Let_def split: barrier_pc.splits prod.splits)
  have lag: "run_thread f t s \<noteq> None \<or> (\<exists>u. bpc (thr s u) = B_set)" if "waiting (thr s t)" "entered (thr s t) = gen s" for t
  proof (cases "\<exists>u. bpc (thr s u) = B_set")
    case False
    then have "signal_of s d" using inv that unfolding barrier_inv_def inv_lag_def by blast
    moreover have "thread_ok (gen s) c d (thr s t)" using inv by (simp add: barrier_inv_def)
    then have "hCurrentEvent (thr s t) = d" using that by (rule lagging_event)
    ultimately show ?thesis using run [of t] by simp
  qed simp
  have "\<exists>t. run_thread f t s \<noteq> None"
  proof (cases "\<exists>t. bpc (thr s t) \<noteq> B_block")
    case False
    then have b: "bpc (thr s t) = B_block" for t by blast
    then have "\<not> is_last (bpc (thr s t))" "bpc (thr s t) \<noteq> B_set" for t by (simp_all add: is_last_def)
    then have "counted s \<noteq> UNIV" using inv unfolding barrier_inv_def inv_last_def by blast
    then obtain t where "entered (thr s t) \<noteq> gen s + 1" by (auto simp: counted_def)
    then have "entered (thr s t) = gen s" using barrier_inv_bounds [OF inv, of t] by simp
    then show ?thesis using lag [of t] b by (auto simp: waiting_def)
  qed (use run in blast)
  then show ?thesis using lag by blast
qed

theorem barrier_no_deadlock_witness:
  "\<exists>s :: bool barrier_system. barrier_reachable s \<and> waiting (thr s False) \<and> run_thread BLOCK_ONLY False s \<noteq> None"
proof -
  obtain s where s: "run_schedule (replicate 3 (BLOCK_ONLY, False) @ replicate 8 (BLOCK_ONLY, True)) barrier_demo = Some s" "bpc (thr s True) = B_idle"
      "bpc (thr s False) = B_block" "entered (thr s False) = gen s"
    using barrier_demo_run by blast
  have r: "barrier_reachable s" by (rule run_schedule_reachable [OF barrier_demo_reachable s(1)])
  have w: "waiting (thr s False)" using s(3) by (simp add: waiting_def)
  have "bpc (thr s u) \<noteq> B_set" for u using s(2,3) by (cases u) auto
  then have "run_thread BLOCK_ONLY False s \<noteq> None" using barrier_no_deadlock [OF r, of BLOCK_ONLY] w s(4) by blast
  then show ?thesis using r w by blast
qed

end
