(* ===== verification/Timer_Queue.thy ===== *)
theory Timer_Queue
  imports Event "HOL-Library.Monad_Syntax"
begin

text \<open>
  The timer queues of src/libuzi/timer.c: the list of active timers ordered by expiration, the list of inactive
  ones, and the functions that change them under the mutex of the queue. The thread of the queue calls
  \<open>FireExpiredTimerQueueTimers\<close> in every round. Access to a timer that is not allocated is \<open>None\<close>.
\<close>

section \<open>Times\<close>

text \<open>The product is computed in 32 bits; the sum in 64.\<close>

definition timespec_add_ms :: "timespec \<Rightarrow> u32 \<Rightarrow> timespec" where
  "timespec_add_ms tspec ms =
     (let ns = tv_nsec tspec + uint (ms * 1000000)
      in tspec\<lparr>tv_sec := tv_sec tspec + ns div 1000000000, tv_nsec := ns mod 1000000000\<rparr>)"

definition timespec_to_ms :: "timespec \<Rightarrow> u64" where
  "timespec_to_ms tspec = word_of_int (tv_sec tspec * 1000) + word_of_int (tv_nsec tspec div 1000000)"

text \<open>The clock is read in microseconds.\<close>

definition timespec_gettimeofday :: "int \<Rightarrow> int \<Rightarrow> timespec" where
  "timespec_gettimeofday tv_sec' tv_usec = \<lparr>tv_sec = tv_sec', tv_nsec = tv_usec * 1000\<rparr>"

text \<open>The difference is returned as an \<^verbatim>\<open>int\<close>: its low 32 bits.\<close>

definition timespec_compare :: "timespec \<Rightarrow> timespec \<Rightarrow> int" where
  "timespec_compare tspec1 tspec2 =
     (if tv_sec tspec1 = tv_sec tspec2 then signed_take_bit 31 (tv_nsec tspec1 - tv_nsec tspec2)
      else signed_take_bit 31 (tv_sec tspec1 - tv_sec tspec2))"

definition timespec_copy :: "timespec \<Rightarrow> timespec" where
  "timespec_copy src = \<lparr>tv_sec = tv_sec src, tv_nsec = tv_nsec src\<rparr>"

section \<open>Queues\<close>

record WINPR_TIMER_QUEUE_TIMER =
  tq_Flags :: ULONG
  DueTime :: DWORD
  Period :: DWORD
  tq_Parameter :: addr
  tq_Callback :: addr
  FireCount :: LONG
  StartTime :: timespec
  ExpirationTime :: timespec
  tq_timerQueue :: addr
  tq_next :: addr

type_synonym timer_heap = "addr \<rightharpoonup> WINPR_TIMER_QUEUE_TIMER"

text \<open>A queue with its timers; \<open>calls\<close> records the callbacks that were called, with the timer they belong to.\<close>

record WINPR_TIMER_QUEUE =
  timers :: timer_heap
  activeHead :: addr
  inactiveHead :: addr
  bCancelled :: bool
  tq_calls :: "addr list"

definition set_next :: "addr \<Rightarrow> addr \<Rightarrow> timer_heap \<Rightarrow> timer_heap option" where
  "set_next a n h = (case h a of None \<Rightarrow> None | Some t \<Rightarrow> Some (h(a \<mapsto> t\<lparr>tq_next := n\<rparr>)))"

text \<open>The loop of \<open>InsertTimerQueueTimer\<close> that looks for the node to insert after.\<close>

partial_function (option) insert_walk :: "timer_heap \<Rightarrow> timespec \<Rightarrow> addr \<Rightarrow> addr option" where
  [code]: "insert_walk h e node =
     do { n \<leftarrow> h node;
          if tq_next n = NULL then Some node
          else do { m \<leftarrow> h (tq_next n);
            if timespec_compare e (ExpirationTime n) > 0 \<and> timespec_compare e (ExpirationTime m) < 0 then Some node
            else insert_walk h e (tq_next n) } }"

definition InsertTimerQueueTimer :: "addr \<Rightarrow> addr \<Rightarrow> timer_heap \<Rightarrow> (addr \<times> timer_heap) option" where
  "InsertTimerQueueTimer head timer h =
     (if head = NULL then do { h \<leftarrow> set_next timer NULL h; Some (timer, h) }
      else do {
        t \<leftarrow> h timer;
        node \<leftarrow> insert_walk h (ExpirationTime t) head;
        n \<leftarrow> h node;
        if tq_next n \<noteq> NULL then do {
          m \<leftarrow> h (tq_next n);
          h \<leftarrow> set_next timer (tq_next m) h;
          h \<leftarrow> set_next node timer h;
          Some (head, h) }
        else do {
          h \<leftarrow> set_next node timer h;
          h \<leftarrow> set_next timer NULL h;
          Some (head, h) } })"

text \<open>The search of \<open>RemoveTimerQueueTimer\<close>: the previous node, if the timer is found.\<close>

partial_function (option) remove_walk :: "timer_heap \<Rightarrow> addr \<Rightarrow> addr \<Rightarrow> addr \<Rightarrow> addr option option" where
  [code]: "remove_walk h timer prevNode node =
     (if node = NULL then Some None
      else if node = timer then Some (Some prevNode)
      else do { n \<leftarrow> h node; remove_walk h timer node (tq_next n) })"

definition RemoveTimerQueueTimer :: "addr \<Rightarrow> addr \<Rightarrow> timer_heap \<Rightarrow> (addr \<times> timer_heap) option" where
  "RemoveTimerQueueTimer head timer h =
     (if timer = head then do { t \<leftarrow> h timer; h \<leftarrow> set_next timer NULL h; Some (tq_next t, h) }
      else do {
        found \<leftarrow> remove_walk h timer NULL head;
        case found of
          None \<Rightarrow> Some (head, h)
        | Some prevNode \<Rightarrow> do {
            t \<leftarrow> h timer;
            h \<leftarrow> (if prevNode \<noteq> NULL then set_next prevNode (tq_next t) h else Some h);
            h \<leftarrow> set_next timer NULL h;
            Some (head, h) } })"

text \<open>
  Firing: \<open>fire_head\<close> is one round of the loop, on the head of the active list; the loop goes on while the head
  has expired.
\<close>

definition fire_head :: "timespec \<Rightarrow> WINPR_TIMER_QUEUE \<Rightarrow> WINPR_TIMER_QUEUE option" where
  "fire_head CurrentTime q =
     do { let node = activeHead q;
          n \<leftarrow> timers q node;
          let n' = n\<lparr>FireCount := FireCount n + 1, tq_next := NULL\<rparr>;
          let q = q\<lparr>tq_calls := tq_calls q @ [node], activeHead := tq_next n, timers := (timers q)(node \<mapsto> n')\<rparr>;
          if Period n \<noteq> 0 then do {
            let h = (timers q)(node \<mapsto> n'\<lparr>ExpirationTime := timespec_add_ms (ExpirationTime n) (Period n)\<rparr>);
            (head, h) \<leftarrow> InsertTimerQueueTimer (activeHead q) node h;
            Some (q\<lparr>activeHead := head, timers := h\<rparr>) }
          else do {
            (head, h) \<leftarrow> InsertTimerQueueTimer (inactiveHead q) node (timers q);
            Some (q\<lparr>inactiveHead := head, timers := h\<rparr>) } }"

partial_function (option) FireExpiredTimerQueueTimers :: "timespec \<Rightarrow> WINPR_TIMER_QUEUE \<Rightarrow> WINPR_TIMER_QUEUE option" where
  [code]: "FireExpiredTimerQueueTimers CurrentTime q =
     (if activeHead q = NULL then Some q
      else do { n \<leftarrow> timers q (activeHead q);
        if timespec_compare CurrentTime (ExpirationTime n) \<ge> 0
        then do { q \<leftarrow> fire_head CurrentTime q; FireExpiredTimerQueueTimers CurrentTime q }
        else Some q })"

text \<open>
  One round of \<open>TimerQueueThread\<close>: the time until which it sleeps, and what it does when it wakes up at \<open>now\<close>.
  \<open>timedwait\<close> is \<^verbatim>\<open>pthread_cond_timedwait\<close>: the mutex of the queue is released meanwhile, so the other functions
  may change the queue. The first component tells whether the thread goes on.
\<close>

definition queue_sleep :: "timespec \<Rightarrow> WINPR_TIMER_QUEUE \<Rightarrow> timespec option" where
  "queue_sleep timeout q =
     (if activeHead q = NULL then Some (timespec_add_ms timeout 50)
      else do { n \<leftarrow> timers q (activeHead q);
        Some (if timespec_compare timeout (ExpirationTime n) < 0 then timespec_copy (ExpirationTime n) else timeout) })"

abbreviation ETIMEDOUT_status :: int where "ETIMEDOUT_status \<equiv> 110"

definition TimerQueueThread ::
  "timespec \<Rightarrow> (timespec \<Rightarrow> WINPR_TIMER_QUEUE \<Rightarrow> int \<times> WINPR_TIMER_QUEUE) \<Rightarrow> timespec \<Rightarrow> WINPR_TIMER_QUEUE \<Rightarrow> (bool \<times> WINPR_TIMER_QUEUE) option" where
  "TimerQueueThread before timedwait now q =
     do { timeout \<leftarrow> queue_sleep before q;
          let (status, q) = timedwait timeout q;
          q \<leftarrow> FireExpiredTimerQueueTimers now q;
          Some (\<not> (status \<noteq> ETIMEDOUT_status \<and> status \<noteq> 0) \<and> \<not> bCancelled q, q) }"

text \<open>\<open>block\<close> is the result of the allocation, 0 when it fails.\<close>

definition CreateTimerQueue :: "addr \<Rightarrow> addr \<times> WINPR_TIMER_QUEUE option" where
  "CreateTimerQueue block =
     (if block \<noteq> NULL then (block, Some \<lparr>timers = Map.empty, activeHead = NULL, inactiveHead = NULL, bCancelled = False, tq_calls = []\<rparr>)
      else (NULL, None))"

definition CreateTimerQueueTimer ::
  "addr \<Rightarrow> timespec \<Rightarrow> addr \<Rightarrow> addr \<Rightarrow> addr \<Rightarrow> DWORD \<Rightarrow> DWORD \<Rightarrow> ULONG \<Rightarrow> WINPR_TIMER_QUEUE \<Rightarrow> (bool \<times> WINPR_TIMER_QUEUE) option" where
  "CreateTimerQueueTimer block CurrentTime TimerQueue Callback Parameter due period Flags q =
     (if TimerQueue = NULL then Some (False, q)
      else if block = NULL then Some (False, q)
      else do {
        let start = timespec_add_ms (timespec_copy CurrentTime) due;
        let t = \<lparr>tq_Flags = Flags, DueTime = due, Period = period, tq_Parameter = Parameter, tq_Callback = Callback, FireCount = 0,
                  StartTime = start, ExpirationTime = timespec_copy start, tq_timerQueue = TimerQueue, tq_next = NULL\<rparr>;
        (head, h) \<leftarrow> InsertTimerQueueTimer (activeHead q) block ((timers q)(block \<mapsto> t));
        Some (True, q\<lparr>activeHead := head, timers := h\<rparr>) })"

definition ChangeTimerQueueTimer ::
  "timespec \<Rightarrow> addr \<Rightarrow> addr \<Rightarrow> ULONG \<Rightarrow> ULONG \<Rightarrow> WINPR_TIMER_QUEUE \<Rightarrow> (bool \<times> WINPR_TIMER_QUEUE) option" where
  "ChangeTimerQueueTimer CurrentTime TimerQueue timer due period q =
     (if TimerQueue = NULL \<or> timer = NULL then Some (False, q)
      else do {
        (active, h) \<leftarrow> RemoveTimerQueueTimer (activeHead q) timer (timers q);
        (inactive, h) \<leftarrow> RemoveTimerQueueTimer (inactiveHead q) timer h;
        t \<leftarrow> h timer;
        let start = timespec_add_ms (timespec_copy CurrentTime) due;
        let t = t\<lparr>DueTime := due, Period := period, tq_next := NULL, StartTime := start, ExpirationTime := timespec_copy start\<rparr>;
        (active, h) \<leftarrow> InsertTimerQueueTimer active timer (h(timer \<mapsto> t));
        Some (True, q\<lparr>activeHead := active, inactiveHead := inactive, timers := h\<rparr>) })"

text \<open>The last step of both deletions: the completion event is set, whatever \<open>SetEvent\<close> returns.\<close>

definition signal_completion :: "addr \<Rightarrow> os \<Rightarrow> os outcome" where
  "signal_completion CompletionEvent s =
     (if CompletionEvent \<noteq> NULL \<and> CompletionEvent \<noteq> INVALID_HANDLE_VALUE
      then and_then (SetEvent CompletionEvent s) (\<lambda>(_, s). Done s) else Done s)"

definition DeleteTimerQueueTimer ::
  "addr \<Rightarrow> addr \<Rightarrow> addr \<Rightarrow> WINPR_TIMER_QUEUE \<Rightarrow> os \<Rightarrow> (bool \<times> WINPR_TIMER_QUEUE \<times> os) outcome" where
  "DeleteTimerQueueTimer TimerQueue timer CompletionEvent q s =
     (if TimerQueue = NULL \<or> timer = NULL then Done (False, q, s)
      else case RemoveTimerQueueTimer (activeHead q) timer (timers q) of
          None \<Rightarrow> Undefined
        | Some (active, h) \<Rightarrow>
            and_then (signal_completion CompletionEvent s) (\<lambda>s. Done (True, q\<lparr>activeHead := active, timers := h(timer := None)\<rparr>, s)))"

text \<open>The two loops of \<open>DeleteTimerQueueEx\<close>: moving the active timers and freeing the inactive ones.\<close>

partial_function (option) move_active :: "addr \<Rightarrow> addr \<Rightarrow> timer_heap \<Rightarrow> (addr \<times> timer_heap) option" where
  [code]: "move_active inactive node h =
     (if node = NULL then Some (inactive, h)
      else do { (inactive, h) \<leftarrow> InsertTimerQueueTimer inactive node h; n \<leftarrow> h node; move_active inactive (tq_next n) h })"

partial_function (option) free_timers :: "addr \<Rightarrow> timer_heap \<Rightarrow> timer_heap option" where
  [code]: "free_timers node h = (if node = NULL then Some h else do { n \<leftarrow> h node; free_timers (tq_next n) (h(node := None)) })"

text \<open>
  The thread of the queue has ended when \<open>pthread_join\<close> returns; \<open>q\<close> is the queue as the thread leaves it. The queue
  itself is freed: what is returned are the timers that remain allocated.
\<close>

definition DeleteTimerQueueEx :: "addr \<Rightarrow> addr \<Rightarrow> WINPR_TIMER_QUEUE \<Rightarrow> os \<Rightarrow> (bool \<times> timer_heap \<times> os) outcome" where
  "DeleteTimerQueueEx TimerQueue CompletionEvent q s =
     (if TimerQueue = NULL then Done (False, timers q, s)
      else case do { (inactive, h) \<leftarrow> move_active (inactiveHead q) (activeHead q) (timers q); free_timers inactive h } of
          None \<Rightarrow> Undefined
        | Some h \<Rightarrow> and_then (signal_completion CompletionEvent s) (\<lambda>s. Done (True, h, s)))"

definition DeleteTimerQueue :: "addr \<Rightarrow> WINPR_TIMER_QUEUE \<Rightarrow> os \<Rightarrow> (bool \<times> timer_heap \<times> os) outcome" where
  "DeleteTimerQueue TimerQueue q s = DeleteTimerQueueEx TimerQueue NULL q s"

end
