(* ===== verification/Reset_Terminates.thy ===== *)
theory Reset_Terminates
  imports Handles
begin

text \<open>
  The loop of \<open>ResetEvent\<close> ends: every round that goes on has taken data from the descriptor, so the rounds the
  model allows are enough on every handle, of whatever type.
\<close>

definition pipes_ok :: "os \<Rightarrow> bool" where
  "pipes_ok s \<longleftrightarrow> (\<forall>fd p. fds s fd = Some (PipeRead p) \<longrightarrow> p < length (pipes s))"

lemma unread_other_fields [simp]:
  "unread (s\<lparr>objects := obs\<rparr>) = unread s" "unread (SetLastError e s) = unread s"
  "pipes_ok (s\<lparr>objects := obs\<rparr>) = pipes_ok s" "pipes_ok (SetLastError e s) = pipes_ok s"
  by (auto simp: unread_def SetLastError_def pipes_ok_def fun_eq_iff split: option.split ofile.split)

text \<open>No read adds data, and a full read of eight bytes takes some.\<close>

lemma sys_read_unread:
  assumes "sys_read fd n s = Done (k, s')" "pipes_ok s"
  shows "pipes_ok s' \<and> (\<forall>f. unread s' f \<le> unread s f) \<and> (k = 8 \<longrightarrow> unread s' fd < unread s fd) \<and> objects s' = objects s"
proof (cases "fds s fd")
  case None
  then show ?thesis using assms by (auto simp: sys_read_def)
next
  case (Some f)
  show ?thesis
  proof (cases f)
    case (PipeRead p)
    then have p: "p < length (pipes s)" using assms(2) Some by (auto simp: pipes_ok_def)
    show ?thesis
    proof (cases "bytes (pipes s ! p) = 0")
      case True
      then show ?thesis using assms Some PipeRead by (auto simp: sys_read_def split: if_splits)
    next
      case False
      let ?k = "min n (bytes (pipes s ! p))"
      have k: "k = int ?k" and s': "s' = s\<lparr>pipes := (pipes s)[p := (pipes s ! p)\<lparr>bytes := bytes (pipes s ! p) - ?k\<rparr>]\<rparr>"
        using assms(1) Some PipeRead False by (auto simp: sys_read_def Let_def)
      have le: "unread s' f \<le> unread s f" for f
        using p by (auto simp: s' unread_def nth_list_update split: option.split ofile.split)
      have "unread s' fd < unread s fd" if "k = 8" using that k p False by (simp add: s' unread_def Some PipeRead)
      then show ?thesis using le assms(2) by (auto simp: s' pipes_ok_def)
    qed
  qed (use assms Some in \<open>auto simp: sys_read_def unread_def pipes_ok_def split: if_splits option.splits ofile.splits\<close>)
qed

lemma cleanup_unread:
  assumes "winpr_Handle_cleanup h s = Done (rc, s')" "pipes_ok s"
  shows "pipes_ok s' \<and> (\<forall>f. unread s' f \<le> unread s f)"
  using assms
  by (auto simp: winpr_Handle_cleanup_def Cleanup_defs IsHandled_defs winpr_Handle_GetInfo_def and_then_Done_iff Let_def
      split: if_splits option.splits kobject.splits dest!: sys_read_unread)

lemma poll_wait_unread:
  assumes "WaitForSingleObject tid no_wait h 0 s = Done (rc, s')" "pipes_ok s"
  shows "pipes_ok s' \<and> (\<forall>f. unread s' f \<le> unread s f)"
proof (cases "h = NULL \<or> h = INVALID_HANDLE_VALUE \<or> objects s h = None")
  case True
  then show ?thesis using assms by (auto simp: WaitForSingleObject_def winpr_Handle_GetInfo_def split: if_splits)
next
  case False
  then obtain ob where ob: "handle_to s h ob" by (auto simp: handle_to_def)
  show ?thesis
  proof (cases ob)
    case (MutexObject m)
    then show ?thesis using assms ob
      by (auto simp: WaitForSingleObject_def GetInfo_handle pthread_mutex_timedlock_def no_wait_def and_then_Done_iff
          lock_loop.simps handle_to_def split: if_splits option.splits)
  next
    case (EventObject e)
    then show ?thesis using assms ob cleanup_unread
      by (auto simp: WaitForSingleObject_def GetInfo_handle getFd_handle waitOnFd_def sys_poll_zero split: if_splits)
  next
    case (SemaphoreObject e)
    then show ?thesis using assms ob cleanup_unread
      by (auto simp: WaitForSingleObject_def GetInfo_handle getFd_handle waitOnFd_def sys_poll_zero split: if_splits)
  next
    case (TimerObject e)
    then show ?thesis using assms ob cleanup_unread
      by (auto simp: WaitForSingleObject_def GetInfo_handle getFd_handle waitOnFd_def sys_poll_zero split: if_splits)
  next
    case (ThreadObject e)
    then show ?thesis using assms ob cleanup_unread
      by (auto simp: WaitForSingleObject_def GetInfo_handle getFd_handle waitOnFd_def sys_poll_zero split: if_splits)
  qed
qed

lemma eventfd_read_unread:
  assumes "eventfd_read fd s = Done (k, s')" "pipes_ok s"
  shows "pipes_ok s' \<and> (k = 0 \<or> k = - 1) \<and> (k = 0 \<longrightarrow> unread s' fd < unread s fd)"
  using assms by (auto simp: eventfd_read_def and_then_Done_iff split: if_splits dest!: sys_read_unread)

lemma reset_loop_fuel:
  assumes "pipes_ok s" "unread s fd < fuel"
  shows "reset_loop (fuel + k) tid h (Done fd) s = reset_loop fuel tid h (Done fd) s"
  using assms
proof (induction fuel arbitrary: s)
  case (Suc fuel)
  show ?case
  proof (cases "WaitForSingleObject tid no_wait h 0 s")
    case (Done x)
    obtain rc s1 where x: "x = (rc, s1)" by (cases x)
    have s1: "pipes_ok s1" "unread s1 fd \<le> unread s fd" using poll_wait_unread [of tid h s rc s1] Done x Suc.prems(1) by auto
    show ?thesis
    proof (cases "rc = WAIT_OBJECT_0")
      case True
      show ?thesis
      proof (cases "eventfd_read fd s1")
        case rd: (Done y)
        obtain l s2 where y: "y = (l, s2)" by (cases y)
        have s2: "pipes_ok s2" "l = 0 \<or> l = - 1" "l = 0 \<longrightarrow> unread s2 fd < unread s1 fd"
          using eventfd_read_unread [of fd s1 l s2] rd y s1(1) by auto
        then have "l = 0 \<longrightarrow> unread s2 fd < fuel" using s1(2) Suc.prems(2) by linarith
        then show ?thesis using Suc.IH [of s2] s2 Done x True rd y by auto
      qed (use Done x True in simp_all)
    qed (use Done x in simp)
  qed simp_all
qed simp

end
