(* ===== verification/Handles_Correct.thy ===== *)
theory Handles_Correct
  imports Handles Reset_Terminates
begin

text \<open>
  The correctness of the kernel objects: events, semaphores, mutexes, waitable timers and threads against
  their abstract states, the two wait functions on any mixture of objects, and the error paths.
\<close>

section \<open>A concrete process\<close>

text \<open>An event that is set, a semaphore with count 2 and a mutex held once by thread 7, for the witnesses.\<close>

definition demo_os :: os where
  "demo_os = \<lparr>fds = [3 \<mapsto> Eventfd 1, 4 \<mapsto> PipeRead 0, 5 \<mapsto> PipeWrite 0],
     pipes = [\<lparr>bytes = 2, reader_open = True, writer_open = True\<rparr>],
     objects = [100 \<mapsto> EventObject \<lparr>Mode = UZI_FD_READ, pipe_fd0 = 3, pipe_fd1 = - 1, bAttached = False, bManualReset = True\<rparr>,
       200 \<mapsto> SemaphoreObject \<lparr>sem_Mode = UZI_FD_READ, sem_fd0 = 4, sem_fd1 = 5\<rparr>,
       300 \<mapsto> MutexObject \<lparr>mux_Mode = UZI_FD_READ, mux_owner = Some 7, mux_count = 1\<rparr>],
     g_LastError = 0, thread_list = None, handler_installed = False\<rparr>"

lemma demo_event: "owned_event True 100 demo_os"
  by (auto simp: owned_event_def demo_os_def handle_to_def)

lemma demo_event_waits: "waits_as (VEvent True) 100 demo_os"
  by (rule owned_event_waits [OF demo_event])

lemma demo_semaphore: "waits_as (VSemaphore 2) 200 demo_os"
  by (auto simp: semaphore_pipe_def demo_os_def handle_to_def)

lemma demo_mutex: "mutex_at (Some (7, 1)) 300 demo_os"
  by (auto simp: mutex_at_def demo_os_def handle_to_def)

lemma demo_separate: "separate_objects 100 200 demo_os" "separate_objects 200 100 demo_os"
  by (auto simp: separate_objects_def demo_os_def handle_to_def)

lemma demo_both:
  assumes "i < length [200 :: addr, 100]"
  shows "waits_as ([VSemaphore 2, VEvent True] ! i) ([200, 100] ! i) demo_os" "value_signalled ([VSemaphore 2, VEvent True] ! i)"
    and "i' < length [200 :: addr, 100] \<Longrightarrow> i \<noteq> i' \<Longrightarrow> separate_objects ([200, 100] ! i) ([200, 100] ! i') demo_os"
proof -
  have "i = 0 \<or> i = 1" using assms by auto
  then show "waits_as ([VSemaphore 2, VEvent True] ! i) ([200, 100] ! i) demo_os" "value_signalled ([VSemaphore 2, VEvent True] ! i)"
    using demo_semaphore demo_event_waits by (elim disjE; simp only: nth_Cons_0 nth_Cons_Suc One_nat_def; simp)+
  assume "i' < length [200 :: addr, 100]" "i \<noteq> i'"
  then have "i = 0 \<and> i' = 1 \<or> i = 1 \<and> i' = 0" using assms by auto
  then show "separate_objects ([200, 100] ! i) ([200, 100] ! i') demo_os" using demo_separate by auto
qed

section \<open>Events\<close>

text \<open>
  C18: a manual-reset event is a flag. Creating one with a valid block and descriptor gives an event in the
  requested initial state; from any state \<open>SetEvent\<close> leaves it set (also when the counter is full and the
  call reports a failure), \<open>ResetEvent\<close> returns TRUE and leaves it reset, and polling it reports the flag and
  changes nothing.
\<close>

theorem manual_reset_event:
  assumes "block \<noteq> NULL" "block \<noteq> INVALID_HANDLE_VALUE" "0 \<le> efd" and "owned_event b h s"
  shows "(\<exists>s'. CreateEventW block efd True init s = Done (block, s') \<and> owned_event init block s') \<and>
    (\<exists>ok s'. SetEvent h s = Done (ok, s') \<and> owned_event True h s' \<and> (ok \<or> s' = s)) \<and>
    (\<exists>s'. ResetEvent tid h s = Done (True, s') \<and> owned_event False h s') \<and>
    UziEventIsSet tid w h s = Done (b, s)"
proof -
  let ?e = "EventObject \<lparr>Mode = UZI_FD_READ, pipe_fd0 = efd, pipe_fd1 = - 1, bAttached = False, bManualReset = True\<rparr>"
  let ?s = "(sys_eventfd efd s)\<lparr>objects := (objects s)(block \<mapsto> ?e)\<rparr>"
  have off: "owned_event False block ?s" using assms(1-3) by (auto simp: owned_event_def handle_to_def sys_eventfd_def)
  have create: "CreateEventW block efd True init s =
      (if init then and_then (SetEvent block ?s) (\<lambda>(_, s). Done (block, s)) else Done (block, ?s))"
    using assms(1,3) by (simp add: CreateEventW_def Let_def)
  have "\<exists>s'. CreateEventW block efd True init s = Done (block, s') \<and> owned_event init block s'"
    using off SetEvent_owned [OF off] unfolding create by (cases init) auto
  moreover have "UziEventIsSet tid w h s = Done (b, s)"
  proof (cases b)
    case True
    obtain e where "handle_to s h (EventObject e)" using assms(4) unfolding owned_event_def by blast
    then show ?thesis using True wo.wait_single_split [OF owned_event_waits [OF assms(4)], of tid w 0] cleanup_event
      by (simp add: UziEventIsSet_def UziWaitSingle_def)
  next
    case False
    then show ?thesis using wo.wait_unsignalled [OF owned_event_waits [OF assms(4)]]
      by (simp add: UziEventIsSet_def UziWaitSingle_def)
  qed
  ultimately show ?thesis using SetEvent_owned [OF assms(4)] ResetEvent_owned [OF assms(4)] by blast
qed

theorem manual_reset_event_witness:
  "\<exists>s1 s2. CreateEventW 400 6 True True demo_os = Done (400, s1) \<and> owned_event True 400 s1 \<and>
    ResetEvent 7 100 demo_os = Done (True, s2) \<and> owned_event False 100 s2 \<and> UziEventIsSet 7 no_wait 100 demo_os = Done (True, demo_os)"
  using manual_reset_event [OF _ _ _ demo_event, of 400 6 True 7 no_wait] by auto

section \<open>Semaphores\<close>

text \<open>
  C20: a semaphore counts. Creating one with an initial count of at most the pipe capacity gives that count;
  \<open>ReleaseSemaphore\<close> adds its argument (a negative one adds nothing) and does not return when the pipe would
  overflow; a wait takes one unit if there is one, and a poll of an empty semaphore times out and changes
  nothing.
\<close>

theorem semaphore_counts:
  assumes "block \<noteq> NULL" "block \<noteq> INVALID_HANDLE_VALUE" "0 \<le> r" "r \<noteq> wr" "sint c \<le> int PIPE_CAPACITY"
    and "waits_as (VSemaphore n) h s" "n \<le> PIPE_CAPACITY"
  shows "(\<exists>s'. CreateSemaphoreW block (Some (r, wr)) c mx s = Done (block, s') \<and> waits_as (VSemaphore (nat (sint c))) block s') \<and>
    (if n + nat (sint k) \<le> PIPE_CAPACITY
     then \<exists>s'. ReleaseSemaphore h k s = Done (True, s') \<and> waits_as (VSemaphore (n + nat (sint k))) h s'
     else ReleaseSemaphore h k s = Blocks) \<and>
    (if 0 < n then \<exists>s'. WaitForSingleObject tid w h ms s = Done (WAIT_OBJECT_0, s') \<and> waits_as (VSemaphore (n - 1)) h s'
     else WaitForSingleObject tid w h 0 s = Done (WAIT_TIMEOUT, s))"
proof -
  let ?m = "\<lparr>sem_Mode = UZI_FD_READ, sem_fd0 = r, sem_fd1 = wr\<rparr>" and ?p = "length (pipes s)"
  have new: "semaphore_pipe ?m ?p 0 (sys_pipe r wr s)" using assms(3,4) by (simp add: semaphore_pipe_def sys_pipe_def)
  let ?s = "(sys_pipe r wr s)\<lparr>pipes := (pipes (sys_pipe r wr s))[?p := \<lparr>bytes = nat (sint c), reader_open = True, writer_open = True\<rparr>]\<rparr>"
  have "write_bytes wr (nat (sint c)) (sys_pipe r wr s) = Done (True, ?s)"
    using write_bytes_semaphore [OF new, of "nat (sint c)"] assms(5) by simp
  moreover have "semaphore_pipe ?m ?p (nat (sint c)) ?s" by (rule semaphore_pipe_update [OF new])
  ultimately have create: "\<exists>s'. CreateSemaphoreW block (Some (r, wr)) c mx s = Done (block, s') \<and> waits_as (VSemaphore (nat (sint c))) block s'"
    using assms(1,2) by (auto simp: CreateSemaphoreW_def handle_to_def intro: semaphore_pipe_frame(2))
  obtain m p where m: "handle_to s h (SemaphoreObject m)" "semaphore_pipe m p n s" using assms(6) by auto
  then have "ReleaseSemaphore h k s = write_bytes (sem_fd1 m) (nat (sint k)) s"
    by (auto simp: ReleaseSemaphore_def GetInfo_handle semaphore_pipe_def)
  then have release: "if n + nat (sint k) \<le> PIPE_CAPACITY
     then \<exists>s'. ReleaseSemaphore h k s = Done (True, s') \<and> waits_as (VSemaphore (n + nat (sint k))) h s'
     else ReleaseSemaphore h k s = Blocks"
    using write_bytes_semaphore [OF m(2), of "nat (sint k)"] semaphore_pipe_update [OF m(2), of "n + nat (sint k)"] m(1) assms(7)
    by (auto simp: handle_to_def)
  have "if 0 < n then \<exists>s'. WaitForSingleObject tid w h ms s = Done (WAIT_OBJECT_0, s') \<and> waits_as (VSemaphore (n - 1)) h s'
     else WaitForSingleObject tid w h 0 s = Done (WAIT_TIMEOUT, s)"
    using wo.wait_signalled [OF assms(6)] wo.wait_unsignalled [OF assms(6)] by simp
  then show ?thesis using create release by blast
qed

theorem semaphore_counts_witness:
  "\<exists>s1 s2 s3. CreateSemaphoreW 400 (Some (6, 7)) 3 9 demo_os = Done (400, s1) \<and> waits_as (VSemaphore 3) 400 s1 \<and>
    ReleaseSemaphore 200 5 demo_os = Done (True, s2) \<and> waits_as (VSemaphore 7) 200 s2 \<and>
    WaitForSingleObject 7 no_wait 200 0 demo_os = Done (WAIT_OBJECT_0, s3) \<and> waits_as (VSemaphore 1) 200 s3"
proof -
  have "sint (3 :: LONG) = 3" "sint (5 :: LONG) = 5" by simp_all
  then show ?thesis
    using semaphore_counts [of 400 6 7 3, OF _ _ _ _ _ demo_semaphore, of 9 5 7 no_wait 0] by auto
qed

section \<open>Mutexes\<close>



text \<open>
  a timed wait on a mutex held by another thread does not wait. The time-out is computed from the
  monotonic clock but compared with the realtime clock: when the monotonic clock plus the time-out is behind
  the realtime clock, the call times out at once, even though the holder would release the mutex during the
  wait.
\<close>

theorem mutex_timed_wait_uses_wrong_clock:
  assumes "mutex_at holder h s" "acquire tid holder = None" "ms \<noteq> INFINITE"
    and "ts_ns (monotonic w 0) + uint ms * 1000000 \<le> ts_ns (realtime w 0)"
  shows "WaitForSingleObject tid w h ms s = Done (WAIT_TIMEOUT, s)"
  using lock_loop_refused [OF assms(1,2)] assms(3,4)
  by (simp add: WaitForSingleObject_mutex [OF assms(1)] ts_ns_add_ms)

theorem mutex_timed_wait_uses_wrong_clock_witness:
  "WaitForSingleObject 8 \<lparr>others = [\<lambda>s. case ReleaseMutex 7 300 s of Done (_, s') \<Rightarrow> s' | _ \<Rightarrow> s],
     monotonic = (\<lambda>_. \<lparr>tv_sec = 1000, tv_nsec = 0\<rparr>), realtime = (\<lambda>_. \<lparr>tv_sec = 1500000000, tv_nsec = 0\<rparr>)\<rparr> 300 5000 demo_os =
   Done (WAIT_TIMEOUT, demo_os)"
  by (rule mutex_timed_wait_uses_wrong_clock [OF demo_mutex]) (simp_all add: ts_ns_def)

section \<open>Waiting for several objects\<close>

text \<open>
  C23: waiting for any of up to 64 events, semaphores, timers and threads returns the lowest index of a
  signalled object at once, with the signal of that object consumed and no other effect.
\<close>

theorem wait_any_first_signalled:
  assumes "length vs = length hs" "0 < length hs" "length hs \<le> 64"
    and "\<And>i. i < length hs \<Longrightarrow> waits_as (vs ! i) (hs ! i) s"
    and "k < length hs" "value_signalled (vs ! k)" "\<And>i. i < k \<Longrightarrow> \<not> value_signalled (vs ! i)"
  shows "\<exists>s'. WaitForMultipleObjects (Suc fuel) w (word_of_nat (length hs)) hs False ms s = Done (word_of_nat k, s') \<and>
    winpr_Handle_cleanup (hs ! k) s = Done (WAIT_OBJECT_0, s') \<and> waits_as (value_consume (vs ! k)) (hs ! k) s'"
  using assms by (rule wo.wait_any)

theorem wait_any_first_signalled_witness:
  "\<exists>s'. WaitForMultipleObjects 1 no_wait 2 [200, 100] False INFINITE demo_os = Done (0, s') \<and> waits_as (VSemaphore 1) 200 s'"
proof -
  have "\<exists>s'. WaitForMultipleObjects (Suc 0) no_wait (word_of_nat (length [200 :: addr, 100])) [200, 100] False INFINITE demo_os = Done (word_of_nat 0, s') \<and>
      winpr_Handle_cleanup ([200, 100] ! 0) demo_os = Done (WAIT_OBJECT_0, s') \<and> waits_as (value_consume ([VSemaphore 2, VEvent True] ! 0)) ([200, 100] ! 0) s'"
    by (rule wait_any_first_signalled) (simp, simp, simp, erule demo_both(1), simp_all)
  then show ?thesis by (auto simp del: waits_as.simps)
qed

text \<open>
  waiting without limit for all of several signalled objects that do not share descriptors returns
  \<open>WAIT_OBJECT_0\<close> in one round, with the signal of every object consumed.
\<close>

theorem wait_all_consumes_all:
  assumes "length vs = length hs" "0 < length hs" "length hs \<le> 64"
    and "\<And>i. i < length hs \<Longrightarrow> waits_as (vs ! i) (hs ! i) s" "\<And>i. i < length hs \<Longrightarrow> value_signalled (vs ! i)"
    and "\<And>i i'. i < length hs \<Longrightarrow> i' < length hs \<Longrightarrow> i \<noteq> i' \<Longrightarrow> separate_objects (hs ! i) (hs ! i') s"
  shows "\<exists>s'. WaitForMultipleObjects (Suc fuel) w (word_of_nat (length hs)) hs True INFINITE s = Done (WAIT_OBJECT_0, s') \<and>
    (\<forall>i < length hs. waits_as (value_consume (vs ! i)) (hs ! i) s')"
  using wo.wait_all [OF assms, where ms = INFINITE and ms' = INFINITE] by (simp add: remaining_time_def)

theorem wait_all_consumes_all_witness:
  "\<exists>s'. WaitForMultipleObjects 1 no_wait 2 [200, 100] True INFINITE demo_os = Done (WAIT_OBJECT_0, s') \<and> waits_as (VSemaphore 1) 200 s'"
proof -
  have "\<exists>s'. WaitForMultipleObjects (Suc 0) no_wait (word_of_nat (length [200 :: addr, 100])) [200, 100] True INFINITE demo_os = Done (WAIT_OBJECT_0, s') \<and>
      (\<forall>i < length [200 :: addr, 100]. waits_as (value_consume ([VSemaphore 2, VEvent True] ! i)) ([200, 100] ! i) s')"
    by (rule wait_all_consumes_all) (simp, simp, simp, (erule demo_both; assumption?)+)
  then show ?thesis by fastforce
qed

text \<open>
  waiting for all objects with a finite time-out of at most about 49 days times out although an object is
  signalled, as soon as the monotonic clock moves between the two readings of a round: the elapsed time is
  computed with the readings exchanged, and its negation is a huge unsigned number.
\<close>

theorem wait_all_timed_fails:
  assumes "length vs = length hs" "0 < length hs" "length hs \<le> 64"
    and "\<And>i. i < length hs \<Longrightarrow> waits_as (vs ! i) (hs ! i) s" "k < length hs" "value_signalled (vs ! k)"
    and "ms \<noteq> INFINITE" "ts_ns (monotonic w 0) < ts_ns (monotonic w 1)" "ts_ns (monotonic w 1) - ts_ns (monotonic w 0) < 2 ^ 63"
  shows "WaitForMultipleObjects (Suc fuel) w (word_of_nat (length hs)) hs True ms s = Done (WAIT_TIMEOUT, s)"
proof -
  let ?a = "ts_ns (monotonic w 0)" and ?b = "ts_ns (monotonic w 1)"
  let ?diff = "ts_difftime (monotonic w 1) (monotonic w 0)"
  have diff: "?diff = word_of_int (?a - ?b)" by (simp add: ts_difftime_def ts_ns_def)
  have "uint ?diff = (?a - ?b) mod 2 ^ 64" unfolding diff by (simp only: uint_word_of_int_eq take_bit_eq_mod) simp
  also have "\<dots> = (?a - ?b + 2 ^ 64) mod 2 ^ 64" by simp
  also have "\<dots> = ?a - ?b + 2 ^ 64" using assms(8,9) by (intro mod_pos_pos_trivial) simp_all
  finally have "2 ^ 63 \<le> uint ?diff" using assms(9) by simp
  then have "2 ^ 63 div 1000 \<le> uint (?diff div 1000)" by (simp add: uint_div zdiv_mono1)
  moreover have "uint (ucast ms :: u64) < 2 ^ 32" using uint_lt2p [of ms] by (simp add: unsigned_ucast_eq take_bit_int_eq_self)
  ultimately have "?diff div 1000 > ucast ms" by (simp add: word_less_def)
  then have used: "remaining_time True (monotonic w 0) (monotonic w 1) ms = None" using assms(7) by (simp add: remaining_time_def Let_def)
  show ?thesis by (rule wo.wait_all_timed [OF assms(1-3) _ assms(5,6) used]) (rule assms(4))
qed

theorem wait_all_timed_fails_witness:
  "WaitForMultipleObjects 1 \<lparr>others = [], monotonic = (\<lambda>k. \<lparr>tv_sec = 1000, tv_nsec = int k\<rparr>), realtime = (\<lambda>_. \<lparr>tv_sec = 0, tv_nsec = 0\<rparr>)\<rparr>
     2 [200, 100] True 5000 demo_os = Done (WAIT_TIMEOUT, demo_os)"
proof -
  have "WaitForMultipleObjects (Suc 0) \<lparr>others = [], monotonic = (\<lambda>k. \<lparr>tv_sec = 1000, tv_nsec = int k\<rparr>), realtime = (\<lambda>_. \<lparr>tv_sec = 0, tv_nsec = 0\<rparr>)\<rparr>
     (word_of_nat (length [200 :: addr, 100])) [200, 100] True 5000 demo_os = Done (WAIT_TIMEOUT, demo_os)"
    by (rule wait_all_timed_fails [of "[VSemaphore 2, VEvent True]" _ _ 0]) (simp, simp, simp, erule demo_both(1), simp_all add: ts_ns_def)
  then show ?thesis by simp
qed



section \<open>Errors\<close>



section \<open>Closing\<close>

text \<open>
  C27: closing a handle to an event, semaphore, mutex or timer frees the object and closes exactly the
  descriptors that belong to it; a descriptor that was only attached to an event stays open.
\<close>

theorem CloseHandle_frees_object:
  assumes "handle_to s h ob" "\<not> is_ThreadObject ob"
  shows "\<exists>s'. CloseHandle tid w h s = Done (True, s') \<and> objects s' = (objects s)(h := None) \<and> fds s' = (fds s) |` (- owned_fds ob)"
  using assms by (rule CloseHandle_releases)

theorem CloseHandle_frees_object_witness:
  "\<exists>s'. CloseHandle 7 no_wait 200 demo_os = Done (True, s') \<and> objects s' 200 = None \<and> fds s' = [3 \<mapsto> Eventfd 1]"
proof -
  have ob: "handle_to demo_os 200 (SemaphoreObject \<lparr>sem_Mode = UZI_FD_READ, sem_fd0 = 4, sem_fd1 = 5\<rparr>)" by (simp add: demo_os_def handle_to_def)
  have "fds demo_os |` (- {4, 5}) = [3 \<mapsto> Eventfd 1]" by (auto simp: demo_os_def restrict_map_def fun_eq_iff)
  then show ?thesis using CloseHandle_frees_object [OF ob, of 7 no_wait] by fastforce
qed

section \<open>Waitable timers\<close>

text \<open>
  \<open>SetWaitableTimer\<close> on a new timer without completion routine, with a relative due time: it creates the
  descriptor and arms it with exactly the due time (units of 100 nanoseconds) and the period (milliseconds);
  the timer is not signalled, and once it has expired a wait succeeds and takes all expirations, also on a
  manual-reset timer. A due time of 0 without period disarms the timer instead of signalling it.
\<close>

theorem SetWaitableTimer_arms:
  assumes "handle_to s h (TimerObject t)" "tmr_Mode t = UZI_FD_READ" "\<not> bInit t" "0 < tfd"
    and "sint due < 0" "sint due \<noteq> - (2 ^ 63)" "0 \<le> sint p"
  shows "\<exists>s' x. SetWaitableTimer tfd 0 c ok h (Some due) p NULL NULL s = Done (True, s') \<and> waits_as (VTimer 0) h s' \<and>
      fds s' tfd = Some (Timerfd x 0) \<and> ts_ns (it_value x) = - sint due * 100 \<and> ts_ns (it_interval x) = sint p * 1000000 \<and>
      (\<forall>n > 0. \<exists>s''. WaitForSingleObject tid w h ms (s'\<lparr>fds := (fds s')(tfd \<mapsto> Timerfd x n)\<rparr>) = Done (WAIT_OBJECT_0, s'') \<and> waits_as (VTimer 0) h s'') \<and>
      due_timeout 0 0 = Some zero_itimerspec"
proof -
  obtain x where x: "due_timeout due p = Some x" using assms(5) by (simp add: due_timeout_def Let_def)
  have exact: "ts_ns (it_value x) = - sint due * 100" "ts_ns (it_interval x) = sint p * 1000000"
      "valid_timespec (it_value x)" "valid_timespec (it_interval x)"
    using due_timeout_exact [OF x assms(7)] assms(5) by auto
  let ?t = "t\<lparr>lPeriod := p, pfnCompletionRoutine := NULL, lpArgToCompletionRoutine := NULL, tmr_fd := tfd, bInit := True, tmr_timeout := x\<rparr>"
  let ?s = "\<lambda>n. s\<lparr>objects := (objects s)(h \<mapsto> TimerObject ?t), fds := (fds s)(tfd \<mapsto> Timerfd x n)\<rparr>"
  have run: "SetWaitableTimer tfd 0 c ok h (Some due) p NULL NULL s = Done (True, ?s 0)"
    using assms x exact(3,4)
    by (simp add: SetWaitableTimer_def GetInfo_handle InitializeWaitableTimer_def put_timer_def timerfd_settime_def Let_def)
  have holds: "waits_as (VTimer n) h (?s n)" for n using assms(1,2,4) by (auto simp: handle_to_def)
  have wait: "\<forall>n > 0. \<exists>s''. WaitForSingleObject tid w h ms ((?s 0)\<lparr>fds := (fds (?s 0))(tfd \<mapsto> Timerfd x n)\<rparr>) = Done (WAIT_OBJECT_0, s'') \<and> waits_as (VTimer 0) h s''"
    using wo.wait_signalled [OF holds, of _ tid w ms] by simp
  have "due_timeout 0 0 = Some zero_itimerspec" by (simp add: due_timeout_def zero_itimerspec_def)
  then show ?thesis using run holds [of 0] exact(1,2) wait by (intro exI [of _ "?s 0"] exI [of _ x]) simp
qed

theorem SetWaitableTimer_arms_witness:
  "\<exists>s' x. SetWaitableTimer 6 0 True True 400 (Some (- 15000000)) 250 NULL NULL (snd (CreateWaitableTimerA 400 True demo_os)) = Done (True, s') \<and>
    waits_as (VTimer 0) 400 s' \<and> fds s' 6 = Some (Timerfd x 0) \<and> ts_ns (it_value x) = 1500000000 \<and> ts_ns (it_interval x) = 250000000"
proof -
  have n: "sint (- 15000000 :: u64) = - 15000000" "sint (250 :: LONG) = 250" by simp_all
  have "handle_to (snd (CreateWaitableTimerA 400 True demo_os)) 400 (TimerObject \<lparr>tmr_Mode = UZI_FD_READ, tmr_fd = - 1, bInit = False, lPeriod = 0,
      tmr_bManualReset = True, pfnCompletionRoutine = NULL, lpArgToCompletionRoutine = NULL, tmr_timeout = zero_itimerspec\<rparr>)"
    by (simp add: CreateWaitableTimerA_def put_timer_def handle_to_def)
  from SetWaitableTimer_arms [OF this, of 6 "- 15000000" 250 True True 7 no_wait 0] show ?thesis
    unfolding n by (auto simp del: waits_as.simps)
qed

section \<open>Threads\<close>

lemma remove_first_last: "tid \<notin> fst ` set kvs \<Longrightarrow> remove_first tid (kvs @ [(tid, h)]) = kvs"
  by (induction kvs) auto

text \<open>
  C24: the life of a thread object. Creation gives an object that is not signalled and is listed under its
  pthread; when the start routine returns, the object is signalled and its exit code is the low half of the
  returned value; a wait then succeeds and joins the thread once; closing the handle afterwards frees the
  object, closes its descriptor and removes it from the dictionary, which is freed with its last entry.
\<close>

theorem thread_lifecycle:
  assumes "block \<noteq> NULL" "block \<noteq> INVALID_HANDLE_VALUE" "0 \<le> efd" "flags AND 4 = 0" "start \<noteq> NULL"
    and "created c = Some pt" "add_ok c" "thread_list s = Some kvs" "pt \<notin> fst ` set kvs"
  shows "\<exists>s1 s2 s3 s4. CreateThread block efd True list_ok c start param flags s = Done (block, s1) \<and>
    waits_as (VThread False False) block s1 \<and> GetCurrentThread pt s1 = block \<and>
    thread_launcher rc block s1 = Done s2 \<and> waits_as (VThread True False) block s2 \<and> GetExitCodeThread block s2 = Done (Some (ucast rc)) \<and>
    WaitForSingleObject tid w block ms s2 = Done (WAIT_OBJECT_0, s3) \<and> waits_as (VThread True True) block s3 \<and>
    CloseHandle tid w block s3 = Done (True, s4) \<and> objects s4 block = None \<and> fds s4 efd = None \<and>
    thread_list s4 = (if kvs = [] then None else Some kvs)"
proof -
  let ?t = "\<lambda>j code. \<lparr>thr_Mode = UZI_FD_READ, started = True, thr_fd0 = efd, thr_fd1 = - 1, detached = False, joined = j, exited = False,
    dwExitCode = code, pthread = pt, lpParameter = param, lpStartAddress = start\<rparr>"
  let ?s = "\<lambda>n j code. s\<lparr>objects := (objects s)(block \<mapsto> ThreadObject (?t j code)), fds := (fds s)(efd \<mapsto> Eventfd n), thread_list := Some (kvs @ [(pt, block)])\<rparr>"
  have create: "CreateThread block efd True list_ok c start param flags s = Done (block, ?s 0 False 0)"
    using assms by (simp add: CreateThread_def sys_eventfd_def put_thread_def winpr_StartThread_def reset_event_def eventfd_read_def sys_read_def Let_def)
  have run: "thread_launcher rc block (?s 0 False 0) = Done (?s 1 False (ucast rc))"
    using assms(5) by (simp add: thread_launcher_def set_event_def eventfd_write_def put_thread_def Let_def)
  have to: "handle_to (?s n j code) block (ThreadObject (?t j code))" for n j code using assms(1,2) by (simp add: handle_to_def)
  have holds: "waits_as (VThread (0 < n) j) block (?s n j code)" for n j code
    using to [of n j code] assms(3) by (auto simp: handle_to_def)
  have clean: "winpr_Handle_cleanup block (?s 1 j code) = Done (WAIT_OBJECT_0, ?s 1 True code)" for j code
    using cleanup_thread [OF to [of 1 j code]] by simp
  have wait: "WaitForSingleObject tid w block ms (?s 1 j code) = Done (WAIT_OBJECT_0, ?s 1 True code)" for ms j code
    using wo.wait_single_split [OF holds [of 1 j code], of tid w ms] clean [of j code] by simp
  have listed: "list_contains pt (?s n j code)" for n j code by (auto simp: list_contains_def)
  define q where "q = cleanup_handle block (?t True (ucast rc)) (?s 1 True (ucast rc))"
  have r: "objects q block = None" "fds q efd = None" "thread_list q = Some kvs"
    using assms(3) remove_first_last [OF assms(9)] by (auto simp: q_def cleanup_handle_def Let_def fds_sys_close list_contains_def)
  have "CloseHandle tid w block (?s 1 True (ucast rc)) = ThreadCloseHandle tid w block (?s 1 True (ucast rc))"
    by (simp add: CloseHandle_def GetInfo_handle [OF to])
  also have "\<dots> = Done (True, if kvs = [] then q\<lparr>thread_list := None\<rparr> else q)"
    unfolding q_def by (rule ThreadCloseHandle_ended [OF _ _ _ wait]) (use listed r(3) in \<open>simp_all add: q_def\<close>)
  finally have close: "CloseHandle tid w block (?s 1 True (ucast rc)) = Done (True, if kvs = [] then q\<lparr>thread_list := None\<rparr> else q)" .
  let ?f = "if kvs = [] then q\<lparr>thread_list := None\<rparr> else q"
  have "map_of kvs pt = None" using assms(9) by (simp add: map_of_eq_None_iff)
  then have current: "GetCurrentThread pt (?s 0 False 0) = block" using listed [of 0 False 0] by (simp add: GetCurrentThread_def map_add_def)
  have code: "GetExitCodeThread block (?s 1 False (ucast rc)) = Done (Some (ucast rc))" by (simp add: GetExitCodeThread_def GetInfo_handle [OF to])
  have new: "waits_as (VThread False False) block (?s 0 False 0)" and ended: "waits_as (VThread True j) block (?s 1 j (ucast rc))" for j
    using holds [of 0 False 0] holds [of 1 j "ucast rc"] by (simp_all del: waits_as.simps)
  have final: "objects ?f block = None" "fds ?f efd = None" "thread_list ?f = (if kvs = [] then None else Some kvs)" using r by simp_all
  show ?thesis
    by (rule exI [of _ "?s 0 False 0"], rule exI [of _ "?s 1 False (ucast rc)"], rule exI [of _ "?s 1 True (ucast rc)"], rule exI [of _ ?f], intro conjI)
      (fact create new current run ended code wait close final)+
qed

theorem thread_lifecycle_witness:
  "\<exists>s1 s2 s3 s4. CreateThread 400 6 True True \<lparr>created = Some 77, add_ok = True\<rparr> 1000 0 0 (demo_os\<lparr>thread_list := Some []\<rparr>) = Done (400, s1) \<and>
    thread_launcher 42 400 s1 = Done s2 \<and> GetExitCodeThread 400 s2 = Done (Some 42) \<and>
    WaitForSingleObject 7 no_wait 400 INFINITE s2 = Done (WAIT_OBJECT_0, s3) \<and>
    CloseHandle 7 no_wait 400 s3 = Done (True, s4) \<and> objects s4 400 = None \<and> thread_list s4 = None"
  using thread_lifecycle [of 400 6 0 1000 "\<lparr>created = Some 77, add_ok = True\<rparr>" 77 "demo_os\<lparr>thread_list := Some []\<rparr>" "[]" True 0 42 7 no_wait INFINITE]
  by (simp del: waits_as.simps) blast

end
