(* ===== verification/Timer_Queue_Correct.thy ===== *)
theory Timer_Queue_Correct
  imports Timer_Queue Handles_Correct
begin

text \<open>
  What the functions of the timer queue do to the lists of timers, and the arithmetic of expiration times.
\<close>

section \<open>Chains\<close>

text \<open>The timers reached from an address, in order.\<close>

fun tchain :: "timer_heap \<Rightarrow> addr \<Rightarrow> addr list \<Rightarrow> bool" where
  "tchain h a [] = (a = NULL)"
| "tchain h a (x # xs) = (a = x \<and> x \<noteq> NULL \<and> (\<exists>r. h x = Some r \<and> tchain h (tq_next r) xs))"

lemma tchain_frame: "(\<And>x. x \<in> set xs \<Longrightarrow> h' x = h x) \<Longrightarrow> tchain h' a xs = tchain h a xs"
  by (induction xs arbitrary: a) auto

lemma tchain_update [heap_frame]: "y \<notin> set xs \<Longrightarrow> tchain (h(y := v)) a xs = tchain h a xs"
  by (rule tchain_frame) auto

lemma tchain_suffix: "tchain h a (xs @ x # ys) \<Longrightarrow> x \<noteq> NULL \<and> (\<exists>r. h x = Some r \<and> tchain h (tq_next r) ys)"
  by (induction xs arbitrary: a) auto

lemma tchain_relink:
  "tchain h a (xs @ x # ys) \<Longrightarrow> (\<And>z. z \<in> set xs \<Longrightarrow> h' z = h z) \<Longrightarrow> h' x = Some r \<Longrightarrow> tchain h' (tq_next r) zs \<Longrightarrow> tchain h' a (xs @ x # zs)"
  by (induction xs arbitrary: a) auto

lemma tchain_head: "tchain h a xs \<Longrightarrow> a = (case xs of [] \<Rightarrow> NULL | x # _ \<Rightarrow> x)"
  by (cases xs) auto

section \<open>Insertion\<close>

definition expiration :: "timer_heap \<Rightarrow> addr \<Rightarrow> timespec" where
  "expiration h x = ExpirationTime (the (h x))"

text \<open>The index of the node after which the code inserts.\<close>

fun insert_pos :: "(addr \<Rightarrow> timespec) \<Rightarrow> timespec \<Rightarrow> addr list \<Rightarrow> nat" where
  "insert_pos E e [] = 0"
| "insert_pos E e [x] = 0"
| "insert_pos E e (x # y # ys) = (if timespec_compare e (E x) > 0 \<and> timespec_compare e (E y) < 0 then 0 else Suc (insert_pos E e (y # ys)))"

lemma insert_pos_less: "xs \<noteq> [] \<Longrightarrow> insert_pos E e xs < length xs"
  by (induction E e xs rule: insert_pos.induct) auto

lemma insert_walk_chain:
  "tchain h a xs \<Longrightarrow> xs \<noteq> [] \<Longrightarrow> insert_walk h e a = Some (xs ! insert_pos (expiration h) e xs)"
proof (induction "expiration h" e xs arbitrary: a rule: insert_pos.induct)
  case (3 e x y ys)
  then obtain n m where nm: "h x = Some n" "tq_next n = y" "y \<noteq> NULL" "h y = Some m" by auto
  then have step: "insert_walk h e a = (if timespec_compare e (ExpirationTime n) > 0 \<and> timespec_compare e (ExpirationTime m) < 0 then Some a else insert_walk h e y)"
    using 3(2) by (subst insert_walk.simps) auto
  show ?case
  proof (cases "timespec_compare e (expiration h x) > 0 \<and> timespec_compare e (expiration h y) < 0")
    case True
    then show ?thesis using step nm 3(2) by (simp add: expiration_def)
  next
    case False
    then have "insert_walk h e y = Some ((y # ys) ! insert_pos (expiration h) e (y # ys))" using 3 nm by simp
    then show ?thesis using step False nm by (auto simp: expiration_def)
  qed
next
  case (2 e x)
  then show ?case by (subst insert_walk.simps) auto
qed simp

text \<open>The list after an insertion: the node that followed the insertion point is gone.\<close>

definition inserted :: "(addr \<Rightarrow> timespec) \<Rightarrow> timespec \<Rightarrow> addr \<Rightarrow> addr list \<Rightarrow> addr list" where
  "inserted E e timer xs =
     (if xs = [] then [timer] else take (Suc (insert_pos E e xs)) xs @ timer # drop (Suc (Suc (insert_pos E e xs))) xs)"

lemma set_next_Some: "h a = Some t \<Longrightarrow> set_next a n h = Some (h(a \<mapsto> t\<lparr>tq_next := n\<rparr>))"
  by (simp add: set_next_def)

lemma Insert_chain:
  assumes "tchain h head xs" "distinct xs" "timer \<notin> set xs" "timer \<noteq> NULL" "h timer = Some t"
  shows "\<exists>head' h'. InsertTimerQueueTimer head timer h = Some (head', h') \<and> tchain h' head' (inserted (expiration h) (ExpirationTime t) timer xs) \<and>
    (\<forall>x. x \<notin> set xs \<and> x \<noteq> timer \<longrightarrow> h' x = h x) \<and> (\<forall>x. map_option (tq_next_update (\<lambda>_. NULL)) (h' x) = map_option (tq_next_update (\<lambda>_. NULL)) (h x))"
proof (cases "xs = []")
  case True
  then show ?thesis using assms by (auto simp: InsertTimerQueueTimer_def set_next_Some inserted_def)
next
  case False
  let ?i = "insert_pos (expiration h) (ExpirationTime t) xs"
  let ?node = "xs ! ?i"
  have i: "?i < length xs" using False by (rule insert_pos_less)
  have split: "xs = take ?i xs @ ?node # drop (Suc ?i) xs" using i by (rule id_take_nth_drop)
  have c0: "tchain h head (take ?i xs @ ?node # drop (Suc ?i) xs)" unfolding split [symmetric] by (rule assms(1))
  have head: "head \<noteq> NULL" using assms(1) False by (cases xs) auto
  obtain n where n: "h ?node = Some n" "tchain h (tq_next n) (drop (Suc ?i) xs)"
    using tchain_suffix [OF c0] by blast
  have walk: "insert_walk h (ExpirationTime t) head = Some ?node" using insert_walk_chain [OF assms(1) False] by blast
  have notin: "?node \<notin> set (take ?i xs)" "?node \<notin> set (drop (Suc ?i) xs)" using assms(2) split by (metis distinct_append distinct.simps(2) disjoint_iff list.set_intros(1))+
  have tm: "timer \<notin> set (take ?i xs)" "timer \<notin> set (drop k xs)" "timer \<noteq> ?node" for k
    using assms(3) i by (auto dest: in_set_takeD in_set_dropD)
  have ins: "inserted (expiration h) (ExpirationTime t) timer xs = take ?i xs @ ?node # timer # drop (Suc (Suc ?i)) xs"
    using False i by (simp add: inserted_def take_Suc_conv_app_nth)
  show ?thesis
  proof (cases "drop (Suc ?i) xs")
    case Nil
    then have "tq_next n = NULL" using n(2) by simp
    then have run: "InsertTimerQueueTimer head timer h = Some (head, h(?node \<mapsto> n\<lparr>tq_next := timer\<rparr>, timer \<mapsto> t\<lparr>tq_next := NULL\<rparr>))"
      using head walk n(1) assms(5) tm(3) by (simp add: InsertTimerQueueTimer_def set_next_Some)
    have "tchain (h(?node \<mapsto> n\<lparr>tq_next := timer\<rparr>, timer \<mapsto> t\<lparr>tq_next := NULL\<rparr>)) head (take ?i xs @ ?node # [timer])"
      by (rule tchain_relink [OF c0]) (use assms(4) notin tm in auto)
    moreover have "drop (Suc (Suc ?i)) xs = []" using Nil by simp
    ultimately show ?thesis using run ins n(1) assms(5) i nth_mem [OF i] by (auto simp: tm(3) [symmetric])
  next
    case (Cons m rest)
    then obtain mr where mr: "tq_next n = m" "m \<noteq> NULL" "h m = Some mr" "tchain h (tq_next mr) rest" using n(2) by auto
    let ?h = "h(timer \<mapsto> t\<lparr>tq_next := tq_next mr\<rparr>, ?node \<mapsto> n\<lparr>tq_next := timer\<rparr>)"
    have run: "InsertTimerQueueTimer head timer h = Some (head, ?h)"
      using head walk n(1) mr assms(5) tm(3) by (simp add: InsertTimerQueueTimer_def set_next_Some)
    have rest: "drop (Suc (Suc ?i)) xs = rest" using Cons by (metis drop_Suc drop_tl list.sel(3))
    have "tchain ?h (tq_next mr) rest" using mr(4) notin(2) tm(2) [of "Suc ?i"] unfolding Cons by (simp add: heap_frame)
    then have "tchain ?h head (take ?i xs @ ?node # timer # rest)"
      by (intro tchain_relink [OF c0]) (use assms(4) notin tm in auto)
    then show ?thesis using run ins rest n(1) assms(5) i nth_mem [OF i] tm(3) by auto
  qed
qed

lemma set_inserted: "set (inserted E e timer xs) \<subseteq> insert timer (set xs)"
  by (auto simp: inserted_def dest: in_set_takeD in_set_dropD)

lemma distinct_inserted:
  assumes "distinct xs" "timer \<notin> set xs"
  shows "distinct (inserted E e timer xs)"
proof -
  have "set (take (Suc i) xs) \<inter> set (drop (Suc (Suc i)) xs) = {}" for i using assms(1) by (intro set_take_disj_set_drop_if_distinct) simp_all
  then show ?thesis using assms by (auto simp: inserted_def dest: in_set_takeD in_set_dropD)
qed

section \<open>Removal\<close>

lemma remove_walk_chain:
  "tchain h a (xs @ timer # ys) \<Longrightarrow> timer \<notin> set xs \<Longrightarrow>
   remove_walk h timer p a = Some (Some (if xs = [] then p else last xs))"
proof (induction xs arbitrary: a p)
  case Nil
  then show ?case by (subst remove_walk.simps) auto
next
  case (Cons x xs)
  then show ?case by (subst remove_walk.simps) (auto simp: Cons.IH)
qed

lemma remove_walk_absent: "tchain h a xs \<Longrightarrow> timer \<notin> set xs \<Longrightarrow> remove_walk h timer p a = Some None"
  by (induction xs arbitrary: a p) (subst remove_walk.simps; auto)+

lemma Remove_chain:
  assumes "tchain h head (xs @ timer # ys)" "distinct (xs @ timer # ys)"
  shows "\<exists>head' h'. RemoveTimerQueueTimer head timer h = Some (head', h') \<and> tchain h' head' (xs @ ys) \<and>
    (\<forall>z. z \<noteq> timer \<and> z \<notin> set xs \<longrightarrow> h' z = h z)"
proof -
  obtain t where t: "timer \<noteq> NULL" "h timer = Some t" "tchain h (tq_next t) ys" using tchain_suffix [OF assms(1)] by blast
  show ?thesis
  proof (cases "xs = []")
    case True
    then have "head = timer" using assms(1) by simp
    moreover have "tchain (h(timer \<mapsto> t\<lparr>tq_next := NULL\<rparr>)) (tq_next t) ys" using t(3) assms(2) by (simp add: heap_frame)
    ultimately show ?thesis using True t by (auto simp: RemoveTimerQueueTimer_def set_next_Some)
  next
    case False
    let ?p = "last xs"
    have xs: "xs = butlast xs @ [?p]" using False by simp
    have c0: "tchain h head (butlast xs @ ?p # timer # ys)" using assms(1) xs by (metis append.assoc append_Cons append_Nil)
    obtain pr where pr: "?p \<noteq> NULL" "h ?p = Some pr" using tchain_suffix [OF c0] by blast
    have d: "timer \<notin> set xs" "?p \<notin> set ys" "?p \<noteq> timer" "timer \<notin> set ys" "?p \<notin> set (butlast xs)"
      using assms(2) False last_in_set [OF False] xs by (auto simp: disjoint_iff) (metis distinct_append distinct.simps(2) not_distinct_conv_prefix append_butlast_last_id)
    have "head \<noteq> timer" using assms(1) d(1) False by (cases xs) auto
    then have run: "RemoveTimerQueueTimer head timer h = Some (head, h(?p \<mapsto> pr\<lparr>tq_next := tq_next t\<rparr>, timer \<mapsto> t\<lparr>tq_next := NULL\<rparr>))"
      using remove_walk_chain [OF assms(1) d(1), of NULL] False pr t(2) d(3) by (simp add: RemoveTimerQueueTimer_def set_next_Some)
    have "tchain (h(?p \<mapsto> pr\<lparr>tq_next := tq_next t\<rparr>, timer \<mapsto> t\<lparr>tq_next := NULL\<rparr>)) head (butlast xs @ ?p # ys)"
      by (rule tchain_relink [OF c0, where r = "pr\<lparr>tq_next := tq_next t\<rparr>"]) (use t(3) d in \<open>auto simp: heap_frame dest: in_set_butlastD\<close>)
    then have "tchain (h(?p \<mapsto> pr\<lparr>tq_next := tq_next t\<rparr>, timer \<mapsto> t\<lparr>tq_next := NULL\<rparr>)) head (xs @ ys)" using xs by (metis append.assoc append_Cons append_Nil)
    then show ?thesis using run last_in_set [OF False] by auto
  qed
qed

lemma set_next_alloc: "set_next a n h = Some h' \<Longrightarrow> dom h' = dom h"
  by (auto simp: set_next_def split: option.splits if_splits)

lemma Remove_dom: "RemoveTimerQueueTimer head timer h = Some (head', h') \<Longrightarrow> dom h' = dom h"
  by (auto simp: RemoveTimerQueueTimer_def bind_eq_Some_conv split: if_splits option.splits dest!: set_next_alloc del: equalityI subsetI)

lemma Remove_keeps:
  assumes "tchain h head (xs @ timer # ys)" "distinct (xs @ timer # ys)"
  shows "\<exists>head' h'. RemoveTimerQueueTimer head timer h = Some (head', h') \<and> tchain h' head' (xs @ ys) \<and>
    (\<forall>z. z \<noteq> timer \<and> z \<notin> set xs \<longrightarrow> h' z = h z) \<and> h' timer \<noteq> None"
proof -
  obtain head' h' where r: "RemoveTimerQueueTimer head timer h = Some (head', h')" "tchain h' head' (xs @ ys)" "\<forall>z. z \<noteq> timer \<and> z \<notin> set xs \<longrightarrow> h' z = h z"
    using Remove_chain [OF assms] by blast
  have "timer \<in> dom h" using tchain_suffix [OF assms(1)] by blast
  then have "timer \<in> dom h'" using Remove_dom [OF r(1)] by simp
  then show ?thesis using r by blast
qed

section \<open>Firing\<close>

lemma fire_one_shot:
  assumes act: "tchain (timers q) (activeHead q) (x # xs)" and ina: "tchain (timers q) (inactiveHead q) ys" and dist: "distinct (x # xs @ ys)"
    and one: "Period (the (timers q x)) = 0"
  shows "\<exists>q' ys'. fire_head now q = Some q' \<and> tq_calls q' = tq_calls q @ [x] \<and> tchain (timers q') (activeHead q') xs \<and>
    tchain (timers q') (inactiveHead q') ys' \<and> distinct ys' \<and> set ys' \<subseteq> insert x (set ys) \<and> (\<forall>z \<in> set xs. timers q' z = timers q z)"
proof -
  obtain n where n: "timers q x = Some n" "x \<noteq> NULL" "tchain (timers q) (tq_next n) xs" "activeHead q = x" using act by auto
  let ?n = "n\<lparr>FireCount := FireCount n + 1, tq_next := NULL\<rparr>"
  let ?h = "(timers q)(x \<mapsto> ?n)"
  have "tchain ?h (inactiveHead q) ys" using ina dist by (simp add: heap_frame)
  then obtain head h where ins: "InsertTimerQueueTimer (inactiveHead q) x ?h = Some (head, h)"
      "tchain h head (inserted (expiration ?h) (ExpirationTime ?n) x ys)" "\<forall>z. z \<notin> set ys \<and> z \<noteq> x \<longrightarrow> h z = ?h z"
    using Insert_chain [of ?h "inactiveHead q" ys x ?n] dist n(2) by auto
  let ?q = "q\<lparr>tq_calls := tq_calls q @ [x], activeHead := tq_next n, inactiveHead := head, timers := h\<rparr>"
  have run: "fire_head now q = Some ?q" using n(1,4) one ins(1) by (simp add: fire_head_def Let_def)
  have keep: "\<forall>z \<in> set xs. h z = timers q z" using ins(3) dist by auto
  have "tchain h (tq_next n) xs" using n(3) keep tchain_frame [of xs h "timers q"] by blast
  then show ?thesis
    using run ins(2) keep set_inserted distinct_inserted dist
    by (intro exI [of _ ?q] exI [of _ "inserted (expiration ?h) (ExpirationTime ?n) x ys"]) auto
qed

text \<open>The expired timers are a prefix of the active list; the loop stops at the first timer that has not expired.\<close>

definition expired :: "timespec \<Rightarrow> timer_heap \<Rightarrow> addr \<Rightarrow> bool" where
  "expired now h x \<longleftrightarrow> timespec_compare now (expiration h x) \<ge> 0"

lemma expired_cong: "h' x = h x \<Longrightarrow> expired now h' x = expired now h x"
  by (simp add: expired_def expiration_def)

lemma Fire_one_shots:
  "tchain (timers q) (activeHead q) xs \<Longrightarrow> tchain (timers q) (inactiveHead q) ys \<Longrightarrow> distinct (xs @ ys) \<Longrightarrow>
   (\<And>x. x \<in> set xs \<Longrightarrow> Period (the (timers q x)) = 0) \<Longrightarrow>
   \<exists>q'. FireExpiredTimerQueueTimers now q = Some q' \<and>
     tq_calls q' = tq_calls q @ takeWhile (expired now (timers q)) xs \<and>
     tchain (timers q') (activeHead q') (dropWhile (expired now (timers q)) xs)"
proof (induction xs arbitrary: q ys)
  case Nil
  then show ?case by (subst FireExpiredTimerQueueTimers.simps) simp
next
  case (Cons x xs)
  obtain n where n: "timers q x = Some n" "x \<noteq> NULL" "activeHead q = x" using Cons.prems(1) by auto
  show ?case
  proof (cases "expired now (timers q) x")
    case False
    then have "timespec_compare now (ExpirationTime n) < 0" using n by (simp add: expired_def expiration_def)
    then have "FireExpiredTimerQueueTimers now q = Some q" using n by (subst FireExpiredTimerQueueTimers.simps) simp
    then show ?thesis using False Cons.prems(1) by simp
  next
    case True
    obtain q1 ys1 where q1: "fire_head now q = Some q1" "tq_calls q1 = tq_calls q @ [x]" "tchain (timers q1) (activeHead q1) xs"
        "tchain (timers q1) (inactiveHead q1) ys1" "distinct ys1" "set ys1 \<subseteq> insert x (set ys)" "\<forall>z \<in> set xs. timers q1 z = timers q z"
      using fire_one_shot [OF Cons.prems(1,2), of now] Cons.prems(3,4) by auto
    have "distinct (xs @ ys1)" using Cons.prems(3) q1(5,6) by auto
    moreover have "Period (the (timers q1 z)) = 0" if "z \<in> set xs" for z using that q1(7) Cons.prems(4) by simp
    ultimately obtain q' where q': "FireExpiredTimerQueueTimers now q1 = Some q'"
        "tq_calls q' = tq_calls q1 @ takeWhile (expired now (timers q1)) xs"
        "tchain (timers q') (activeHead q') (dropWhile (expired now (timers q1)) xs)"
      using Cons.IH [OF q1(3,4)] by blast
    have "takeWhile (expired now (timers q1)) xs = takeWhile (expired now (timers q)) xs"
         "dropWhile (expired now (timers q1)) xs = dropWhile (expired now (timers q)) xs"
      using q1(7) by (auto intro!: takeWhile_cong dropWhile_cong expired_cong)
    moreover have "FireExpiredTimerQueueTimers now q = Some q'"
      using True n q1(1) q'(1) by (subst FireExpiredTimerQueueTimers.simps) (simp add: expired_def expiration_def)
    ultimately show ?thesis using True q' q1(2) by simp
  qed
qed

section \<open>Deletion\<close>

lemma Delete_first_only:
  assumes "tchain (timers q) (activeHead q) (x # xs)" "inactiveHead q = NULL"
  shows "move_active NULL x (timers q) = Some (x, (timers q)(x \<mapsto> (the (timers q x))\<lparr>tq_next := NULL\<rparr>))"
  using assms
  by (subst move_active.simps) (auto simp: InsertTimerQueueTimer_def set_next_def move_active.simps [of _ 0])

section \<open>Properties\<close>


text \<open>A timer, and a queue of three, to try the properties on.\<close>

definition tq_sample :: "int \<Rightarrow> addr \<Rightarrow> WINPR_TIMER_QUEUE_TIMER" where
  "tq_sample sec n = \<lparr>tq_Flags = 0, DueTime = 0, Period = 0, tq_Parameter = 0, tq_Callback = 0, FireCount = 0,
     StartTime = \<lparr>tv_sec = 0, tv_nsec = 0\<rparr>, ExpirationTime = \<lparr>tv_sec = sec, tv_nsec = 0\<rparr>, tq_timerQueue = 0, tq_next = n\<rparr>"

definition tq_samples :: timer_heap where
  "tq_samples = [1 \<mapsto> tq_sample 10 2, 2 \<mapsto> tq_sample 20 3, 3 \<mapsto> tq_sample 30 0, 4 \<mapsto> tq_sample 15 0, 5 \<mapsto> tq_sample 5 0]"

lemma tq_samples_chain: "tchain tq_samples 1 [1, 2, 3]"
  by (simp add: tq_samples_def tq_sample_def)

lemma tq_samples_expire: "expired \<lparr>tv_sec = 20, tv_nsec = 0\<rparr> tq_samples 1" "expired \<lparr>tv_sec = 20, tv_nsec = 0\<rparr> tq_samples 2"
    "\<not> expired \<lparr>tv_sec = 20, tv_nsec = 0\<rparr> tq_samples 3"
  by (simp_all add: expired_def expiration_def tq_samples_def tq_sample_def timespec_compare_def signed_take_bit_int_eq_self)

lemma tq_samples_oneshot: "\<forall>x \<in> set [1, 2, 3]. Period (the (tq_samples x)) = 0"
  by (simp add: tq_samples_def tq_sample_def)


text \<open>
  Insertion. On a list \<open>xs\<close> the code looks for the first node whose timer expires before the new one and whose successor
  expires after it, and for the last node otherwise; the new timer is placed after that node and \<^emph>\<open>replaces\<close> its successor,
  which is on no list afterwards. The times of all timers are kept, and so is every timer off the list.
\<close>

theorem InsertTimerQueueTimer_exact:
  assumes "tchain h head xs" "distinct xs" "timer \<notin> set xs" "timer \<noteq> NULL" "h timer = Some t"
  shows "\<exists>head' h'. InsertTimerQueueTimer head timer h = Some (head', h') \<and>
    tchain h' head' (inserted (expiration h) (ExpirationTime t) timer xs) \<and>
    (\<forall>x. map_option (tq_next_update (\<lambda>_. NULL)) (h' x) = map_option (tq_next_update (\<lambda>_. NULL)) (h x))"
  using Insert_chain [OF assms] by blast

theorem InsertTimerQueueTimer_exact_witness:
  "\<exists>head' h'. InsertTimerQueueTimer 1 4 tq_samples = Some (head', h') \<and> tchain h' head' [1, 4, 3]"
  using InsertTimerQueueTimer_exact [of tq_samples 1 "[1, 2, 3]" 4 "tq_sample 15 0"] tq_samples_chain
  by (auto simp: inserted_def expiration_def tq_samples_def tq_sample_def timespec_compare_def signed_take_bit_int_eq_self)

text \<open>
  Removal. \<open>RemoveTimerQueueTimer\<close> takes the given timer, and nothing else, off the list, wherever it stands, and touches
  no timer that does not stand before it.
\<close>

theorem RemoveTimerQueueTimer_exact:
  assumes "tchain h head (xs @ timer # ys)" "distinct (xs @ timer # ys)"
  shows "\<exists>head' h'. RemoveTimerQueueTimer head timer h = Some (head', h') \<and> tchain h' head' (xs @ ys) \<and>
    (\<forall>z. z \<noteq> timer \<and> z \<notin> set xs \<longrightarrow> h' z = h z)"
  using assms by (rule Remove_chain)

theorem RemoveTimerQueueTimer_exact_witness:
  "\<exists>head' h'. RemoveTimerQueueTimer 1 2 tq_samples = Some (head', h') \<and> tchain h' head' [1, 3] \<and> h' 3 = tq_samples 3"
  using RemoveTimerQueueTimer_exact [of tq_samples 1 "[1]" 2 "[3]"] tq_samples_chain by auto

text \<open>
  Deletion of a queue with no inactive timer frees the first active timer only: moving it to the inactive list cuts the
  link the loop follows, and every other active timer stays allocated.
\<close>

theorem DeleteTimerQueueEx_leaks:
  assumes "tchain (timers q) (activeHead q) (x # xs)" "inactiveHead q = NULL" "TimerQueue \<noteq> NULL"
  shows "DeleteTimerQueueEx TimerQueue NULL q s = Done (True, (timers q)(x := None), s)"
  using assms Delete_first_only [OF assms(1,2)]
  by (auto simp: DeleteTimerQueueEx_def signal_completion_def free_timers.simps)

theorem DeleteTimerQueueEx_leaks_witness:
  "DeleteTimerQueueEx 9 NULL \<lparr>timers = tq_samples, activeHead = 1, inactiveHead = 0, bCancelled = False, tq_calls = []\<rparr> demo_os =
     Done (True, tq_samples(1 := None), demo_os) \<and> (tq_samples(1 := None)) 2 = Some (tq_sample 20 3)"
  using DeleteTimerQueueEx_leaks [of "\<lparr>timers = tq_samples, activeHead = 1, inactiveHead = 0, bCancelled = False, tq_calls = []\<rparr>" 1 "[2, 3]" 9 demo_os]
    tq_samples_chain by (simp add: tq_samples_def)

text \<open>
  Expiration times. Up to 4294 milliseconds \<open>timespec_add_ms\<close> adds exactly, and the nanoseconds stay below one second; the product
  by a million is computed in 32 bits, so beyond that \<open>k * 2 ^ 32\<close> nanoseconds are lost.
\<close>

theorem timespec_add_ms_exact:
  assumes "0 \<le> tv_nsec t" "tv_nsec t < 1000000000"
  shows "0 \<le> tv_nsec (timespec_add_ms t ms) \<and> tv_nsec (timespec_add_ms t ms) < 1000000000 \<and>
    tv_sec (timespec_add_ms t ms) * 1000000000 + tv_nsec (timespec_add_ms t ms) =
      tv_sec t * 1000000000 + tv_nsec t + uint ms * 1000000 mod 4294967296 \<and>
    (ms \<le> 4294 \<longrightarrow> uint ms * 1000000 mod 4294967296 = uint ms * 1000000)"
proof -
  have "uint (ms * 1000000) = uint ms * 1000000 mod 4294967296" by (simp add: uint_word_ariths)
  moreover have "uint ms \<le> 4294" if "ms \<le> 4294" using that by (simp add: word_le_def)
  ultimately show ?thesis by (auto simp: timespec_add_ms_def Let_def algebra_simps)
qed

theorem timespec_add_ms_exact_witness:
  "timespec_add_ms \<lparr>tv_sec = 7, tv_nsec = 500000000\<rparr> 4000 = \<lparr>tv_sec = 11, tv_nsec = 500000000\<rparr> \<and>
   timespec_add_ms \<lparr>tv_sec = 7, tv_nsec = 500000000\<rparr> 5000 = \<lparr>tv_sec = 8, tv_nsec = 205032704\<rparr> \<and>
   0 \<le> tv_nsec (timespec_add_ms \<lparr>tv_sec = 7, tv_nsec = 500000000\<rparr> 5000)"
  using timespec_add_ms_exact [of "\<lparr>tv_sec = 7, tv_nsec = 500000000\<rparr>" 5000] by (simp add: timespec_add_ms_def)

end
