(* ===== verification/Timer_Queue_Invariant.thy ===== *)
theory Timer_Queue_Invariant
  imports Timer_Queue_Correct
begin

text \<open>
  The invariant of a timer queue: the active and the inactive timers form two lists of allocated timers without a timer in
  common. Every operation keeps it, except the deletion of a timer that has fired.
\<close>

section \<open>Two lists\<close>

definition lists_wf :: "timer_heap \<Rightarrow> addr \<Rightarrow> addr list \<Rightarrow> addr \<Rightarrow> addr list \<Rightarrow> bool" where
  "lists_wf h a xs i ys \<longleftrightarrow> tchain h a xs \<and> tchain h i ys \<and> distinct (xs @ ys)"

definition queue_wf :: "WINPR_TIMER_QUEUE \<Rightarrow> bool" where
  "queue_wf q \<longleftrightarrow> (\<exists>xs ys. lists_wf (timers q) (activeHead q) xs (inactiveHead q) ys)"

lemma queue_wfI: "lists_wf (timers q) (activeHead q) xs (inactiveHead q) ys \<Longrightarrow> queue_wf q"
  by (auto simp: queue_wf_def)

lemma lists_wf_swap: "lists_wf h a xs i ys \<Longrightarrow> lists_wf h i ys a xs"
  by (auto simp: lists_wf_def)

lemma lists_wf_frame: "lists_wf h a xs i ys \<Longrightarrow> z \<notin> set xs \<Longrightarrow> z \<notin> set ys \<Longrightarrow> lists_wf (h(z := v)) a xs i ys"
  by (simp add: lists_wf_def heap_frame)

lemma tchain_allocated: "tchain h a xs \<Longrightarrow> x \<in> set xs \<Longrightarrow> x \<noteq> NULL \<and> h x \<noteq> None"
  by (induction xs arbitrary: a) auto

lemma Insert_wf:
  assumes wf: "lists_wf h a xs i ys" and new: "timer \<notin> set xs" "timer \<notin> set ys" "timer \<noteq> NULL" "h timer = Some t"
  shows "\<exists>a' h' xs'. InsertTimerQueueTimer a timer h = Some (a', h') \<and> lists_wf h' a' xs' i ys \<and> set xs' \<subseteq> insert timer (set xs) \<and>
    (\<forall>x. map_option (tq_next_update (\<lambda>_. NULL)) (h' x) = map_option (tq_next_update (\<lambda>_. NULL)) (h x))"
proof -
  have d: "distinct xs" "set xs \<inter> set ys = {}" "distinct ys" using wf by (auto simp: lists_wf_def)
  obtain a' h' where ins: "InsertTimerQueueTimer a timer h = Some (a', h')" "tchain h' a' (inserted (expiration h) (ExpirationTime t) timer xs)"
      "\<forall>x. x \<notin> set xs \<and> x \<noteq> timer \<longrightarrow> h' x = h x"
      "\<forall>x. map_option (tq_next_update (\<lambda>_. NULL)) (h' x) = map_option (tq_next_update (\<lambda>_. NULL)) (h x)"
    using Insert_chain [of h a xs timer t] wf new d(1) unfolding lists_wf_def by blast
  have "tchain h' i ys" using wf ins(3) new(2) d(2) tchain_frame [of ys h' h i] by (auto simp: lists_wf_def)
  moreover have "distinct (inserted (expiration h) (ExpirationTime t) timer xs @ ys)"
    using distinct_inserted [OF d(1) new(1)] set_inserted [of "expiration h" "ExpirationTime t" timer xs] d(2,3) new(2) by auto
  ultimately have "lists_wf h' a' (inserted (expiration h) (ExpirationTime t) timer xs) i ys" using ins(2) by (simp add: lists_wf_def)
  then show ?thesis using ins(1,4) set_inserted by blast
qed

lemma Remove_wf:
  assumes wf: "lists_wf h a xs i ys" and timer: "timer \<noteq> NULL" "h timer \<noteq> None"
  shows "\<exists>a' h'. RemoveTimerQueueTimer a timer h = Some (a', h') \<and> h' timer \<noteq> None \<and>
    (timer \<notin> set ys \<longrightarrow> lists_wf h' a' (remove1 timer xs) i ys) \<and> (timer \<notin> set xs \<longrightarrow> a' = a \<and> h' = h)"
proof (cases "timer \<in> set xs")
  case True
  then obtain us vs where split: "xs = us @ timer # vs" "timer \<notin> set us" using split_list_first by fastforce
  have d: "distinct (us @ timer # vs)" "(set us \<union> {timer} \<union> set vs) \<inter> set ys = {}" "distinct ys" using wf split by (auto simp: lists_wf_def)
  have c: "tchain h a (us @ timer # vs)" "tchain h i ys" using wf split(1) by (simp_all add: lists_wf_def)
  obtain a' h' where rem: "RemoveTimerQueueTimer a timer h = Some (a', h')" "tchain h' a' (us @ vs)" "\<forall>z. z \<noteq> timer \<and> z \<notin> set us \<longrightarrow> h' z = h z" "h' timer \<noteq> None"
    using Remove_keeps [OF c(1) d(1)] by blast
  have "h' z = h z" if "z \<in> set ys" for z using that rem(3) d(2) by blast
  then have "tchain h' i ys" using c(2) tchain_frame [of ys h' h i] by blast
  then have "lists_wf h' a' (us @ vs) i ys" using rem(2) d by (auto simp: lists_wf_def)
  then show ?thesis using rem(1,4) split True by (simp add: remove1_append)
next
  case False
  then have "a \<noteq> timer" using wf timer(1) by (cases xs) (auto simp: lists_wf_def)
  then have "RemoveTimerQueueTimer a timer h = Some (a, h)"
    using remove_walk_absent [of h a xs timer NULL] wf False by (simp add: RemoveTimerQueueTimer_def lists_wf_def)
  then show ?thesis using wf False timer(2) by (simp add: remove1_idem)
qed

section \<open>Operations\<close>

lemma Create_wf: "CreateTimerQueue block = (hd0, Some q) \<Longrightarrow> queue_wf q"
  by (auto simp: CreateTimerQueue_def queue_wf_def lists_wf_def split: if_splits intro!: exI [of _ "[]"])

lemma CreateTimer_wf:
  assumes "queue_wf q" "timers q block = None"
  shows "\<exists>ok q'. CreateTimerQueueTimer block now TimerQueue cb param due period flags q = Some (ok, q') \<and> queue_wf q'"
proof (cases "TimerQueue = NULL \<or> block = NULL")
  case True
  then show ?thesis using assms by (auto simp: CreateTimerQueueTimer_def)
next
  case False
  obtain xs ys where wf: "lists_wf (timers q) (activeHead q) xs (inactiveHead q) ys" using assms(1) by (auto simp: queue_wf_def)
  have fresh: "block \<notin> set xs" "block \<notin> set ys" using wf assms(2) tchain_allocated unfolding lists_wf_def by blast+
  define t where "t = \<lparr>tq_Flags = flags, DueTime = due, Period = period, tq_Parameter = param, tq_Callback = cb, FireCount = 0,
    StartTime = timespec_add_ms (timespec_copy now) due, ExpirationTime = timespec_copy (timespec_add_ms (timespec_copy now) due),
    tq_timerQueue = TimerQueue, tq_next = NULL\<rparr>"
  obtain a' h' xs' where "InsertTimerQueueTimer (activeHead q) block ((timers q)(block \<mapsto> t)) = Some (a', h')" "lists_wf h' a' xs' (inactiveHead q) ys"
    using Insert_wf [OF lists_wf_frame [OF wf fresh, of "Some t"] fresh] False by auto
  then show ?thesis using False by (auto simp: CreateTimerQueueTimer_def Let_def t_def intro!: queue_wfI)
qed

lemma Change_wf:
  assumes "queue_wf q" "timers q timer \<noteq> None"
  shows "\<exists>ok q'. ChangeTimerQueueTimer now TimerQueue timer due period q = Some (ok, q') \<and> queue_wf q'"
proof (cases "TimerQueue = NULL \<or> timer = NULL")
  case True
  then show ?thesis using assms by (auto simp: ChangeTimerQueueTimer_def)
next
  case False
  obtain xs ys where wf: "lists_wf (timers q) (activeHead q) xs (inactiveHead q) ys" using assms(1) by (auto simp: queue_wf_def)
  obtain a1 h1 where r1: "RemoveTimerQueueTimer (activeHead q) timer (timers q) = Some (a1, h1)" "h1 timer \<noteq> None"
      "timer \<notin> set ys \<longrightarrow> lists_wf h1 a1 (remove1 timer xs) (inactiveHead q) ys" "timer \<notin> set xs \<longrightarrow> a1 = activeHead q \<and> h1 = timers q"
    using Remove_wf [OF wf _ assms(2)] False by blast
  have wf1: "lists_wf h1 a1 (remove1 timer xs) (inactiveHead q) ys"
  proof (cases "timer \<in> set ys")
    case True
    then have "timer \<notin> set xs" using wf by (auto simp: lists_wf_def)
    then show ?thesis using r1(4) wf by (simp add: remove1_idem)
  qed (use r1(3) in simp)
  have d: "timer \<notin> set (remove1 timer xs)" "timer \<notin> set (remove1 timer ys)" using wf by (auto simp: lists_wf_def)
  obtain i2 h2 where r2: "RemoveTimerQueueTimer (inactiveHead q) timer h1 = Some (i2, h2)" "h2 timer \<noteq> None"
      "lists_wf h2 i2 (remove1 timer ys) a1 (remove1 timer xs)"
    using Remove_wf [OF lists_wf_swap [OF wf1] _ r1(2)] False d(1) by blast
  obtain t where t: "h2 timer = Some t" using r2(2) by blast
  define t' where "t' = t\<lparr>DueTime := due, Period := period, tq_next := NULL, StartTime := timespec_add_ms (timespec_copy now) due,
    ExpirationTime := timespec_copy (timespec_add_ms (timespec_copy now) due)\<rparr>"
  have wf2: "lists_wf (h2(timer \<mapsto> t')) a1 (remove1 timer xs) i2 (remove1 timer ys)"
    using lists_wf_frame [OF lists_wf_swap [OF r2(3)] d] .
  obtain a3 h3 xs3 where "InsertTimerQueueTimer a1 timer (h2(timer \<mapsto> t')) = Some (a3, h3)" "lists_wf h3 a3 xs3 i2 (remove1 timer ys)"
    using Insert_wf [OF wf2 d] False by auto
  then show ?thesis using False r1(1) r2(1) t by (auto simp: ChangeTimerQueueTimer_def Let_def t'_def intro!: queue_wfI)
qed

section \<open>Firing\<close>

text \<open>
  The times the loop can compare: normalised, and at most \<open>2 ^ 30\<close> seconds apart. A periodic timer must advance: its period in
  nanoseconds is not a multiple of \<open>2 ^ 32\<close>.
\<close>

definition normal :: "timespec \<Rightarrow> bool" where
  "normal t \<longleftrightarrow> 0 \<le> tv_nsec t \<and> tv_nsec t < 1000000000"

definition due_ok :: "timespec \<Rightarrow> WINPR_TIMER_QUEUE_TIMER \<Rightarrow> bool" where
  "due_ok now t \<longleftrightarrow> normal (ExpirationTime t) \<and> \<bar>tv_sec now - tv_sec (ExpirationTime t)\<bar> \<le> 2 ^ 30 \<and> (Period t \<noteq> 0 \<longrightarrow> Period t * 1000000 \<noteq> 0)"

text \<open>How far a timer is behind, in nanoseconds.\<close>

definition debt :: "timespec \<Rightarrow> WINPR_TIMER_QUEUE_TIMER \<Rightarrow> nat" where
  "debt now t = nat (ts_ns now - ts_ns (ExpirationTime t) + 1)"

lemma compare_ns:
  assumes "normal now" "due_ok now t"
  shows "timespec_compare now (ExpirationTime t) \<ge> 0 \<longleftrightarrow> ts_ns (ExpirationTime t) \<le> ts_ns now"
proof -
  have "signed_take_bit 31 k = k" if "\<bar>k\<bar> \<le> 2 ^ 30" for k :: int using that by (intro signed_take_bit_int_eq_self) auto
  moreover have "\<bar>tv_nsec now - tv_nsec (ExpirationTime t)\<bar> \<le> 2 ^ 30" using assms by (auto simp: normal_def due_ok_def)
  ultimately show ?thesis using assms by (auto simp: timespec_compare_def due_ok_def normal_def ts_ns_def)
qed

lemma add_ms_ns: "normal t \<Longrightarrow> normal (timespec_add_ms t ms) \<and> ts_ns (timespec_add_ms t ms) = ts_ns t + uint (ms * 1000000)"
  by (auto simp: normal_def timespec_add_ms_def ts_ns_def Let_def)

lemma advanced_ok:
  assumes "normal now" "due_ok now t" "ts_ns (ExpirationTime t) \<le> ts_ns now" "Period t \<noteq> 0"
  defines "t' \<equiv> t\<lparr>ExpirationTime := timespec_add_ms (ExpirationTime t) (Period t)\<rparr>"
  shows "due_ok now t'" "debt now t' < debt now t"
proof -
  have n: "normal (ExpirationTime t)" "Period t * 1000000 \<noteq> 0" using assms(2,4) by (auto simp: due_ok_def)
  let ?d = "uint (Period t * 1000000)"
  have d: "0 < ?d" "?d < 4294967296" using n(2) uint_lt2p [of "Period t * 1000000"] by (simp_all add: uint_0_iff order.strict_iff_order)
  have e: "normal (ExpirationTime t')" "ts_ns (ExpirationTime t') = ts_ns (ExpirationTime t) + ?d" using add_ms_ns [OF n(1)] by (simp_all add: t'_def)
  show "debt now t' < debt now t" using d(1) e(2) assms(3) by (simp add: debt_def)
  have "\<bar>tv_sec now - tv_sec (ExpirationTime t')\<bar> \<le> 2 ^ 30"
    using e d assms(1-3) n(1) by (auto simp: normal_def ts_ns_def due_ok_def)
  then show "due_ok now t'" using e(1) assms(2) by (simp add: due_ok_def t'_def)
qed

lemma same_core:
  assumes "map_option (tq_next_update (\<lambda>_. NULL)) (h' x) = map_option (tq_next_update (\<lambda>_. NULL)) (h x)" "h x = Some t"
  shows "\<exists>t'. h' x = Some t' \<and> ExpirationTime t' = ExpirationTime t \<and> Period t' = Period t"
proof -
  obtain t' where t': "h' x = Some t'" "t'\<lparr>tq_next := NULL\<rparr> = t\<lparr>tq_next := NULL\<rparr>" using assms by (cases "h' x") auto
  have "ExpirationTime (t'\<lparr>tq_next := NULL\<rparr>) = ExpirationTime (t\<lparr>tq_next := NULL\<rparr>)" "Period (t'\<lparr>tq_next := NULL\<rparr>) = Period (t\<lparr>tq_next := NULL\<rparr>)"
    by (simp_all only: t'(2))
  then show ?thesis using t'(1) by simp
qed

text \<open>Only the expiration time and the period matter for the two notions.\<close>

lemma due_ok_cong: "ExpirationTime t' = ExpirationTime t \<Longrightarrow> Period t' = Period t \<Longrightarrow> due_ok now t' = due_ok now t \<and> debt now t' = debt now t"
  by (simp add: due_ok_def debt_def)

definition all_due :: "timespec \<Rightarrow> timer_heap \<Rightarrow> addr set \<Rightarrow> bool" where
  "all_due now h S \<longleftrightarrow> (\<forall>y \<in> S. h y \<noteq> None \<and> due_ok now (the (h y)))"

definition total :: "timespec \<Rightarrow> timer_heap \<Rightarrow> addr set \<Rightarrow> nat" where
  "total now h S = (\<Sum>y \<in> S. debt now (the (h y)))"

lemma same_cores:
  assumes "\<forall>x. map_option (tq_next_update (\<lambda>_. NULL)) (h' x) = map_option (tq_next_update (\<lambda>_. NULL)) (h x)"
    and "all_due now h S" "T \<subseteq> S" "finite S"
  shows "all_due now h' T \<and> total now h' T \<le> total now h S"
proof -
  have same: "h' y \<noteq> None \<and> due_ok now (the (h' y)) \<and> debt now (the (h' y)) = debt now (the (h y))" if y: "y \<in> T" for y
  proof -
    obtain t where t: "h y = Some t" "due_ok now t" using assms(2,3) y by (fastforce simp: all_due_def)
    obtain t' where "h' y = Some t'" "ExpirationTime t' = ExpirationTime t" "Period t' = Period t"
      using same_core [of h' y h t] assms(1) t(1) by blast
    then show ?thesis using t due_ok_cong [of t' t now] by simp
  qed
  have "total now h' T = total now h T" using same by (simp add: total_def)
  also have "\<dots> \<le> total now h S" unfolding total_def using assms(3,4) by (intro sum_mono2) auto
  finally show ?thesis using same by (simp add: all_due_def)
qed

lemma all_due_upd: "all_due now h S \<Longrightarrow> due_ok now t \<Longrightarrow> all_due now (h(x \<mapsto> t)) (insert x S)"
  by (auto simp: all_due_def)

lemma total_upd: "finite S \<Longrightarrow> x \<notin> S \<Longrightarrow> total now (h(x \<mapsto> t)) (insert x S) = debt now t + total now h S"
  by (auto simp: total_def intro!: sum.cong)

lemma total_insert: "finite S \<Longrightarrow> x \<notin> S \<Longrightarrow> total now h (insert x S) = debt now (the (h x)) + total now h S"
  by (simp add: total_def)

lemma total_frame: "x \<notin> S \<Longrightarrow> total now (h(x := v)) S = total now h S"
  by (auto simp: total_def intro!: sum.cong)

lemma all_due_frame: "x \<notin> S \<Longrightarrow> all_due now h S \<Longrightarrow> all_due now (h(x := v)) S"
  by (auto simp: all_due_def)

text \<open>One round of the loop returns, keeps the lists well formed and reduces the total debt.\<close>

lemma fire_periodic:
  assumes "lists_wf (timers q) (tq_next n) xs (inactiveHead q) ys" "x \<notin> set xs" "x \<notin> set ys" "x \<noteq> NULL"
    and "all_due now (timers q) (set xs)" "activeHead q = x" "timers q x = Some n" "Period n \<noteq> 0"
    and "normal now" "due_ok now n" "ts_ns (ExpirationTime n) \<le> ts_ns now"
  shows "\<exists>q' xs'. fire_head now q = Some q' \<and> lists_wf (timers q') (activeHead q') xs' (inactiveHead q') ys \<and>
    all_due now (timers q') (set xs') \<and> total now (timers q') (set xs') < debt now n + total now (timers q) (set xs)"
proof -
  let ?n = "n\<lparr>FireCount := FireCount n + 1, tq_next := NULL, ExpirationTime := timespec_add_ms (ExpirationTime n) (Period n)\<rparr>"
  let ?h = "(timers q)(x \<mapsto> ?n)"
  have adv: "due_ok now ?n" "debt now ?n < debt now n"
    using advanced_ok [OF assms(9-11,8)] due_ok_cong [of ?n "n\<lparr>ExpirationTime := timespec_add_ms (ExpirationTime n) (Period n)\<rparr>" now] by simp_all
  obtain a' h' xs' where ins: "InsertTimerQueueTimer (tq_next n) x ?h = Some (a', h')" "lists_wf h' a' xs' (inactiveHead q) ys" "set xs' \<subseteq> insert x (set xs)"
      "\<forall>z. map_option (tq_next_update (\<lambda>_. NULL)) (h' z) = map_option (tq_next_update (\<lambda>_. NULL)) (?h z)"
    using Insert_wf [OF lists_wf_frame [OF assms(1-3)] assms(2-4)] by fastforce
  have "all_due now h' (set xs') \<and> total now h' (set xs') \<le> total now ?h (insert x (set xs))"
    using same_cores [OF ins(4) all_due_upd [OF assms(5) adv(1)] ins(3)] by simp
  moreover have "total now ?h (insert x (set xs)) = debt now ?n + total now (timers q) (set xs)" using assms(2) by (simp add: total_upd)
  moreover have "fire_head now q = Some (q\<lparr>tq_calls := tq_calls q @ [x], activeHead := a', timers := h'\<rparr>)"
    using assms(6-8) ins(1) by (simp add: fire_head_def Let_def)
  ultimately show ?thesis using ins(2) adv(2) by auto
qed

lemma fire_once:
  assumes "lists_wf (timers q) (tq_next n) xs (inactiveHead q) ys" "x \<notin> set xs" "x \<notin> set ys" "x \<noteq> NULL"
    and "all_due now (timers q) (set xs)" "activeHead q = x" "timers q x = Some n" "Period n = 0" "0 < debt now n"
  shows "\<exists>q' ys'. fire_head now q = Some q' \<and> lists_wf (timers q') (activeHead q') xs (inactiveHead q') ys' \<and>
    all_due now (timers q') (set xs) \<and> total now (timers q') (set xs) < debt now n + total now (timers q) (set xs)"
proof -
  let ?n = "n\<lparr>FireCount := FireCount n + 1, tq_next := NULL\<rparr>"
  let ?h = "(timers q)(x \<mapsto> ?n)"
  obtain i' h' ys' where ins: "InsertTimerQueueTimer (inactiveHead q) x ?h = Some (i', h')" "lists_wf h' i' ys' (tq_next n) xs"
      "\<forall>z. map_option (tq_next_update (\<lambda>_. NULL)) (h' z) = map_option (tq_next_update (\<lambda>_. NULL)) (?h z)"
    using Insert_wf [OF lists_wf_swap [OF lists_wf_frame [OF assms(1-3)]] assms(3,2,4)] by fastforce
  have "all_due now h' (set xs) \<and> total now h' (set xs) \<le> total now ?h (set xs)"
    using same_cores [OF ins(3) all_due_frame [OF assms(2,5)]] by simp
  moreover have "fire_head now q = Some (q\<lparr>tq_calls := tq_calls q @ [x], activeHead := tq_next n, inactiveHead := i', timers := h'\<rparr>)"
    using assms(6-8) ins(1) by (simp add: fire_head_def Let_def)
  ultimately show ?thesis using lists_wf_swap [OF ins(2)] assms(2,9) by (auto simp: total_frame)
qed

lemma Fire_returns:
  assumes "normal now"
  shows "lists_wf (timers q) (activeHead q) xs (inactiveHead q) ys \<Longrightarrow> all_due now (timers q) (set xs) \<Longrightarrow>
    \<exists>q' xs' ys'. FireExpiredTimerQueueTimers now q = Some q' \<and> lists_wf (timers q') (activeHead q') xs' (inactiveHead q') ys' \<and>
      (xs' \<noteq> [] \<longrightarrow> timespec_compare now (expiration (timers q') (hd xs')) < 0)"
proof (induction "total now (timers q) (set xs)" arbitrary: q xs ys rule: less_induct)
  case less
  show ?case
  proof (cases xs)
    case Nil
    then have "FireExpiredTimerQueueTimers now q = Some q" using less.prems(1) by (subst FireExpiredTimerQueueTimers.simps) (simp add: lists_wf_def)
    then show ?thesis using less.prems(1) Nil by auto
  next
    case (Cons x rest)
    obtain n where n: "timers q x = Some n" "x \<noteq> NULL" "activeHead q = x" and wf: "lists_wf (timers q) (tq_next n) rest (inactiveHead q) ys"
      and d: "x \<notin> set rest" "x \<notin> set ys" using less.prems(1) Cons by (auto simp: lists_wf_def)
    have ok: "due_ok now n" "all_due now (timers q) (set rest)" using less.prems(2) Cons n(1) by (auto simp: all_due_def)
    have tot: "total now (timers q) (set xs) = debt now n + total now (timers q) (set rest)" using Cons d(1) n(1) by (simp add: total_insert)
    show ?thesis
    proof (cases "ts_ns (ExpirationTime n) \<le> ts_ns now")
      case False
      then have late: "timespec_compare now (ExpirationTime n) < 0" using compare_ns [OF assms ok(1)] by simp
      then have "FireExpiredTimerQueueTimers now q = Some q" using n by (subst FireExpiredTimerQueueTimers.simps) simp
      then show ?thesis using less.prems(1) Cons late n(1) by (auto simp: expiration_def)
    next
      case True
      obtain q1 xs1 ys1 where q1: "fire_head now q = Some q1" "lists_wf (timers q1) (activeHead q1) xs1 (inactiveHead q1) ys1"
          "all_due now (timers q1) (set xs1)" "total now (timers q1) (set xs1) < total now (timers q) (set xs)"
      proof (cases "Period n = 0")
        case per: True
        have "0 < debt now n" using True by (simp add: debt_def)
        then show ?thesis using fire_once [OF wf d n(2) ok(2) n(3,1) per] that tot by metis
      next
        case False
        then show ?thesis using fire_periodic [OF wf d n(2) ok(2) n(3,1) _ assms ok(1) True] that tot by metis
      qed
      have "FireExpiredTimerQueueTimers now q = FireExpiredTimerQueueTimers now q1"
        using n True compare_ns [OF assms ok(1)] q1(1) by (subst FireExpiredTimerQueueTimers.simps) simp
      then show ?thesis using less.hyps [OF q1(4,2,3)] by simp
    qed
  qed
qed

section \<open>Deletion of a timer\<close>

lemma Delete_wf:
  assumes "lists_wf (timers q) (activeHead q) xs (inactiveHead q) ys" "timers q timer \<noteq> None" "timer \<noteq> NULL" "TimerQueue \<noteq> NULL" "timer \<notin> set ys"
  shows "\<exists>q'. DeleteTimerQueueTimer TimerQueue timer NULL q s = Done (True, q', s) \<and> queue_wf q'"
proof -
  obtain a' h' where r: "RemoveTimerQueueTimer (activeHead q) timer (timers q) = Some (a', h')" "lists_wf h' a' (remove1 timer xs) (inactiveHead q) ys"
    using Remove_wf [OF assms(1,3,2)] assms(5) by blast
  have "lists_wf (h'(timer := None)) a' (remove1 timer xs) (inactiveHead q) ys"
    using assms(1,5) by (intro lists_wf_frame [OF r(2)]) (auto simp: lists_wf_def)
  then show ?thesis using r(1) assms(3,4) by (auto simp: DeleteTimerQueueTimer_def signal_completion_def intro!: queue_wfI)
qed

lemma no_chain_through_freed: "tchain h a (us @ timer # vs) \<Longrightarrow> timer \<notin> set us \<Longrightarrow> \<not> tchain (h(timer := None)) a zs"
proof (induction us arbitrary: a zs)
  case Nil
  then show ?case by (cases zs) auto
next
  case (Cons u us)
  then show ?case by (cases zs) auto
qed

section \<open>Properties\<close>


definition tq_demo :: WINPR_TIMER_QUEUE where
  "tq_demo = \<lparr>timers = tq_samples, activeHead = 1, inactiveHead = 0, bCancelled = False, tq_calls = []\<rparr>"

lemma tq_demo_lists: "lists_wf (timers tq_demo) (activeHead tq_demo) [1, 2, 3] (inactiveHead tq_demo) []"
  using tq_samples_chain by (simp add: tq_demo_def lists_wf_def)


text \<open>
  C37: Firing ends. When the times are normalised and within \<open>2 ^ 30\<close> seconds of now, and the period of every periodic timer is not a
  multiple of \<open>2 ^ 32\<close> nanoseconds, one call of \<open>FireExpiredTimerQueueTimers\<close> returns, also when periodic timers are re-inserted while it
  runs; the lists are well formed afterwards and the first active timer has not expired.
\<close>

theorem FireExpired_terminates:
  assumes "normal now" "lists_wf (timers q) (activeHead q) xs (inactiveHead q) ys" "all_due now (timers q) (set xs)"
  shows "\<exists>q' xs' ys'. FireExpiredTimerQueueTimers now q = Some q' \<and> lists_wf (timers q') (activeHead q') xs' (inactiveHead q') ys' \<and>
    (xs' \<noteq> [] \<longrightarrow> timespec_compare now (expiration (timers q') (hd xs')) < 0)"
  using assms by (rule Fire_returns)

definition tq_periodic :: WINPR_TIMER_QUEUE where
  "tq_periodic = tq_demo\<lparr>timers := tq_samples(2 \<mapsto> (tq_sample 20 3)\<lparr>Period := 1000\<rparr>)\<rparr>"

theorem FireExpired_terminates_witness:
  "\<exists>q' xs' ys'. FireExpiredTimerQueueTimers \<lparr>tv_sec = 25, tv_nsec = 0\<rparr> tq_periodic = Some q' \<and>
    lists_wf (timers q') (activeHead q') xs' (inactiveHead q') ys'"
proof -
  have "normal \<lparr>tv_sec = 25, tv_nsec = 0\<rparr>" by (simp add: normal_def)
  moreover have "lists_wf (timers tq_periodic) (activeHead tq_periodic) [1, 2, 3] (inactiveHead tq_periodic) []"
    by (simp add: tq_periodic_def tq_demo_def tq_samples_def tq_sample_def lists_wf_def)
  moreover have "all_due \<lparr>tv_sec = 25, tv_nsec = 0\<rparr> (timers tq_periodic) (set [1, 2, 3])"
    by (simp add: all_due_def due_ok_def normal_def tq_periodic_def tq_demo_def tq_samples_def tq_sample_def)
  ultimately show ?thesis using FireExpired_terminates [of "\<lparr>tv_sec = 25, tv_nsec = 0\<rparr>" tq_periodic "[1, 2, 3]" "[]"] by blast
qed

text \<open>
  Deleting a timer that has fired: \<open>DeleteTimerQueueTimer\<close> looks for it on the active list only, so that the inactive list still leads
  through the freed timer, and no list of allocated timers starts at its head any more.
\<close>

theorem delete_fired_timer_dangles:
  assumes "lists_wf (timers q) (activeHead q) xs (inactiveHead q) ys" "timer \<in> set ys" "TimerQueue \<noteq> NULL"
  shows "\<exists>q'. DeleteTimerQueueTimer TimerQueue timer NULL q s = Done (True, q', s) \<and> (\<forall>zs. \<not> tchain (timers q') (inactiveHead q') zs)"
proof -
  obtain us vs where ys: "ys = us @ timer # vs" "timer \<notin> set us" using assms(2) split_list_first by fastforce
  have t: "timer \<noteq> NULL" "timers q timer \<noteq> None" "timer \<notin> set xs" using assms(1,2) tchain_allocated by (auto simp: lists_wf_def)
  have "RemoveTimerQueueTimer (activeHead q) timer (timers q) = Some (activeHead q, timers q)" using Remove_wf [OF assms(1) t(1,2)] t(3) by auto
  moreover have "\<not> tchain ((timers q)(timer := None)) (inactiveHead q) zs" for zs
    using assms(1) unfolding ys(1) lists_wf_def by (intro no_chain_through_freed [OF _ ys(2)]) blast
  ultimately show ?thesis using t(1) assms(3) by (simp add: DeleteTimerQueueTimer_def signal_completion_def)
qed

end
