(* ===== verification/Winsock.thy ===== *)
theory Winsock
  imports Handles
begin

text \<open>
  src/libuzi/winsock.c outside Windows: the translation between socket error codes and \<^verbatim>\<open>errno\<close>, the event functions,
  and the wrappers of the socket calls. A system call is an argument of the wrapper that makes it.
\<close>

section \<open>Error codes\<close>

text \<open>The values of \<^verbatim>\<open>errno\<close> on Linux, where \<^verbatim>\<open>EAGAIN\<close> is \<^verbatim>\<open>EWOULDBLOCK\<close> and \<^verbatim>\<open>EPROCLIM\<close> is not defined.\<close>

abbreviation (input) EINTR :: int where "EINTR \<equiv> 4"
abbreviation (input) EBADF :: int where "EBADF \<equiv> 9"
abbreviation (input) EACCES :: int where "EACCES \<equiv> 13"
abbreviation (input) EFAULT :: int where "EFAULT \<equiv> 14"
abbreviation (input) EINVAL :: int where "EINVAL \<equiv> 22"
abbreviation (input) EMFILE :: int where "EMFILE \<equiv> 24"
abbreviation (input) EWOULDBLOCK :: int where "EWOULDBLOCK \<equiv> 11"
abbreviation (input) EINPROGRESS :: int where "EINPROGRESS \<equiv> 115"
abbreviation (input) EALREADY :: int where "EALREADY \<equiv> 114"
abbreviation (input) ENOTSOCK :: int where "ENOTSOCK \<equiv> 88"
abbreviation (input) EDESTADDRREQ :: int where "EDESTADDRREQ \<equiv> 89"
abbreviation (input) EMSGSIZE :: int where "EMSGSIZE \<equiv> 90"
abbreviation (input) EPROTOTYPE :: int where "EPROTOTYPE \<equiv> 91"
abbreviation (input) ENOPROTOOPT :: int where "ENOPROTOOPT \<equiv> 92"
abbreviation (input) EPROTONOSUPPORT :: int where "EPROTONOSUPPORT \<equiv> 93"
abbreviation (input) ESOCKTNOSUPPORT :: int where "ESOCKTNOSUPPORT \<equiv> 94"
abbreviation (input) EOPNOTSUPP :: int where "EOPNOTSUPP \<equiv> 95"
abbreviation (input) EPFNOSUPPORT :: int where "EPFNOSUPPORT \<equiv> 96"
abbreviation (input) EAFNOSUPPORT :: int where "EAFNOSUPPORT \<equiv> 97"
abbreviation (input) EADDRINUSE :: int where "EADDRINUSE \<equiv> 98"
abbreviation (input) EADDRNOTAVAIL :: int where "EADDRNOTAVAIL \<equiv> 99"
abbreviation (input) ENETDOWN :: int where "ENETDOWN \<equiv> 100"
abbreviation (input) ENETUNREACH :: int where "ENETUNREACH \<equiv> 101"
abbreviation (input) ENETRESET :: int where "ENETRESET \<equiv> 102"
abbreviation (input) ECONNABORTED :: int where "ECONNABORTED \<equiv> 103"
abbreviation (input) ECONNRESET :: int where "ECONNRESET \<equiv> 104"
abbreviation (input) ENOBUFS :: int where "ENOBUFS \<equiv> 105"
abbreviation (input) EISCONN :: int where "EISCONN \<equiv> 106"
abbreviation (input) ENOTCONN :: int where "ENOTCONN \<equiv> 107"
abbreviation (input) ESHUTDOWN :: int where "ESHUTDOWN \<equiv> 108"
abbreviation (input) ETOOMANYREFS :: int where "ETOOMANYREFS \<equiv> 109"
abbreviation (input) ETIMEDOUT :: int where "ETIMEDOUT \<equiv> 110"
abbreviation (input) ECONNREFUSED :: int where "ECONNREFUSED \<equiv> 111"
abbreviation (input) ELOOP :: int where "ELOOP \<equiv> 40"
abbreviation (input) ENAMETOOLONG :: int where "ENAMETOOLONG \<equiv> 36"
abbreviation (input) EHOSTDOWN :: int where "EHOSTDOWN \<equiv> 112"
abbreviation (input) EHOSTUNREACH :: int where "EHOSTUNREACH \<equiv> 113"
abbreviation (input) ENOTEMPTY :: int where "ENOTEMPTY \<equiv> 39"
abbreviation (input) EUSERS :: int where "EUSERS \<equiv> 87"
abbreviation (input) EDQUOT :: int where "EDQUOT \<equiv> 122"
abbreviation (input) ESTALE :: int where "ESTALE \<equiv> 116"
abbreviation (input) EREMOTE :: int where "EREMOTE \<equiv> 66"
abbreviation (input) EPROTO :: int where "EPROTO \<equiv> 71"

text \<open>The codes of src/include/uzi/error.h.\<close>

abbreviation (input) WSAEINTR :: int where "WSAEINTR \<equiv> 10004"
abbreviation (input) WSAEBADF :: int where "WSAEBADF \<equiv> 10009"
abbreviation (input) WSAEACCES :: int where "WSAEACCES \<equiv> 10013"
abbreviation (input) WSAEFAULT :: int where "WSAEFAULT \<equiv> 10014"
abbreviation (input) WSAEINVAL :: int where "WSAEINVAL \<equiv> 10022"
abbreviation (input) WSAEMFILE :: int where "WSAEMFILE \<equiv> 10024"
abbreviation (input) WSAEWOULDBLOCK :: int where "WSAEWOULDBLOCK \<equiv> 10035"
abbreviation (input) WSAEINPROGRESS :: int where "WSAEINPROGRESS \<equiv> 10036"
abbreviation (input) WSAEALREADY :: int where "WSAEALREADY \<equiv> 10037"
abbreviation (input) WSAENOTSOCK :: int where "WSAENOTSOCK \<equiv> 10038"
abbreviation (input) WSAEDESTADDRREQ :: int where "WSAEDESTADDRREQ \<equiv> 10039"
abbreviation (input) WSAEMSGSIZE :: int where "WSAEMSGSIZE \<equiv> 10040"
abbreviation (input) WSAEPROTOTYPE :: int where "WSAEPROTOTYPE \<equiv> 10041"
abbreviation (input) WSAENOPROTOOPT :: int where "WSAENOPROTOOPT \<equiv> 10042"
abbreviation (input) WSAEPROTONOSUPPORT :: int where "WSAEPROTONOSUPPORT \<equiv> 10043"
abbreviation (input) WSAESOCKTNOSUPPORT :: int where "WSAESOCKTNOSUPPORT \<equiv> 10044"
abbreviation (input) WSAEOPNOTSUPP :: int where "WSAEOPNOTSUPP \<equiv> 10045"
abbreviation (input) WSAEPFNOSUPPORT :: int where "WSAEPFNOSUPPORT \<equiv> 10046"
abbreviation (input) WSAEAFNOSUPPORT :: int where "WSAEAFNOSUPPORT \<equiv> 10047"
abbreviation (input) WSAEADDRINUSE :: int where "WSAEADDRINUSE \<equiv> 10048"
abbreviation (input) WSAEADDRNOTAVAIL :: int where "WSAEADDRNOTAVAIL \<equiv> 10049"
abbreviation (input) WSAENETDOWN :: int where "WSAENETDOWN \<equiv> 10050"
abbreviation (input) WSAENETUNREACH :: int where "WSAENETUNREACH \<equiv> 10051"
abbreviation (input) WSAENETRESET :: int where "WSAENETRESET \<equiv> 10052"
abbreviation (input) WSAECONNABORTED :: int where "WSAECONNABORTED \<equiv> 10053"
abbreviation (input) WSAECONNRESET :: int where "WSAECONNRESET \<equiv> 10054"
abbreviation (input) WSAENOBUFS :: int where "WSAENOBUFS \<equiv> 10055"
abbreviation (input) WSAEISCONN :: int where "WSAEISCONN \<equiv> 10056"
abbreviation (input) WSAENOTCONN :: int where "WSAENOTCONN \<equiv> 10057"
abbreviation (input) WSAESHUTDOWN :: int where "WSAESHUTDOWN \<equiv> 10058"
abbreviation (input) WSAETOOMANYREFS :: int where "WSAETOOMANYREFS \<equiv> 10059"
abbreviation (input) WSAETIMEDOUT :: int where "WSAETIMEDOUT \<equiv> 10060"
abbreviation (input) WSAECONNREFUSED :: int where "WSAECONNREFUSED \<equiv> 10061"
abbreviation (input) WSAELOOP :: int where "WSAELOOP \<equiv> 10062"
abbreviation (input) WSAENAMETOOLONG :: int where "WSAENAMETOOLONG \<equiv> 10063"
abbreviation (input) WSAEHOSTDOWN :: int where "WSAEHOSTDOWN \<equiv> 10064"
abbreviation (input) WSAEHOSTUNREACH :: int where "WSAEHOSTUNREACH \<equiv> 10065"
abbreviation (input) WSAENOTEMPTY :: int where "WSAENOTEMPTY \<equiv> 10066"
abbreviation (input) WSAEUSERS :: int where "WSAEUSERS \<equiv> 10068"
abbreviation (input) WSAEDQUOT :: int where "WSAEDQUOT \<equiv> 10069"
abbreviation (input) WSAESTALE :: int where "WSAESTALE \<equiv> 10070"
abbreviation (input) WSAEREMOTE :: int where "WSAEREMOTE \<equiv> 10071"

text \<open>The two switch statements.\<close>

definition set_cases :: "(int \<times> int) list" where
  "set_cases =
    [(WSAEINTR, EINTR), (WSAEBADF, EBADF), (WSAEACCES, EACCES),
     (WSAEFAULT, EFAULT), (WSAEINVAL, EINVAL), (WSAEMFILE, EMFILE),
     (WSAEWOULDBLOCK, EWOULDBLOCK), (WSAEINPROGRESS, EINPROGRESS), (WSAEALREADY, EALREADY),
     (WSAENOTSOCK, ENOTSOCK), (WSAEDESTADDRREQ, EDESTADDRREQ), (WSAEMSGSIZE, EMSGSIZE),
     (WSAEPROTOTYPE, EPROTOTYPE), (WSAENOPROTOOPT, ENOPROTOOPT), (WSAEPROTONOSUPPORT, EPROTONOSUPPORT),
     (WSAESOCKTNOSUPPORT, ESOCKTNOSUPPORT), (WSAEOPNOTSUPP, EOPNOTSUPP), (WSAEPFNOSUPPORT, EPFNOSUPPORT),
     (WSAEAFNOSUPPORT, EAFNOSUPPORT), (WSAEADDRINUSE, EADDRINUSE), (WSAEADDRNOTAVAIL, EADDRNOTAVAIL),
     (WSAENETDOWN, ENETDOWN), (WSAENETUNREACH, ENETUNREACH), (WSAENETRESET, ENETRESET),
     (WSAECONNABORTED, ECONNABORTED), (WSAECONNRESET, ECONNRESET), (WSAENOBUFS, ENOBUFS),
     (WSAEISCONN, EISCONN), (WSAENOTCONN, ENOTCONN), (WSAESHUTDOWN, ESHUTDOWN),
     (WSAETOOMANYREFS, ETOOMANYREFS), (WSAETIMEDOUT, ETIMEDOUT), (WSAECONNREFUSED, ECONNREFUSED),
     (WSAELOOP, ELOOP), (WSAENAMETOOLONG, ENAMETOOLONG), (WSAEHOSTDOWN, EHOSTDOWN),
     (WSAEHOSTUNREACH, EHOSTUNREACH), (WSAENOTEMPTY, ENOTEMPTY), (WSAEUSERS, EUSERS),
     (WSAEDQUOT, EDQUOT), (WSAESTALE, ESTALE), (WSAEREMOTE, EREMOTE)]"

definition get_cases :: "(int \<times> int) list" where
  "get_cases =
    [(EINTR, WSAEINTR), (EBADF, WSAEBADF), (EACCES, WSAEACCES),
     (EFAULT, WSAEFAULT), (EINVAL, WSAEINVAL), (EMFILE, WSAEMFILE),
     (EWOULDBLOCK, WSAEWOULDBLOCK), (EINPROGRESS, WSAEINPROGRESS), (EALREADY, WSAEALREADY),
     (ENOTSOCK, WSAENOTSOCK), (EDESTADDRREQ, WSAEDESTADDRREQ), (EMSGSIZE, WSAEMSGSIZE),
     (EPROTOTYPE, WSAEPROTOTYPE), (ENOPROTOOPT, WSAENOPROTOOPT), (EPROTONOSUPPORT, WSAEPROTONOSUPPORT),
     (ESOCKTNOSUPPORT, WSAESOCKTNOSUPPORT), (EOPNOTSUPP, WSAEOPNOTSUPP), (EPFNOSUPPORT, WSAEPFNOSUPPORT),
     (EAFNOSUPPORT, WSAEAFNOSUPPORT), (EADDRINUSE, WSAEADDRINUSE), (EADDRNOTAVAIL, WSAEADDRNOTAVAIL),
     (ENETDOWN, WSAENETDOWN), (ENETUNREACH, WSAENETUNREACH), (ENETRESET, WSAENETRESET),
     (ECONNABORTED, WSAECONNABORTED), (ECONNRESET, WSAECONNRESET), (ENOBUFS, WSAENOBUFS),
     (EISCONN, WSAEISCONN), (ENOTCONN, WSAENOTCONN), (ESHUTDOWN, WSAESHUTDOWN),
     (ETOOMANYREFS, WSAETOOMANYREFS), (ETIMEDOUT, WSAETIMEDOUT), (ECONNREFUSED, WSAECONNREFUSED),
     (ELOOP, WSAELOOP), (ENAMETOOLONG, WSAENAMETOOLONG), (EHOSTDOWN, WSAEHOSTDOWN),
     (EHOSTUNREACH, WSAEHOSTUNREACH), (ENOTEMPTY, WSAENOTEMPTY), (EUSERS, WSAEUSERS),
     (EDQUOT, WSAEDQUOT), (ESTALE, WSAESTALE), (EREMOTE, WSAEREMOTE),
     (EPROTO, WSAECONNRESET)]"

text \<open>The value of \<^verbatim>\<open>errno\<close> after the call, from the value before.\<close>

definition WSASetLastError :: "int \<Rightarrow> int \<Rightarrow> int" where
  "WSASetLastError iError errno0 = (case map_of set_cases iError of Some e \<Rightarrow> e | None \<Rightarrow> errno0)"

definition WSAGetLastError :: "int \<Rightarrow> int" where
  "WSAGetLastError errno0 = (case map_of get_cases errno0 of Some iError \<Rightarrow> iError | None \<Rightarrow> 0)"

section \<open>Start and events\<close>

record WSADATA =
  wVersion :: u16
  wHighVersion :: u16
  iMaxSockets :: u16
  iMaxUdpDg :: u16
  lpVendorInfo :: addr
  szDescription :: "u8 list"
  szSystemStatus :: "u8 list"

definition MAKEWORD :: "u64 \<Rightarrow> u64 \<Rightarrow> u16" where
  "MAKEWORD a b = ucast (a AND 0xFF) OR push_bit 8 (ucast (b AND 0xFF))"

definition WSAStartup :: "u16 \<Rightarrow> int \<times> WSADATA" where
  "WSAStartup wVersionRequired =
     (0, \<lparr>wVersion = wVersionRequired, wHighVersion = MAKEWORD 2 2, iMaxSockets = 0, iMaxUdpDg = 0, lpVendorInfo = NULL,
          szDescription = replicate 257 0, szSystemStatus = replicate 129 0\<rparr>)"

definition WSACleanup :: int where
  "WSACleanup = 0"

definition WSACreateEvent :: "addr \<Rightarrow> int \<Rightarrow> os \<Rightarrow> (addr \<times> os) outcome" where
  "WSACreateEvent block efd s = CreateEventA block efd True False s"

definition WSASetEvent :: "addr \<Rightarrow> os \<Rightarrow> (bool \<times> os) outcome" where
  "WSASetEvent hEvent s = SetEvent hEvent s"

definition WSAResetEvent :: "addr \<Rightarrow> os \<Rightarrow> (bool \<times> os) outcome" where
  "WSAResetEvent hEvent s = Done (True, s)"

definition WSACloseEvent :: "nat \<Rightarrow> surroundings \<Rightarrow> addr \<Rightarrow> os \<Rightarrow> (bool \<times> os) outcome" where
  "WSACloseEvent tid w hEvent s =
     and_then (CloseHandle tid w hEvent s) (\<lambda>(status, s). Done (status, if \<not> status then SetLastError 6 s else s))"

section \<open>Sockets\<close>

text \<open>
  A process with the status flags of its descriptors. A socket is a 64-bit number; every function uses its low 32 bits
  as a descriptor.
\<close>

record net =
  proc :: os
  fd_flags :: "int \<rightharpoonup> u32"

abbreviation (input) SOCKET_ERROR :: int where "SOCKET_ERROR \<equiv> - 1"
abbreviation (input) INVALID_SOCKET :: u64 where "INVALID_SOCKET \<equiv> - 1"
abbreviation (input) FIONBIO :: int where "FIONBIO \<equiv> 0x5421"
abbreviation (input) O_NONBLOCK :: u32 where "O_NONBLOCK \<equiv> 0x800"
abbreviation (input) MSG_NOSIGNAL :: u32 where "MSG_NOSIGNAL \<equiv> 0x4000"
abbreviation (input) FD_READ :: LONG where "FD_READ \<equiv> 1"
abbreviation (input) FD_WRITE :: LONG where "FD_WRITE \<equiv> 2"

definition socket_fd :: "u64 \<Rightarrow> int" where
  "socket_fd s = sint (ucast s :: 32 word)"

definition sock_ioctlsocket :: "u64 \<Rightarrow> int \<Rightarrow> u64 option \<Rightarrow> net \<Rightarrow> int \<times> net" where
  "sock_ioctlsocket s cmd argp n =
     (let fd = socket_fd s in
      if cmd = FIONBIO then
        (case argp of
           None \<Rightarrow> (SOCKET_ERROR, n)
         | Some arg \<Rightarrow>
             (case fd_flags n fd of
                None \<Rightarrow> (SOCKET_ERROR, n)
              | Some flags \<Rightarrow>
                  (0, n\<lparr>fd_flags := (fd_flags n)(fd \<mapsto> if arg \<noteq> 0 then flags OR O_NONBLOCK else flags AND NOT O_NONBLOCK)\<rparr>)))
      else (0, n))"

definition select_mode :: "LONG \<Rightarrow> ULONG" where
  "select_mode lNetworkEvents =
     (if lNetworkEvents AND FD_READ \<noteq> 0 then UZI_FD_READ else 0) OR (if lNetworkEvents AND FD_WRITE \<noteq> 0 then UZI_FD_WRITE else 0)"

definition WSAEventSelect :: "u64 \<Rightarrow> addr \<Rightarrow> LONG \<Rightarrow> net \<Rightarrow> (int \<times> net) outcome" where
  "WSAEventSelect s hEventObject lNetworkEvents n =
     (let arg = 1; (status, n) = sock_ioctlsocket s FIONBIO (Some arg) n in
      if status \<noteq> 0 then Done (SOCKET_ERROR, n)
      else if arg = 0 then Done (0, n)
      else and_then (SetEventFileDescriptor hEventObject (socket_fd s) (select_mode lNetworkEvents) (proc n)) (\<lambda>(status, p).
        if status < 0 then Done (SOCKET_ERROR, n\<lparr>proc := p\<rparr>) else Done (0, n\<lparr>proc := p\<rparr>)))"

text \<open>The system calls take a descriptor; those that store a length return it with the status.\<close>

definition sock_accept :: "(int \<Rightarrow> u32 \<Rightarrow> int \<times> u32) \<Rightarrow> u64 \<Rightarrow> u32 \<Rightarrow> u64 \<times> u32" where
  "sock_accept accept s addrlen = (let (status, s_addrlen) = accept (socket_fd s) addrlen in (word_of_int status, s_addrlen))"

definition sock_bind :: "(int \<Rightarrow> 'a \<Rightarrow> u32 \<Rightarrow> int) \<Rightarrow> u64 \<Rightarrow> 'a \<Rightarrow> u32 \<Rightarrow> int" where
  "sock_bind bind_call s addr namelen = (let status = bind_call (socket_fd s) addr namelen in if status < 0 then SOCKET_ERROR else status)"

definition sock_closesocket :: "(int \<Rightarrow> int) \<Rightarrow> u64 \<Rightarrow> int" where
  "sock_closesocket close s = close (socket_fd s)"

definition sock_connect :: "(int \<Rightarrow> 'a \<Rightarrow> u32 \<Rightarrow> int) \<Rightarrow> u64 \<Rightarrow> 'a \<Rightarrow> u32 \<Rightarrow> int" where
  "sock_connect connect s name namelen = (let status = connect (socket_fd s) name namelen in if status < 0 then SOCKET_ERROR else status)"

definition sock_getpeername :: "(int \<Rightarrow> u32 \<Rightarrow> int \<times> 'a \<times> u32) \<Rightarrow> u64 \<Rightarrow> u32 \<Rightarrow> int \<times> 'a \<times> u32" where
  "sock_getpeername getpeername s namelen = getpeername (socket_fd s) namelen"

definition sock_getsockname :: "(int \<Rightarrow> u32 \<Rightarrow> int \<times> 'a \<times> u32) \<Rightarrow> u64 \<Rightarrow> u32 \<Rightarrow> int \<times> 'a \<times> u32" where
  "sock_getsockname getsockname s namelen = getsockname (socket_fd s) namelen"

definition sock_getsockopt :: "(int \<Rightarrow> int \<Rightarrow> int \<Rightarrow> u32 \<Rightarrow> int \<times> 'a \<times> u32) \<Rightarrow> u64 \<Rightarrow> int \<Rightarrow> int \<Rightarrow> u32 \<Rightarrow> int \<times> 'a \<times> u32" where
  "sock_getsockopt getsockopt s level optname optlen = getsockopt (socket_fd s) level optname optlen"

definition sock_listen :: "(int \<Rightarrow> int \<Rightarrow> int) \<Rightarrow> u64 \<Rightarrow> int \<Rightarrow> int" where
  "sock_listen listen s backlog = listen (socket_fd s) backlog"

text \<open>The byte counts are 64-bit signed numbers in the system and are cut to an \<^verbatim>\<open>int\<close>; the length is sign-extended to 64 bits.\<close>

definition sock_recv :: "(int \<Rightarrow> u64 \<Rightarrow> u32 \<Rightarrow> u64 \<times> u8 list) \<Rightarrow> u64 \<Rightarrow> u32 \<Rightarrow> u32 \<Rightarrow> int \<times> u8 list" where
  "sock_recv recv s len flags = (let (status, buf) = recv (socket_fd s) (scast len) flags in (sint (ucast status :: 32 word), buf))"

definition sock_send :: "(int \<Rightarrow> u8 list \<Rightarrow> u64 \<Rightarrow> u32 \<Rightarrow> u64) \<Rightarrow> u64 \<Rightarrow> u8 list \<Rightarrow> u32 \<Rightarrow> u32 \<Rightarrow> int" where
  "sock_send send s buf len flags =
     (let flags = flags OR MSG_NOSIGNAL; status = send (socket_fd s) buf (scast len) flags in sint (ucast status :: 32 word))"

definition sock_sendto :: "(int \<Rightarrow> u8 list \<Rightarrow> u64 \<Rightarrow> u32 \<Rightarrow> 'a \<Rightarrow> u32 \<Rightarrow> u64) \<Rightarrow> u64 \<Rightarrow> u8 list \<Rightarrow> u32 \<Rightarrow> u32 \<Rightarrow> 'a \<Rightarrow> u32 \<Rightarrow> int" where
  "sock_sendto sendto s buf len flags to_addr tolen =
     (let status = sendto (socket_fd s) buf (scast len) flags to_addr tolen in sint (ucast status :: 32 word))"

text \<open>\<open>select k\<close> is the status and \<^verbatim>\<open>errno\<close> of the k-th call.\<close>

partial_function (option) select_loop :: "(nat \<Rightarrow> int \<times> int) \<Rightarrow> nat \<Rightarrow> int option" where
  [code]: "select_loop select k = (let (status, e) = select k in if status < 0 \<and> e = EINTR then select_loop select (Suc k) else Some status)"

definition sock_select :: "(nat \<Rightarrow> int \<times> int) \<Rightarrow> int option" where
  "sock_select select = select_loop select 0"

definition sock_setsockopt :: "(int \<Rightarrow> int \<Rightarrow> int \<Rightarrow> 'a \<Rightarrow> u32 \<Rightarrow> int) \<Rightarrow> u64 \<Rightarrow> int \<Rightarrow> int \<Rightarrow> 'a \<Rightarrow> u32 \<Rightarrow> int" where
  "sock_setsockopt setsockopt s level optname optval optlen = setsockopt (socket_fd s) level optname optval optlen"

definition sock_shutdown :: "(int \<Rightarrow> int \<Rightarrow> int) \<Rightarrow> u64 \<Rightarrow> int \<Rightarrow> int" where
  "sock_shutdown shutdown s how =
     (let s_how = (if how = 0 then 0 else if how = 1 then 1 else if how = 2 then 2 else - 1)
      in if s_how < 0 then SOCKET_ERROR else shutdown (socket_fd s) s_how)"

definition sock_socket :: "(int \<Rightarrow> int \<Rightarrow> int \<Rightarrow> int) \<Rightarrow> int \<Rightarrow> int \<Rightarrow> int \<Rightarrow> u64" where
  "sock_socket socket af type protocol =
     (let fd = socket af type protocol in if fd < 1 then INVALID_SOCKET else word_of_int fd)"

definition sock_recvfrom :: "(int \<Rightarrow> u64 \<Rightarrow> u32 \<Rightarrow> u32 \<Rightarrow> u64 \<times> u8 list \<times> 'a \<times> u32) \<Rightarrow> u64 \<Rightarrow> u32 \<Rightarrow> u32 \<Rightarrow> u32 \<Rightarrow> int \<times> u8 list \<times> 'a \<times> u32" where
  "sock_recvfrom recvfrom s len flags fromlen =
     (let (status, buf, from_addr, s_fromlen) = recvfrom (socket_fd s) (scast len) flags fromlen
      in (sint (ucast status :: 32 word), buf, from_addr, s_fromlen))"

text \<open>
  Byte order and addresses: an \<^verbatim>\<open>unsigned long\<close> has 64 bits and the functions of the C library 32, so the argument is cut and the
  result extended with zeros.
\<close>

definition sock_htonl :: "(u32 \<Rightarrow> u32) \<Rightarrow> u64 \<Rightarrow> u64" where
  "sock_htonl htonl hostlong = ucast (htonl (ucast hostlong))"

definition sock_htons :: "(u16 \<Rightarrow> u16) \<Rightarrow> u16 \<Rightarrow> u16" where
  "sock_htons htons hostshort = htons hostshort"

definition sock_ntohl :: "(u32 \<Rightarrow> u32) \<Rightarrow> u64 \<Rightarrow> u64" where
  "sock_ntohl ntohl netlong = ucast (ntohl (ucast netlong))"

definition sock_ntohs :: "(u16 \<Rightarrow> u16) \<Rightarrow> u16 \<Rightarrow> u16" where
  "sock_ntohs ntohs netshort = ntohs netshort"

definition sock_inet_addr :: "(string \<Rightarrow> u32) \<Rightarrow> string \<Rightarrow> u64" where
  "sock_inet_addr inet_addr cp = ucast (inet_addr cp)"

definition sock_inet_ntoa :: "(u32 \<Rightarrow> string) \<Rightarrow> u32 \<Rightarrow> string" where
  "sock_inet_ntoa inet_ntoa a = inet_ntoa a"

text \<open>Name services: the result is a pointer, 0 when there is no entry. A length is sign-extended for \<^verbatim>\<open>gethostname\<close>.\<close>

definition sock_gethostbyaddr :: "('a \<Rightarrow> u32 \<Rightarrow> int \<Rightarrow> addr) \<Rightarrow> 'a \<Rightarrow> u32 \<Rightarrow> int \<Rightarrow> addr" where
  "sock_gethostbyaddr gethostbyaddr a len type = gethostbyaddr a len type"

definition sock_gethostbyname :: "(string \<Rightarrow> addr) \<Rightarrow> string \<Rightarrow> addr" where
  "sock_gethostbyname gethostbyname name = gethostbyname name"

definition sock_gethostname :: "(u64 \<Rightarrow> int \<times> string) \<Rightarrow> u32 \<Rightarrow> int \<times> string" where
  "sock_gethostname gethostname namelen = gethostname (scast namelen)"

definition sock_getservbyport :: "(int \<Rightarrow> string \<Rightarrow> addr) \<Rightarrow> int \<Rightarrow> string \<Rightarrow> addr" where
  "sock_getservbyport getservbyport port proto = getservbyport port proto"

definition sock_getservbyname :: "(string \<Rightarrow> string \<Rightarrow> addr) \<Rightarrow> string \<Rightarrow> string \<Rightarrow> addr" where
  "sock_getservbyname getservbyname name proto = getservbyname name proto"

definition sock_getprotobynumber :: "(int \<Rightarrow> addr) \<Rightarrow> int \<Rightarrow> addr" where
  "sock_getprotobynumber getprotobynumber number = getprotobynumber number"

definition sock_getprotobyname :: "(string \<Rightarrow> addr) \<Rightarrow> string \<Rightarrow> addr" where
  "sock_getprotobyname getprotobyname name = getprotobyname name"

section \<open>Lemmas\<close>

lemma set_get_cases: "list_all (\<lambda>(w, e). map_of get_cases e = Some w) set_cases"
  by (simp add: set_cases_def get_cases_def)

lemma get_set_cases: "list_all (\<lambda>(e, w). e \<noteq> EPROTO \<longrightarrow> map_of set_cases w = Some e) get_cases"
  by (simp add: set_cases_def get_cases_def)

lemma WSAGet_Set: "WSAGetLastError (WSASetLastError e errno0) = (if e \<in> fst ` set set_cases then e else WSAGetLastError errno0)"
proof (cases "map_of set_cases e")
  case None
  then show ?thesis using map_of_eq_None_iff [of set_cases e] by (simp add: WSASetLastError_def)
next
  case (Some v)
  then have "map_of get_cases v = Some e" using set_get_cases map_of_SomeD [OF Some] by (fastforce simp: list_all_iff)
  then show ?thesis using map_of_SomeD [OF Some] Some by (force simp: WSASetLastError_def WSAGetLastError_def image_iff)
qed

text \<open>The codes of src/include/uzi/error.h except \<^verbatim>\<open>WSAEPROCLIM\<close>.\<close>

definition wsa_code :: "int \<Rightarrow> bool" where
  "wsa_code e \<longleftrightarrow> e \<in> {10004, 10009, 10013, 10014, 10022, 10024} \<or> 10035 \<le> e \<and> e \<le> 10071 \<and> e \<noteq> 10067"

lemma set_cases_codes: "map fst set_cases = [10004, 10009, 10013, 10014, 10022, 10024] @ [10035..10066] @ [10068..10071]"
  by (simp add: set_cases_def upto_rec_numeral)

lemma wsa_code_cases: "wsa_code e \<longleftrightarrow> e \<in> fst ` set set_cases"
proof -
  have "fst ` set set_cases = {10004, 10009, 10013, 10014, 10022, 10024} \<union> {10035..10066} \<union> {10068..10071}"
    unfolding set_map [symmetric] set_cases_codes by (simp only: set_append set_upto list.set Un_assoc)
  then show ?thesis by (auto simp: wsa_code_def)
qed

lemma select_loop_returns:
  "(\<And>j. k \<le> j \<Longrightarrow> j < k + n \<Longrightarrow> fst (select j) < 0 \<and> snd (select j) = EINTR) \<Longrightarrow>
   \<not> (fst (select (k + n)) < 0 \<and> snd (select (k + n)) = EINTR) \<Longrightarrow> select_loop select k = Some (fst (select (k + n)))"
proof (induction n arbitrary: k)
  case 0
  then show ?case by (subst select_loop.simps) (auto simp: case_prod_beta)
next
  case (Suc n)
  then have "select_loop select (Suc k) = Some (fst (select (Suc k + n)))" by (intro Suc.IH) auto
  then show ?case using Suc.prems(1) [of k] by (subst select_loop.simps) (simp add: case_prod_beta)
qed

lemma poll_mode:
  "handle_mode_to_pollevent (select_mode ev) = flag (ev AND 1 \<noteq> 0) POLLIN OR flag (ev AND 2 \<noteq> 0) POLLOUT"
  by (auto simp: handle_mode_to_pollevent_def select_mode_def flag_def)

lemma revents_foreign:
  "0 \<le> fd \<Longrightarrow> fds s fd = Some (Foreign r w) \<Longrightarrow>
   revents s (fd, flag a POLLIN OR flag b POLLOUT) = flag (r \<and> a) POLLIN OR flag (w \<and> b) POLLOUT"
  by (cases a; cases b; cases r; cases w) (simp_all add: revents_def readiness_def flag_def)

lemma wait_attached:
  assumes "handle_to p h (EventObject e)" "Mode e = select_mode ev" "pipe_fd0 e = fd" "0 \<le> fd" "fds p fd = Some (Foreign r w)"
  shows "WaitForSingleObject tid sur h 0 p = Done (if r \<and> ev AND 1 \<noteq> 0 \<or> w \<and> ev AND 2 \<noteq> 0 then WAIT_OBJECT_0 else WAIT_TIMEOUT, p)"
proof -
  let ?p = "[(fd, handle_mode_to_pollevent (Mode e))]"
  have "revents p (fd, handle_mode_to_pollevent (Mode e)) = flag (r \<and> ev AND 1 \<noteq> 0) POLLIN OR flag (w \<and> ev AND 2 \<noteq> 0) POLLOUT"
    using assms by (simp only: poll_mode revents_foreign)
  then have "poll_count p ?p = (if r \<and> ev AND 1 \<noteq> 0 \<or> w \<and> ev AND 2 \<noteq> 0 then 1 else 0)" by (auto simp: flag_def)
  moreover have "winpr_Handle_getFd h p = Done (fd, p)" using getFd_handle [OF assms(1)] assms(3) by simp
  ultimately show ?thesis
    using assms(1,4) by (auto simp: WaitForSingleObject_def GetInfo_handle waitOnFd_def sys_poll_zero winpr_Handle_cleanup_def)
qed

section \<open>Properties\<close>

text \<open>
  Reading the last error after setting it. \<open>WSAGetLastError\<close> returns the code that \<open>WSASetLastError\<close> was given, for each of
  the codes of src/include/uzi/error.h except \<^verbatim>\<open>WSAEPROCLIM\<close>; any other code leaves the last error as it was.
\<close>

theorem wsa_last_error_roundtrip:
  "WSAGetLastError (WSASetLastError e errno0) = (if wsa_code e then e else WSAGetLastError errno0)"
  by (simp add: WSAGet_Set wsa_code_cases)


text \<open>A process with one event, on descriptor 3, and one socket, on descriptor 5, with data to read.\<close>

definition net_sample :: net where
  "net_sample = \<lparr>proc = \<lparr>fds = [3 \<mapsto> Eventfd 0, 5 \<mapsto> Foreign True False], pipes = [],
      objects = [100 \<mapsto> EventObject \<lparr>Mode = UZI_FD_READ, pipe_fd0 = 3, pipe_fd1 = - 1, bAttached = False, bManualReset = True\<rparr>],
      g_LastError = 0, thread_list = None, handler_installed = False\<rparr>, fd_flags = [3 \<mapsto> 0x802, 5 \<mapsto> 2]\<rparr>"


text \<open>
  Interrupted selects are repeated: when the first \<open>n\<close> calls are interrupted and the next one is not, the wrapper returns, with
  the status of that call.
\<close>

theorem select_retries:
  assumes "\<forall>j < n. fst (select j) < 0 \<and> snd (select j) = EINTR" "\<not> (fst (select n) < 0 \<and> snd (select n) = EINTR)"
  shows "sock_select select = Some (fst (select n))"
  using select_loop_returns [of 0 n select] assms by (simp add: sock_select_def)

theorem select_retries_witness:
  "sock_select (\<lambda>k. if k < 2 then (- 1, EINTR) else (1, 0)) = Some 1"
  using select_retries [of 2 "\<lambda>k. if k < 2 then (- 1, EINTR) else (1, 0)"] by simp

end
