(* ===== verification/Files.thy ===== *)
theory Files
  imports Uzi_Prelude
begin

text \<open>
  src/libuzi/file.c and src/libuzi/library.c outside Windows: taking paths apart, loading and saving files, creating paths and changing modes.
  A C string is a \<open>string\<close>, a pointer into it an offset, the null pointer \<open>None\<close>. The calls of the system that the
  functions make are arguments.
\<close>

unbundle bit_operations_syntax

section \<open>Strings\<close>

fun strrchr :: "string \<Rightarrow> char \<Rightarrow> nat option" where
  "strrchr [] c = None"
| "strrchr (x # xs) c = (case strrchr xs c of Some i \<Rightarrow> Some (Suc i) | None \<Rightarrow> if x = c then Some 0 else None)"

text \<open>The first occurrence at or after an offset.\<close>

definition strchr :: "string \<Rightarrow> nat \<Rightarrow> char \<Rightarrow> nat option" where
  "strchr s p c = (let n = length (takeWhile (\<lambda>x. x \<noteq> c) (drop p s)) in if p + n < length s then Some (p + n) else None)"

abbreviation (input) BACKSLASH :: char where "BACKSLASH \<equiv> CHR 0x5C"
abbreviation (input) UZI_PATH_SEPARATOR_CHR :: char where "UZI_PATH_SEPARATOR_CHR \<equiv> CHR ''/''"

section \<open>Paths\<close>

definition UziFile_Base :: "string option \<Rightarrow> nat option" where
  "UziFile_Base filename =
     (case filename of
        None \<Rightarrow> None
      | Some s \<Rightarrow>
          let separator = strrchr s BACKSLASH;
              separator = (if separator = None then strrchr s CHR ''/'' else separator)
          in case separator of
               None \<Rightarrow> Some 0
             | Some i \<Rightarrow> if length s - i > 1 then Some (i + 1) else Some 0)"

definition UziFile_Dir :: "bool \<Rightarrow> string option \<Rightarrow> string option" where
  "UziFile_Dir malloc_ok filename =
     (case UziFile_Base filename of
        None \<Rightarrow> None
      | Some base \<Rightarrow>
          let end' = int base - 1 in
          if end' < 0 then None
          else if \<not> malloc_ok then None
          else Some (take (nat end') (the filename)))"

definition UziFile_Extension :: "string option \<Rightarrow> bool \<Rightarrow> nat option" where
  "UziFile_Extension filename dot =
     (case filename of
        None \<Rightarrow> None
      | Some s \<Rightarrow>
          (case strrchr s CHR ''.'' of
             None \<Rightarrow> None
           | Some p \<Rightarrow> if dot then Some p else if length s - p > 1 then Some (p + 1) else None))"

section \<open>Streams\<close>

text \<open>The offset is reinterpreted as a signed 64-bit number.\<close>

definition UziFile_Seek :: "('f \<Rightarrow> int \<Rightarrow> int \<Rightarrow> int \<times> 'f) \<Rightarrow> 'f \<Rightarrow> u64 \<Rightarrow> int \<Rightarrow> int \<times> 'f" where
  "UziFile_Seek fseeko fp offset origin = fseeko fp (sint offset) origin"

definition UziFile_Tell :: "('f \<Rightarrow> int) \<Rightarrow> 'f \<Rightarrow> u64" where
  "UziFile_Tell ftello fp = word_of_int (ftello fp)"

definition UziFile_Open :: "(string \<Rightarrow> string \<Rightarrow> 'f option) \<Rightarrow> string \<Rightarrow> string \<Rightarrow> 'f option" where
  "UziFile_Open fopen path mode = fopen path mode"

section \<open>Contents\<close>

text \<open>The files that can be opened, with their bytes.\<close>

type_synonym fileset = "string \<rightharpoonup> u8 list"

definition UziFile_Size :: "fileset \<Rightarrow> string \<Rightarrow> u64" where
  "UziFile_Size fs filename = (case fs filename of None \<Rightarrow> 0 | Some content \<Rightarrow> word_of_nat (length content))"

text \<open>
  \<open>block\<close> is the uninitialised memory that \<^verbatim>\<open>malloc\<close> returns, \<open>None\<close> when it fails; \<open>got\<close> is how many bytes \<^verbatim>\<open>fread\<close> delivers.
  The result is the data and the value of \<^verbatim>\<open>*size\<close>, \<open>None\<close> when it is not written.
\<close>

definition UziFile_Load ::
  "fileset \<Rightarrow> (nat \<Rightarrow> u8 list option) \<Rightarrow> (nat \<Rightarrow> nat) \<Rightarrow> string option \<Rightarrow> bool \<Rightarrow> u32 \<Rightarrow> u8 list option \<times> nat option" where
  "UziFile_Load fs malloc got filename size_null padding =
     (case filename of
        None \<Rightarrow> (None, None)
      | Some name \<Rightarrow>
          if size_null then (None, None)
          else case fs name of
            None \<Rightarrow> (None, Some 0)
          | Some content \<Rightarrow>
              let size = length content in
              (case malloc (size + unat padding) of
                 None \<Rightarrow> (None, Some size)
               | Some block \<Rightarrow>
                   let data = overwrite size (replicate (unat padding) 0) block;
                       n = got size;
                       data = overwrite 0 (take n content) data;
                       (data, size) = (if n \<noteq> size then (None, 0) else (Some data, size));
                       size = (if padding \<noteq> 0 then size + unat padding else size)
                   in (data, Some size)))"

text \<open>\<open>can_open\<close>: whether \<^verbatim>\<open>fopen\<close> with mode \<^verbatim>\<open>wb\<close> succeeds; \<open>written\<close>: how many bytes \<^verbatim>\<open>fwrite\<close> takes.\<close>

definition UziFile_Save ::
  "(string \<Rightarrow> bool) \<Rightarrow> (nat \<Rightarrow> nat) \<Rightarrow> string option \<Rightarrow> u8 list option \<Rightarrow> nat \<Rightarrow> fileset \<Rightarrow> bool \<times> fileset" where
  "UziFile_Save can_open written filename data sz fs =
     (case (filename, data) of
        (Some name, Some bytes) \<Rightarrow>
          if \<not> can_open name then (False, fs)
          else let n = written sz in (n = sz, fs(name \<mapsto> take n (take sz bytes)))
      | _ \<Rightarrow> (False, fs))"

section \<open>Files and directories\<close>

text \<open>\<open>stat\<close> returns the mode of an existing file.\<close>

abbreviation (input) S_IWUSR :: u32 where "S_IWUSR \<equiv> 0x80"

definition UziFile_Move :: "(string \<Rightarrow> 'fs \<Rightarrow> u32 option) \<Rightarrow> (string \<Rightarrow> string \<Rightarrow> 'fs \<Rightarrow> int \<times> 'fs) \<Rightarrow> string \<Rightarrow> string \<Rightarrow> bool \<Rightarrow> 'fs \<Rightarrow> bool \<times> 'fs" where
  "UziFile_Move stat rename src dst replace s =
     (let st = stat dst s in
      if \<not> replace \<and> st \<noteq> None then (False, s)
      else if replace \<and> st \<noteq> None \<and> the st AND S_IWUSR = 0 then (False, s)
      else let (status, s) = rename src dst s in (status = 0, s))"

definition UziFile_Exists :: "(string \<Rightarrow> 'fs \<Rightarrow> u32 option) \<Rightarrow> string \<Rightarrow> 'fs \<Rightarrow> bool" where
  "UziFile_Exists stat filename s = (stat filename s \<noteq> None)"

definition UziFile_Delete :: "(string \<Rightarrow> 'fs \<Rightarrow> int \<times> 'fs) \<Rightarrow> string \<Rightarrow> 'fs \<Rightarrow> bool \<times> 'fs" where
  "UziFile_Delete unlink filename s = (let (status, s) = unlink filename s in (status \<noteq> - 1, s))"

definition UziMkDir :: "(string \<Rightarrow> u32 \<Rightarrow> 'fs \<Rightarrow> int \<times> 'fs) \<Rightarrow> string \<Rightarrow> u32 \<Rightarrow> 'fs \<Rightarrow> int \<times> 'fs" where
  "UziMkDir mkdir path mode s = mkdir path (if mode = 0 then 0x100 OR 0x80 OR 0x40 else mode) s"

definition UziRmDir :: "(string \<Rightarrow> 'fs \<Rightarrow> int \<times> 'fs) \<Rightarrow> string \<Rightarrow> 'fs \<Rightarrow> int \<times> 'fs" where
  "UziRmDir rmdir path s = rmdir path s"

lemma strchr_bounds: "strchr s p c = Some q \<Longrightarrow> p \<le> q \<and> q < length s"
  by (auto simp: strchr_def Let_def split: if_splits)

text \<open>The loop of \<open>UziMkPath\<close>: the string is cut at the separator \<open>q\<close> for the call, and restored after it.\<close>

function mkpath_loop :: "(string \<Rightarrow> u32 \<Rightarrow> 'fs \<Rightarrow> int \<times> 'fs) \<Rightarrow> string \<Rightarrow> u32 \<Rightarrow> nat \<Rightarrow> 'fs \<Rightarrow> int \<times> 'fs" where
  "mkpath_loop mkdir path mode p s =
     (case strchr path p UZI_PATH_SEPARATOR_CHR of
        None \<Rightarrow> UziMkDir mkdir path mode s
      | Some q \<Rightarrow> let (status, s) = UziMkDir mkdir (take q path) mode s in mkpath_loop mkdir path mode (q + 1) s)"
  by pat_completeness auto
termination
  by (relation "measure (\<lambda>(mkdir, path, mode, p, s). length path - p)") (auto dest: strchr_bounds)

declare mkpath_loop.simps [simp del]

definition UziMkPath :: "(string \<Rightarrow> u32 \<Rightarrow> 'fs \<Rightarrow> int \<times> 'fs) \<Rightarrow> string \<Rightarrow> u32 \<Rightarrow> 'fs \<Rightarrow> int \<times> 'fs" where
  "UziMkPath mkdir path mode s = mkpath_loop mkdir path mode 0 s"

text \<open>The mode given by hexadecimal digits, as the octal mode of the system.\<close>

definition chmod_flags :: "u32 \<Rightarrow> u32" where
  "chmod_flags mode =
     (let fl = 0;
          fl = fl OR (if mode AND 0x4000 \<noteq> 0 then 0x800 else 0);
          fl = fl OR (if mode AND 0x2000 \<noteq> 0 then 0x400 else 0);
          fl = fl OR (if mode AND 0x1000 \<noteq> 0 then 0x200 else 0);
          fl = fl OR (if mode AND 0x0400 \<noteq> 0 then 0x100 else 0);
          fl = fl OR (if mode AND 0x0200 \<noteq> 0 then 0x080 else 0);
          fl = fl OR (if mode AND 0x0100 \<noteq> 0 then 0x040 else 0);
          fl = fl OR (if mode AND 0x0040 \<noteq> 0 then 0x020 else 0);
          fl = fl OR (if mode AND 0x0020 \<noteq> 0 then 0x010 else 0);
          fl = fl OR (if mode AND 0x0010 \<noteq> 0 then 0x008 else 0);
          fl = fl OR (if mode AND 0x0004 \<noteq> 0 then 0x004 else 0);
          fl = fl OR (if mode AND 0x0002 \<noteq> 0 then 0x002 else 0);
          fl = fl OR (if mode AND 0x0001 \<noteq> 0 then 0x001 else 0)
      in fl)"

definition UziChMod :: "(string \<Rightarrow> u32 \<Rightarrow> 'fs \<Rightarrow> int \<times> 'fs) \<Rightarrow> string \<Rightarrow> u32 \<Rightarrow> 'fs \<Rightarrow> int \<times> 'fs" where
  "UziChMod chmod filename mode s = chmod filename (chmod_flags mode) s"

section \<open>Dynamic libraries\<close>

text \<open>src/libuzi/library.c: the flags are \<^verbatim>\<open>RTLD_LOCAL\<close> and \<^verbatim>\<open>RTLD_LAZY\<close>.\<close>

definition LoadLibraryA :: "(string \<Rightarrow> int \<Rightarrow> addr) \<Rightarrow> string \<Rightarrow> addr" where
  "LoadLibraryA dlopen lpLibFileName = (let library = dlopen lpLibFileName 1 in if library = NULL then NULL else library)"

definition GetProcAddress :: "(addr \<Rightarrow> string \<Rightarrow> addr) \<Rightarrow> addr \<Rightarrow> string \<Rightarrow> addr" where
  "GetProcAddress dlsym hModule lpProcName = dlsym hModule lpProcName"

definition FreeLibrary :: "(addr \<Rightarrow> int) \<Rightarrow> addr \<Rightarrow> bool" where
  "FreeLibrary dlclose hLibModule = (let status = dlclose hLibModule in if status \<noteq> 0 then False else True)"

section \<open>Lemmas\<close>

lemma strrchr_None: "strrchr s c = None \<longleftrightarrow> c \<notin> set s"
  by (induction s) (auto split: option.splits)

lemma strrchr_split: "c \<notin> set b \<Longrightarrow> strrchr (a @ c # b) c = Some (length a)"
  by (induction a) (auto simp: strrchr_None split: option.split)

lemma strchr_none: "c \<notin> set b \<Longrightarrow> strchr (a @ b) (length a) c = None"
proof -
  assume "c \<notin> set b"
  then have "length (takeWhile (\<lambda>x. x \<noteq> c) b) = length b" by (induction b) auto
  then show ?thesis by (simp add: strchr_def)
qed

lemma strchr_some: "c \<notin> set b \<Longrightarrow> strchr (a @ b @ c # r) (length a) c = Some (length a + length b)"
proof -
  assume "c \<notin> set b"
  then have "takeWhile (\<lambda>x. x \<noteq> c) (b @ c # r) = b" by (induction b) auto
  then show ?thesis by (simp add: strchr_def)
qed

text \<open>A path from its components.\<close>

fun join :: "string list \<Rightarrow> string" where
  "join [] = []"
| "join [x] = x"
| "join (x # xs) = x @ CHR ''/'' # join xs"

lemma join_append: "xs \<noteq> [] \<Longrightarrow> ys \<noteq> [] \<Longrightarrow> join (xs @ ys) = join xs @ CHR ''/'' # join ys"
proof (induction xs rule: join.induct)
  case (2 x)
  then show ?case by (cases ys) auto
next
  case (3 x y zs)
  then show ?case by simp
qed simp

text \<open>Where the loop stands after the components \<open>done\<close>.\<close>

definition cursor :: "string list \<Rightarrow> nat" where
  "cursor ds = (if ds = [] then 0 else length (join ds) + 1)"

lemma cursor_split:
  assumes "rest \<noteq> []"
  shows "\<exists>pre. length pre = cursor ds \<and> join (ds @ rest) = pre @ join rest"
proof (cases "ds = []")
  case True
  then show ?thesis by (simp add: cursor_def)
next
  case False
  then show ?thesis using join_append [OF False assms] by (intro exI [of _ "join ds @ [CHR ''/'']"]) (simp add: cursor_def)
qed

lemma mkpath_last:
  assumes "CHR ''/'' \<notin> set x"
  shows "mkpath_loop mkdir (join (ds @ [x])) mode (cursor ds) s = UziMkDir mkdir (join (ds @ [x])) mode s"
proof -
  obtain pre where "length pre = cursor ds" "join (ds @ [x]) = pre @ x" using cursor_split [of "[x]" ds] by auto
  then show ?thesis using strchr_none [OF assms, of pre] by (subst mkpath_loop.simps) simp
qed

lemma mkpath_next:
  assumes "CHR ''/'' \<notin> set x"
  shows "mkpath_loop mkdir (join (ds @ x # y # ys)) mode (cursor ds) s =
    mkpath_loop mkdir (join (ds @ x # y # ys)) mode (cursor (ds @ [x])) (snd (UziMkDir mkdir (join (ds @ [x])) mode s))"
proof -
  obtain pre where pre: "length pre = cursor ds" "join (ds @ x # y # ys) = pre @ x @ CHR ''/'' # join (y # ys)"
    using cursor_split [of "x # y # ys" ds] by auto
  have "join (ds @ x # y # ys) = join (ds @ [x]) @ CHR ''/'' # join (y # ys)" using join_append [of "ds @ [x]" "y # ys"] by simp
  then have px: "join (ds @ [x]) = pre @ x" using pre(2) by (metis append.assoc append_same_eq)
  then have "cursor (ds @ [x]) = length pre + length x + 1" by (simp add: cursor_def)
  then show ?thesis
    using strchr_some [OF assms, of pre "join (y # ys)"] pre px by (subst mkpath_loop.simps) (simp add: case_prod_beta)
qed

lemma mkpath_creates:
  assumes keep: "\<And>p q m s. isdir p s \<Longrightarrow> isdir p (snd (mkdir q m s))"
    and top: "\<And>n m s. CHR ''/'' \<notin> set n \<Longrightarrow> isdir n (snd (mkdir n m s))"
    and sub: "\<And>d n m s. isdir d s \<Longrightarrow> CHR ''/'' \<notin> set n \<Longrightarrow> isdir (d @ CHR ''/'' # n) (snd (mkdir (d @ CHR ''/'' # n) m s))"
  shows "rest \<noteq> [] \<Longrightarrow> (\<forall>c \<in> set rest. CHR ''/'' \<notin> set c) \<Longrightarrow> (ds \<noteq> [] \<Longrightarrow> isdir (join ds) s) \<Longrightarrow>
    isdir (join (ds @ rest)) (snd (mkpath_loop mkdir (join (ds @ rest)) mode (cursor ds) s))"
proof (induction rest arbitrary: ds s)
  case (Cons x rest)
  have made: "isdir (join (ds @ [x])) (snd (UziMkDir mkdir (join (ds @ [x])) mode s))"
    using Cons.prems top sub join_append [of ds "[x]"] by (cases "ds = []") (simp_all add: UziMkDir_def)
  show ?case
  proof (cases rest)
    case Nil
    then show ?thesis using made mkpath_last [of x mkdir ds mode s] Cons.prems(2) by simp
  next
    case (Cons y ys)
    then show ?thesis using Cons.IH [of "ds @ [x]"] made mkpath_next [of x mkdir ds y ys mode s] Cons.prems(2) by simp
  qed
qed simp

lemma bit_flag: "j < 32 \<Longrightarrow> bit (if (mode :: u32) AND 2 ^ k \<noteq> 0 then 2 ^ j else 0 :: u32) i \<longleftrightarrow> bit mode k \<and> i = j"
  by (auto simp: and_exp_eq_0_iff_not_bit bit_exp_iff)

lemma chmod_flags_powers:
  "chmod_flags mode =
     (if mode AND 2 ^ 14 \<noteq> 0 then 2 ^ 11 else 0) OR (if mode AND 2 ^ 13 \<noteq> 0 then 2 ^ 10 else 0) OR
     (if mode AND 2 ^ 12 \<noteq> 0 then 2 ^ 9 else 0) OR (if mode AND 2 ^ 10 \<noteq> 0 then 2 ^ 8 else 0) OR
     (if mode AND 2 ^ 9 \<noteq> 0 then 2 ^ 7 else 0) OR (if mode AND 2 ^ 8 \<noteq> 0 then 2 ^ 6 else 0) OR
     (if mode AND 2 ^ 6 \<noteq> 0 then 2 ^ 5 else 0) OR (if mode AND 2 ^ 5 \<noteq> 0 then 2 ^ 4 else 0) OR
     (if mode AND 2 ^ 4 \<noteq> 0 then 2 ^ 3 else 0) OR (if mode AND 2 ^ 2 \<noteq> 0 then 2 ^ 2 else 0) OR
     (if mode AND 2 ^ 1 \<noteq> 0 then 2 ^ 1 else 0) OR (if mode AND 2 ^ 0 \<noteq> 0 then 2 ^ 0 else 0)"
  by (simp add: chmod_flags_def Let_def or.assoc split del: if_split cong: if_cong)

lemma low_bits: "(mode :: u32) AND 1 = 0 \<longleftrightarrow> \<not> bit mode 0" "(mode :: u32) AND 2 = 0 \<longleftrightarrow> \<not> bit mode (Suc 0)"
  using and_exp_eq_0_iff_not_bit [of mode 0] and_exp_eq_0_iff_not_bit [of mode 1] by simp_all

lemma below_12: "(i :: nat) < 12 \<longleftrightarrow> i \<in> {0, 1, 2, 3, 4, 5, 6, 7, 8, 9, 10, 11}"
proof -
  have "{..<12 :: nat} = {0, 1, 2, 3, 4, 5, 6, 7, 8, 9, 10, 11}" by (simp add: lessThan_nat_numeral lessThan_Suc insert_commute)
  then show ?thesis by (metis lessThan_iff)
qed

section \<open>Properties\<close>

text \<open>
  Paths come apart. When a path without backslashes ends in a name after its last slash, \<open>UziFile_Base\<close> points at the name and
  \<open>UziFile_Dir\<close> returns what is before the slash, so that the two with the slash between them are the path.
\<close>

theorem path_split:
  assumes "CHR 0x5C \<notin> set d" "CHR 0x5C \<notin> set b" "CHR ''/'' \<notin> set b" "b \<noteq> []"
  shows "UziFile_Dir True (Some (d @ CHR ''/'' # b)) = Some d \<and>
    (\<exists>k. UziFile_Base (Some (d @ CHR ''/'' # b)) = Some k \<and> drop k (d @ CHR ''/'' # b) = b)"
proof -
  have "strrchr (d @ CHR ''/'' # b) (CHR 0x5C) = None" using assms by (simp add: strrchr_None)
  then have "UziFile_Base (Some (d @ CHR ''/'' # b)) = Some (length d + 1)"
    using strrchr_split [OF assms(3), of d] assms(4) by (simp add: UziFile_Base_def)
  then show ?thesis by (simp add: UziFile_Dir_def)
qed

theorem path_split_witness:
  "UziFile_Dir True (Some ''/usr/lib'') = Some ''/usr'' \<and> UziFile_Base (Some ''/usr/lib'') = Some 5"
  using path_split [of "''/usr''" "''lib''"] by (auto simp: UziFile_Base_def)

text \<open>
  Loading what was saved. After a successful \<open>UziFile_Save\<close> of \<open>size\<close> bytes, \<open>UziFile_Load\<close> with a complete read returns these bytes
  followed by the requested number of zero bytes, and the length of both.
\<close>

theorem save_load_roundtrip:
  assumes "UziFile_Save can_open written (Some name) (Some bytes) sz fs = (True, fs')" "sz \<le> length bytes"
    and "malloc (sz + unat padding) = Some block" "length block = sz + unat padding" "got sz = sz"
  shows "UziFile_Load fs' malloc got (Some name) False padding = (Some (take sz bytes @ replicate (unat padding) 0), Some (sz + unat padding))"
proof -
  have "fs' name = Some (take sz bytes)" using assms(1,2) by (auto simp: UziFile_Save_def Let_def split: if_splits)
  then show ?thesis using assms(2-5) by (auto simp: UziFile_Load_def Let_def overwrite_def unat_eq_0)
qed

lemma replicate_2: "replicate 2 x = [x, x]"
  by (simp add: numeral_2_eq_2)

theorem save_load_roundtrip_witness:
  "UziFile_Save (\<lambda>_. True) id (Some ''f'') (Some [1, 2, 3]) 2 Map.empty = (True, [''f'' \<mapsto> [1, 2]]) \<and>
   UziFile_Load [''f'' \<mapsto> [1, 2]] (\<lambda>n. Some (replicate n 7)) id (Some ''f'') False 2 = (Some [1, 2, 0, 0], Some 4)"
  using save_load_roundtrip [of "\<lambda>_. True" id "''f''" "[1, 2, 3]" 2 Map.empty "[''f'' \<mapsto> [1, 2]]" "\<lambda>n. Some (replicate n 7)" 2 "replicate 4 7" id]
  by (simp add: UziFile_Save_def replicate_2)


text \<open>Directories as a set of paths: \<^verbatim>\<open>mkdir\<close> adds a path when its parent is there.\<close>

definition parent_in :: "string \<Rightarrow> string set \<Rightarrow> bool" where
  "parent_in path s = (case strrchr path CHR ''/'' of None \<Rightarrow> True | Some i \<Rightarrow> take i path \<in> s)"

definition mkdir_set :: "string \<Rightarrow> u32 \<Rightarrow> string set \<Rightarrow> int \<times> string set" where
  "mkdir_set path mode s = (if path \<notin> s \<and> parent_in path s then (0, insert path s) else (- 1, s))"


text \<open>
  Modes. \<open>UziChMod\<close> reads a mode as four hexadecimal digits and passes on the octal mode with the same digits: bit \<open>i\<close> of the result is
  bit \<open>i + i div 3\<close> of the argument.
\<close>

theorem chmod_digits:
  "bit (chmod_flags mode) i \<longleftrightarrow> i < 12 \<and> bit mode (i + i div 3)"
proof (cases "i < 12")
  case True
  then have "i \<in> {0, 1, 2, 3, 4, 5, 6, 7, 8, 9, 10, 11}" by (simp only: below_12)
  then show ?thesis by (elim insertE emptyE) (simp_all add: chmod_flags_powers bit_or_iff bit_flag low_bits del: power_numeral)
next
  case False
  then have "\<not> bit (1 :: u32) i" "\<not> bit (2 :: u32) i" by (auto simp: bit_1_iff bit_2_iff)
  then show ?thesis using False below_12 [of i] by (simp add: chmod_flags_powers bit_or_iff bit_flag del: power_numeral)
qed

end
