(* ===== verification/Sysinfo.thy ===== *)
theory Sysinfo
  imports Descriptors
begin

text \<open>
  src/libuzi/sysinfo.c and src/libuzi/sleep.c on Linux: clocks and calendar, the description of the system and the processor
  features. The processor family is an argument where the sources select it at compile time; the answers of the system
  (\<^verbatim>\<open>sysconf\<close>, \<^verbatim>\<open>clock_gettime\<close>, \<^verbatim>\<open>gmtime\<close>, the \<^verbatim>\<open>cpuid\<close> instruction, the auxiliary vector) are arguments as well.
\<close>

section \<open>The system\<close>

datatype cpu = M_ARM | M_IX86 | M_MIPS64 | M_MIPS | M_ARM64 | M_AMD64 | M_PPC | M_ALPHA | M_other

fun GetProcessorArchitecture :: "cpu \<Rightarrow> DWORD" where
  "GetProcessorArchitecture M_ARM = 5"
| "GetProcessorArchitecture M_IX86 = 0"
| "GetProcessorArchitecture M_MIPS64 = 13"
| "GetProcessorArchitecture M_MIPS = 1"
| "GetProcessorArchitecture M_ARM64 = 12"
| "GetProcessorArchitecture M_AMD64 = 9"
| "GetProcessorArchitecture M_PPC = 3"
| "GetProcessorArchitecture M_ALPHA = 2"
| "GetProcessorArchitecture M_other = 0xFFFF"

definition GetNumberOfProcessors :: "int \<Rightarrow> DWORD" where
  "GetNumberOfProcessors sysconf_nproc = word_of_int sysconf_nproc"

text \<open>The two names of the page size are the same number on Linux and are asked for in turn.\<close>

definition GetSystemPageSize :: "int \<Rightarrow> int \<Rightarrow> DWORD" where
  "GetSystemPageSize sc_pagesize sc_page_size' =
     (let dwPageSize = 0; sc_page_size = - 1;
          sc_page_size = (if sc_page_size < 0 then sc_pagesize else sc_page_size);
          sc_page_size = (if sc_page_size < 0 then sc_page_size' else sc_page_size);
          dwPageSize = (if sc_page_size > 0 then word_of_int sc_page_size else dwPageSize)
      in if dwPageSize < 4096 then 4096 else dwPageSize)"

record SYSTEM_INFO =
  wProcessorArchitecture :: u16
  wReserved :: u16
  dwPageSize :: DWORD
  lpMinimumApplicationAddress :: addr
  lpMaximumApplicationAddress :: addr
  dwActiveProcessorMask :: u64
  dwNumberOfProcessors :: DWORD
  dwProcessorType :: DWORD
  dwAllocationGranularity :: DWORD
  wProcessorLevel :: u16
  wProcessorRevision :: u16

definition GetSystemInfo :: "cpu \<Rightarrow> int \<Rightarrow> int \<Rightarrow> int \<Rightarrow> SYSTEM_INFO" where
  "GetSystemInfo cpu nproc sc1 sc2 =
     \<lparr>wProcessorArchitecture = ucast (GetProcessorArchitecture cpu), wReserved = 0, dwPageSize = GetSystemPageSize sc1 sc2,
      lpMinimumApplicationAddress = NULL, lpMaximumApplicationAddress = NULL, dwActiveProcessorMask = 0,
      dwNumberOfProcessors = GetNumberOfProcessors nproc, dwProcessorType = 0, dwAllocationGranularity = 0,
      wProcessorLevel = 0, wProcessorRevision = 0\<rparr>"

definition GetNativeSystemInfo :: "cpu \<Rightarrow> int \<Rightarrow> int \<Rightarrow> int \<Rightarrow> SYSTEM_INFO" where
  "GetNativeSystemInfo cpu nproc sc1 sc2 = GetSystemInfo cpu nproc sc1 sc2"

section \<open>Time\<close>

text \<open>\<open>clock\<close> is the reading of the monotonic clock, \<open>None\<close> when the call fails.\<close>

definition GetTickCount :: "timespec option \<Rightarrow> DWORD" where
  "GetTickCount clock = (case clock of None \<Rightarrow> 0 | Some ts \<Rightarrow> word_of_int (tv_sec ts * 1000 + tv_nsec ts div 1000000))"

definition winpr_GetTickCount64 :: "timespec option \<Rightarrow> u64" where
  "winpr_GetTickCount64 clock = (case clock of None \<Rightarrow> 0 | Some ts \<Rightarrow> word_of_int (tv_sec ts * 1000 + tv_nsec ts div 1000000))"

definition GetTickCountPrecise :: "timespec option \<Rightarrow> DWORD" where
  "GetTickCountPrecise clock = GetTickCount clock"

record tm =
  tm_sec :: int
  tm_min :: int
  tm_hour :: int
  tm_mday :: int
  tm_mon :: int
  tm_year :: int
  tm_wday :: int

record SYSTEMTIME =
  wYear :: u16
  wMonth :: u16
  wDayOfWeek :: u16
  wDay :: u16
  wHour :: u16
  wMinute :: u16
  wSecond :: u16
  wMilliseconds :: u16

definition zero_time :: SYSTEMTIME where
  "zero_time = \<lparr>wYear = 0, wMonth = 0, wDayOfWeek = 0, wDay = 0, wHour = 0, wMinute = 0, wSecond = 0, wMilliseconds = 0\<rparr>"

definition GetSystemTime :: "(int \<Rightarrow> tm option) \<Rightarrow> int \<Rightarrow> timespec option \<Rightarrow> SYSTEMTIME" where
  "GetSystemTime gmtime ct clock =
     (let ms = ucast (GetTickCount clock mod 1000) in
      case gmtime ct of
        None \<Rightarrow> zero_time
      | Some stm \<Rightarrow> zero_time\<lparr>wYear := word_of_int (tm_year stm + 1900), wMonth := word_of_int (tm_mon stm + 1),
          wDayOfWeek := word_of_int (tm_wday stm), wDay := word_of_int (tm_mday stm), wHour := word_of_int (tm_hour stm),
          wMinute := word_of_int (tm_min stm), wSecond := word_of_int (tm_sec stm), wMilliseconds := ms\<rparr>)"

definition GetLocalTime :: "(int \<Rightarrow> tm option) \<Rightarrow> int \<Rightarrow> timespec option \<Rightarrow> SYSTEMTIME" where
  "GetLocalTime localtime ct clock =
     (let ms = ucast (GetTickCount clock mod 1000) in
      case localtime ct of
        None \<Rightarrow> zero_time
      | Some ltm \<Rightarrow> zero_time\<lparr>wYear := word_of_int (tm_year ltm + 1900), wMonth := word_of_int (tm_mon ltm + 1),
          wDayOfWeek := word_of_int (tm_wday ltm), wDay := word_of_int (tm_mday ltm), wHour := word_of_int (tm_hour ltm),
          wMinute := word_of_int (tm_min ltm), wSecond := word_of_int (tm_sec ltm), wMilliseconds := ms\<rparr>)"

text \<open>The low and the high half of the 64-bit time.\<close>

definition GetSystemTimeAsFileTime :: "int \<Rightarrow> DWORD \<times> DWORD" where
  "GetSystemTimeAsFileTime t =
     (let time64 = word_of_int (t + 11644473600) :: u64; time64 = time64 * 10000000
      in (ucast time64, ucast (drop_bit 32 time64)))"

text \<open>The microseconds passed to \<^verbatim>\<open>usleep\<close>: a 32-bit product.\<close>

definition Sleep :: "DWORD \<Rightarrow> DWORD" where
  "Sleep dwMilliseconds = dwMilliseconds * 1000"

definition SleepEx :: "DWORD \<Rightarrow> bool \<Rightarrow> DWORD \<times> DWORD" where
  "SleepEx dwMilliseconds bAlertable = (dwMilliseconds * 1000, 1)"

definition USleep :: "DWORD \<Rightarrow> DWORD" where
  "USleep dwMicroseconds = dwMicroseconds"

section \<open>Processor features\<close>

text \<open>
  The capabilities on ARM are the last value of type 16 in the auxiliary vector, up to a read that delivers nothing or an entry of
  two zeros. The list holds the entries that the reads deliver.
\<close>

fun arm_caps_loop :: "(u32 \<times> u32) list \<Rightarrow> u32 \<Rightarrow> u32" where
  "arm_caps_loop [] caps = caps"
| "arm_caps_loop ((a_type, a_val) # rest) caps =
     (if a_type = 0 \<and> a_val = 0 then caps else arm_caps_loop rest (if a_type = 16 then a_val else caps))"

definition GetARMCPUCaps :: "(u32 \<times> u32) list option \<Rightarrow> u32" where
  "GetARMCPUCaps auxv = (case auxv of None \<Rightarrow> 0 | Some entries \<Rightarrow> arm_caps_loop entries 0)"

text \<open>The cases of the ARM switch; three of them fall through to the next.\<close>

definition arm_feature_present :: "u32 \<Rightarrow> DWORD \<Rightarrow> bool" where
  "arm_feature_present caps f =
     (let vfp3 = caps AND 0x2000 \<noteq> 0;
          divide = caps AND 0x20000 \<noteq> 0 \<or> caps AND 0x40000 \<noteq> 0 \<or> vfp3;
          vfp32 = caps AND 0x80000 \<noteq> 0 \<or> divide;
          thumb = caps AND 0x4 \<noteq> 0 \<or> vfp32
      in if f = 19 \<or> f = 0x8000001B then caps AND 0x1000 \<noteq> 0
         else if f = 0x80000005 then thumb
         else if f = 18 then vfp32
         else if f = 24 then divide
         else if f = 0x8000001A then vfp3
         else if f = 0x80000006 then caps AND 0x100 \<noteq> 0
         else if f = 0x80000007 then caps AND 0x80 \<noteq> 0
         else if f = 0x8000000A then caps AND 0x80 \<noteq> 0
         else if f = 0x80000018 then caps AND 0x40000 \<noteq> 0 \<or> caps AND 0x10000 \<noteq> 0
         else if f = 0x80000019 then caps AND 0x800 \<noteq> 0
         else if f = 0x80010003 then caps AND 0x200 \<noteq> 0
         else False)"

text \<open>\<open>cpuid info\<close> returns the registers \<^verbatim>\<open>ecx\<close> and \<^verbatim>\<open>edx\<close>.\<close>

definition IsProcessorFeaturePresent :: "cpu \<Rightarrow> (u32 \<Rightarrow> u32 \<times> u32) \<Rightarrow> (u32 \<times> u32) list option \<Rightarrow> DWORD \<Rightarrow> bool" where
  "IsProcessorFeaturePresent cpu cpuid auxv f =
     (if cpu = M_ARM then arm_feature_present (GetARMCPUCaps auxv) f
      else if cpu = M_IX86 \<or> cpu = M_AMD64 then
        (let (c, d) = cpuid 1 in
         if f = 3 then d AND 0x800000 \<noteq> 0
         else if f = 6 then d AND 0x2000000 \<noteq> 0
         else if f = 10 then d AND 0x4000000 \<noteq> 0
         else if f = 7 then d AND 0x40000000 \<noteq> 0
         else if f = 13 then c AND 1 \<noteq> 0
         else False)
      else False)"

text \<open>\<open>xgetbv\<close> is the low half of the extended control register; the AVX cases exist when the compiler targets AVX.\<close>

definition IsProcessorFeaturePresentEx ::
  "cpu \<Rightarrow> (u32 \<Rightarrow> u32 \<times> u32) \<Rightarrow> bool \<Rightarrow> u32 \<Rightarrow> (u32 \<times> u32) list option \<Rightarrow> DWORD \<Rightarrow> bool" where
  "IsProcessorFeaturePresentEx cpu cpuid target_avx xgetbv auxv f =
     (if cpu = M_ARM then
        (let caps = GetARMCPUCaps auxv in
         if f = 10 then caps AND 0x40 \<noteq> 0
         else if f = 11 then caps AND 0x4000 \<noteq> 0
         else if f = 12 then caps AND 0x10000 \<noteq> 0
         else if f = 13 then caps AND 0x20000 \<noteq> 0
         else if f = 14 then caps AND 0x40000 \<noteq> 0
         else False)
      else if cpu = M_IX86 \<or> cpu = M_AMD64 then
        (let (c, d) = cpuid 1 in
         if f = 1 then fst (cpuid 0x80000001) AND 0x20 \<noteq> 0
         else if f = 2 then c AND 0x100 \<noteq> 0
         else if f = 3 then c AND 0x200 \<noteq> 0
         else if f = 4 then c AND 0x80000 \<noteq> 0
         else if f = 5 then c AND 0x100000 \<noteq> 0
         else if target_avx \<and> (f = 6 \<or> f = 7 \<or> f = 8 \<or> f = 15) then
           (if c AND (0x8000000 OR 0x10000000) \<noteq> 0x8000000 OR 0x10000000 then False
            else if xgetbv AND (2 OR 4) = 2 OR 4 then
              (if f = 6 then True
               else if f = 7 then c AND 0x1000 \<noteq> 0
               else if f = 8 then c AND 0x2000000 \<noteq> 0
               else c AND 2 \<noteq> 0)
            else False)
         else False)
      else False)"

section \<open>Lemmas\<close>

lemma ucast_word_of_int: "ucast (word_of_int k :: u64) = (word_of_int k :: u32)"
  by transfer simp

lemma tick_counts_agree: "GetTickCount clock = ucast (winpr_GetTickCount64 clock)"
  by (cases clock) (simp_all only: GetTickCount_def winpr_GetTickCount64_def ucast_word_of_int option.case unsigned_0)

lemma page_size_at_least: "4096 \<le> GetSystemPageSize a b"
  by (auto simp: GetSystemPageSize_def Let_def not_less)

text \<open>The two halves of the file time are the number of tenths of a microsecond since 1601.\<close>

lemma file_time_exact:
  assumes "0 \<le> t" "t < 2 ^ 40"
  shows "uint (fst (GetSystemTimeAsFileTime t)) + uint (snd (GetSystemTimeAsFileTime t)) * 2 ^ 32 = (t + 11644473600) * 10000000"
proof -
  define x :: u64 where "x = word_of_int (t + 11644473600) * 10000000"
  have "uint x = (t + 11644473600) * 10000000"
    using assms by (simp add: x_def uint_word_ariths uint_word_of_int)
  moreover have "uint (ucast x :: u32) + uint (ucast (drop_bit 32 x) :: u32) * 2 ^ 32 = uint x"
  proof -
    have "uint (ucast x :: u32) = uint x mod 2 ^ 32" by (simp add: take_bit_eq_mod unsigned_ucast_eq)
    moreover have "uint (ucast (drop_bit 32 x) :: u32) = uint x div 2 ^ 32 mod 2 ^ 32"
      by (simp add: unsigned_ucast_eq take_bit_eq_mod unsigned_drop_bit_eq drop_bit_eq_div uint_div)
    moreover have "uint x div 2 ^ 32 mod 2 ^ 32 = uint x div 2 ^ 32"
    proof (rule mod_pos_pos_trivial)
      have "uint x < 18446744073709551616" using uint_lt2p [of x] by simp
      then show "uint x div 2 ^ 32 < 2 ^ 32" by simp
    qed (simp add: pos_imp_zdiv_nonneg_iff)
    ultimately show ?thesis by (metis mod_mult_div_eq add.commute mult.commute)
  qed
  ultimately show ?thesis by (simp add: GetSystemTimeAsFileTime_def Let_def x_def)
qed

end
