(* ===== verification/Thread_Interleaving.thy ===== *)
theory Thread_Interleaving
  imports Uzi_Prelude
begin

text \<open>
  The life of one thread object of src/libuzi/thread.c, with the functions cut at their accesses to shared data and
  interleaved: the thread that creates the object, may wait for it and closes it (\<open>Main\<close>), and the thread that
  \<open>thread_launcher\<close> runs in (\<open>Launched\<close>). The sequential view of the same functions is the theory \<open>Thread\<close>.
\<close>

section \<open>State\<close>

datatype actor = Main | Launched

text \<open>
  The program points of \<open>Main\<close>: in \<open>winpr_StartThread\<close> (\<open>S_\<close>), between calls with a valid handle (\<open>M_idle\<close>), in
  \<open>WaitForSingleObject\<close> without time-out (\<open>W_\<close>), in \<open>ThreadCloseHandle\<close> (\<open>C_\<close>), and in the error path of
  \<open>CreateThread\<close>. \<open>M_closed\<close> and \<open>M_failed\<close> are final.
\<close>

datatype main_pc = S_event | S_create | S_lock | S_add | S_signal | S_unlock | S_add_failed | S_error | M_failed
  | M_idle | W_poll | W_join
  | C_contains | C_lock | C_poll | C_join | C_set_detached | C_detach | C_close_fds | C_remove | C_free | C_unlock | C_count | M_closed

text \<open>
  The program points of \<open>Launched\<close>: before it exists, at the start of \<open>thread_launcher\<close> (\<open>L_\<close>), in the start routine
  (\<open>L_run\<close>), in \<open>ExitThread\<close> (\<open>X_\<close>), in the last lines that both share, and in \<open>cleanup_handle\<close>.
\<close>

datatype launched_pc = L_off | L_lock | L_check | L_wait | L_unlock | L_assert | L_run | L_code
  | X_contains | X_lock | X_set | X_unlock
  | L_event | L_test | L_close_fds | L_remove | L_free | L_done | L_aborted

text \<open>
  The fields of the object and of its surroundings: \<open>in_list\<close> tells whether the dictionary of threads holds the object,
  \<open>list_lock\<close> and \<open>ready_mutex\<close> who holds the lock of the dictionary and the mutex \<open>threadIsReadyMutex\<close>, \<open>woken\<close>
  whether a signal reached the waiting launcher. \<open>frees\<close> counts the calls of \<open>free\<close> on the object, \<open>misused\<close> tells
  whether it was accessed after one of them; \<open>result\<close> is a ghost: what the start routine or \<open>ExitThread\<close> passed on.
\<close>

record thread_life =
  mpc :: main_pc
  lpc :: launched_pc
  in_list :: bool
  signalled :: bool
  th_detached :: bool
  th_joined :: bool
  th_exited :: bool
  exit_code :: DWORD
  list_lock :: "actor option"
  ready_mutex :: "actor option"
  woken :: bool
  frees :: nat
  misused :: bool
  result :: DWORD

text \<open>An access to the object.\<close>

definition touch :: "thread_life \<Rightarrow> thread_life" where
  "touch s = s\<lparr>misused := misused s \<or> 0 < frees s\<rparr>"

section \<open>Steps\<close>

text \<open>
  Every function returns the possible next states, none when the actor is elsewhere or has to wait. Starting:
  \<open>oom\<close> tells whether \<open>ListDictionary_Add\<close> may fail; the caller then frees the object.
\<close>

definition StartThread_step :: "bool \<Rightarrow> thread_life \<Rightarrow> thread_life list" where
  "StartThread_step oom s =
     (case mpc s of
        S_event \<Rightarrow> [(touch s)\<lparr>signalled := False, mpc := S_create\<rparr>]
      | S_create \<Rightarrow> [(touch s)\<lparr>lpc := L_lock, mpc := S_lock\<rparr>, (touch s)\<lparr>mpc := S_error\<rparr>]
      | S_lock \<Rightarrow> if ready_mutex s = None then [(touch s)\<lparr>ready_mutex := Some Main, mpc := S_add\<rparr>] else []
      | S_add \<Rightarrow>
          if list_lock s = None
          then (touch s)\<lparr>in_list := True, mpc := S_signal\<rparr> # (if oom then [(touch s)\<lparr>mpc := S_add_failed\<rparr>] else [])
          else []
      | S_signal \<Rightarrow> [(touch s)\<lparr>woken := woken s \<or> lpc s = L_wait, mpc := S_unlock\<rparr>]
      | S_unlock \<Rightarrow> [(touch s)\<lparr>ready_mutex := None, mpc := M_idle\<rparr>]
      | S_add_failed \<Rightarrow> [(touch s)\<lparr>ready_mutex := None, mpc := S_error\<rparr>]
      | S_error \<Rightarrow> [(touch s)\<lparr>frees := frees s + 1, mpc := M_failed\<rparr>]
      | _ \<Rightarrow> [])"

text \<open>Waiting: \<open>poll\<close> returns when the descriptor is readable, and \<open>ThreadCleanupHandle\<close> joins once.\<close>

definition ThreadWait_step :: "thread_life \<Rightarrow> thread_life list" where
  "ThreadWait_step s =
     (case mpc s of
        M_idle \<Rightarrow> [s\<lparr>mpc := W_poll\<rparr>]
      | W_poll \<Rightarrow> if signalled s then [(touch s)\<lparr>mpc := W_join\<rparr>] else []
      | W_join \<Rightarrow> if th_joined s then [(touch s)\<lparr>mpc := M_idle\<rparr>]
                 else if lpc s = L_done then [(touch s)\<lparr>th_joined := True, mpc := M_idle\<rparr>] else []
      | _ \<Rightarrow> [])"

text \<open>Closing. The dictionary is locked from \<open>C_poll\<close> to \<open>C_unlock\<close>; \<open>C_count\<close> looks at the dictionary only.\<close>

definition ThreadCloseHandle_step :: "thread_life \<Rightarrow> thread_life list" where
  "ThreadCloseHandle_step s =
     (case mpc s of
        M_idle \<Rightarrow> [s\<lparr>mpc := C_contains\<rparr>]
      | C_contains \<Rightarrow> if list_lock s = None then [(touch s)\<lparr>mpc := (if in_list s then C_lock else M_closed)\<rparr>] else []
      | C_lock \<Rightarrow> if list_lock s = None then [s\<lparr>list_lock := Some Main, mpc := C_poll\<rparr>] else []
      | C_poll \<Rightarrow> [(touch s)\<lparr>mpc := (if signalled s then C_join else C_set_detached)\<rparr>]
      | C_join \<Rightarrow> if th_joined s then [(touch s)\<lparr>mpc := C_close_fds\<rparr>]
                 else if lpc s = L_done then [(touch s)\<lparr>th_joined := True, mpc := C_close_fds\<rparr>] else []
      | C_set_detached \<Rightarrow> [(touch s)\<lparr>th_detached := True, mpc := C_detach\<rparr>]
      | C_detach \<Rightarrow> [(touch s)\<lparr>mpc := C_unlock\<rparr>]
      | C_close_fds \<Rightarrow> [(touch s)\<lparr>mpc := C_remove\<rparr>]
      | C_remove \<Rightarrow> [(touch s)\<lparr>in_list := False, mpc := C_free\<rparr>]
      | C_free \<Rightarrow> [(touch s)\<lparr>frees := frees s + 1, mpc := C_unlock\<rparr>]
      | C_unlock \<Rightarrow> [s\<lparr>list_lock := None, mpc := C_count\<rparr>]
      | C_count \<Rightarrow> if list_lock s = None then [s\<lparr>mpc := M_closed\<rparr>] else []
      | _ \<Rightarrow> [])"

text \<open>
  The launcher up to the start routine. \<open>spurious\<close> tells whether \<open>pthread_cond_wait\<close> may return although nobody
  signalled the condition, which POSIX allows. \<open>rc\<close> is the value of the start routine.
\<close>

definition thread_launcher_step :: "bool \<Rightarrow> DWORD \<Rightarrow> thread_life \<Rightarrow> thread_life list" where
  "thread_launcher_step spurious rc s =
     (case lpc s of
        L_lock \<Rightarrow> if ready_mutex s = None then [(touch s)\<lparr>ready_mutex := Some Launched, lpc := L_check\<rparr>] else []
      | L_check \<Rightarrow>
          if list_lock s = None
          then [if in_list s then (touch s)\<lparr>lpc := L_unlock\<rparr> else (touch s)\<lparr>ready_mutex := None, woken := False, lpc := L_wait\<rparr>]
          else []
      | L_wait \<Rightarrow> if (woken s \<or> spurious) \<and> ready_mutex s = None then [(touch s)\<lparr>ready_mutex := Some Launched, lpc := L_unlock\<rparr>] else []
      | L_unlock \<Rightarrow> [(touch s)\<lparr>ready_mutex := None, lpc := L_assert\<rparr>]
      | L_assert \<Rightarrow> if list_lock s = None then [(touch s)\<lparr>lpc := (if in_list s then L_run else L_aborted)\<rparr>] else []
      | L_run \<Rightarrow> [(touch s)\<lparr>result := rc, lpc := L_code\<rparr>]
      | L_code \<Rightarrow> [(touch s)\<lparr>exit_code := (if th_exited s then exit_code s else result s), lpc := L_event\<rparr>]
      | L_event \<Rightarrow> [(touch s)\<lparr>signalled := True, lpc := L_test\<rparr>]
      | L_test \<Rightarrow> [(touch s)\<lparr>lpc := (if th_detached s then L_close_fds else L_done)\<rparr>]
      | _ \<Rightarrow> [])"

text \<open>The start routine may call \<open>ExitThread\<close> instead of returning; it goes on at \<open>L_event\<close> like the launcher.\<close>

definition ExitThread_step :: "DWORD \<Rightarrow> thread_life \<Rightarrow> thread_life list" where
  "ExitThread_step dwExitCode s =
     (case lpc s of
        L_run \<Rightarrow> [s\<lparr>result := dwExitCode, lpc := X_contains\<rparr>]
      | X_contains \<Rightarrow> if list_lock s = None then [s\<lparr>lpc := (if in_list s then X_lock else L_done)\<rparr>] else []
      | X_lock \<Rightarrow> if list_lock s = None then [s\<lparr>list_lock := Some Launched, lpc := X_set\<rparr>] else []
      | X_set \<Rightarrow> [(touch s)\<lparr>th_exited := True, exit_code := result s, lpc := X_unlock\<rparr>]
      | X_unlock \<Rightarrow> [s\<lparr>list_lock := None, lpc := L_event\<rparr>]
      | _ \<Rightarrow> [])"

text \<open>\<open>cleanup_handle\<close> in the launched thread; the dictionary is looked at before the object is freed.\<close>

definition cleanup_handle_step :: "thread_life \<Rightarrow> thread_life list" where
  "cleanup_handle_step s =
     (case lpc s of
        L_close_fds \<Rightarrow> [(touch s)\<lparr>lpc := L_remove\<rparr>]
      | L_remove \<Rightarrow> if list_lock s = None then [(touch s)\<lparr>in_list := False, lpc := L_free\<rparr>] else []
      | L_free \<Rightarrow> [(touch s)\<lparr>frees := frees s + 1, lpc := L_done\<rparr>]
      | _ \<Rightarrow> [])"

inductive life_step :: "bool \<Rightarrow> bool \<Rightarrow> thread_life \<Rightarrow> thread_life \<Rightarrow> bool" for oom spurious where
  start: "s' \<in> set (StartThread_step oom s) \<Longrightarrow> life_step oom spurious s s'"
| wait: "s' \<in> set (ThreadWait_step s) \<Longrightarrow> life_step oom spurious s s'"
| close: "s' \<in> set (ThreadCloseHandle_step s) \<Longrightarrow> life_step oom spurious s s'"
| launch: "s' \<in> set (thread_launcher_step spurious rc s) \<Longrightarrow> life_step oom spurious s s'"
| exit: "s' \<in> set (ExitThread_step code s) \<Longrightarrow> life_step oom spurious s s'"
| cleanup: "s' \<in> set (cleanup_handle_step s) \<Longrightarrow> life_step oom spurious s s'"

text \<open>The object as \<open>CreateThread\<close> has initialised it when it calls \<open>winpr_StartThread\<close>.\<close>

definition life_start :: thread_life where
  "life_start = \<lparr>mpc = S_event, lpc = L_off, in_list = False, signalled = False, th_detached = False, th_joined = False, th_exited = False,
     exit_code = 0, list_lock = None, ready_mutex = None, woken = False, frees = 0, misused = False, result = 0\<rparr>"

inductive life_reachable :: "bool \<Rightarrow> bool \<Rightarrow> thread_life \<Rightarrow> bool" for oom spurious where
  start: "life_reachable oom spurious life_start"
| step: "life_reachable oom spurious s \<Longrightarrow> life_step oom spurious s s' \<Longrightarrow> life_reachable oom spurious s'"

section \<open>Invariant\<close>

abbreviation locked_pcs :: "main_pc set" where
  "locked_pcs \<equiv> {C_poll, C_join, C_set_detached, C_detach, C_close_fds, C_remove, C_free, C_unlock}"

text \<open>Who holds the two locks.\<close>

definition inv_locks :: "thread_life \<Rightarrow> bool" where
  "inv_locks s \<longleftrightarrow>
     (list_lock s = Some Main \<longleftrightarrow> mpc s \<in> locked_pcs) \<and> (list_lock s = Some Launched \<longleftrightarrow> lpc s \<in> {X_set, X_unlock}) \<and>
     (ready_mutex s = Some Main \<longleftrightarrow> mpc s \<in> {S_add, S_signal, S_unlock}) \<and> (ready_mutex s = Some Launched \<longleftrightarrow> lpc s \<in> {L_check, L_unlock}) \<and>
     mpc s \<noteq> S_add_failed \<and> lpc s \<noteq> L_aborted"

text \<open>The handshake: the launcher goes on only when the object is in the dictionary.\<close>

definition inv_start :: "thread_life \<Rightarrow> bool" where
  "inv_start s \<longleftrightarrow>
     (lpc s = L_off \<longleftrightarrow> mpc s \<in> {S_event, S_create, S_error, M_failed}) \<and>
     (mpc s \<in> {S_event, S_create, S_lock, S_add, S_error, M_failed} \<longrightarrow> \<not> in_list s \<and> lpc s \<in> {L_off, L_lock, L_check, L_wait}) \<and>
     (\<not> in_list s \<longrightarrow> lpc s \<in> {L_off, L_free, L_done} \<or> lpc s \<in> {L_lock, L_check, L_wait} \<and> mpc s \<in> {S_lock, S_add}) \<and>
     (\<not> in_list s \<longrightarrow> mpc s \<in> {S_event, S_create, S_lock, S_add, S_error, M_failed, C_free, C_unlock, C_count, M_closed}) \<and>
     (lpc s = L_wait \<and> woken s \<longrightarrow> in_list s) \<and> (lpc s = L_wait \<and> \<not> woken s \<longrightarrow> mpc s \<in> {S_lock, S_add, S_signal})"

text \<open>The end: who may free the object.\<close>

definition inv_end :: "thread_life \<Rightarrow> bool" where
  "inv_end s \<longleftrightarrow>
     (signalled s \<longleftrightarrow> lpc s \<in> {L_test, L_close_fds, L_remove, L_free, L_done}) \<and>
     (mpc s \<in> {W_join, C_join} \<longrightarrow> signalled s) \<and>
     (th_detached s \<longrightarrow> mpc s \<in> {C_detach, C_unlock, C_count, M_closed}) \<and> (mpc s = C_detach \<longrightarrow> th_detached s) \<and>
     (lpc s \<in> {L_close_fds, L_remove, L_free} \<longrightarrow> th_detached s \<and> frees s = 0) \<and> (lpc s = L_free \<longrightarrow> \<not> in_list s) \<and>
     (mpc s \<in> {C_close_fds, C_remove, C_free} \<longrightarrow> lpc s = L_done \<and> frees s = 0) \<and>
     (frees s \<le> 1) \<and> (0 < frees s \<longrightarrow> mpc s = M_failed \<or> lpc s = L_done \<and> mpc s \<in> {C_unlock, C_count, M_closed}) \<and>
     (th_detached s \<and> mpc s \<in> {C_detach, C_unlock} \<longrightarrow> frees s = 0 \<and> in_list s) \<and>
     (\<not> th_detached s \<and> mpc s \<in> {C_unlock, C_count, M_closed} \<longrightarrow> frees s = 1 \<and> lpc s = L_done) \<and> \<not> misused s"

text \<open>The exit code.\<close>

definition inv_code :: "thread_life \<Rightarrow> bool" where
  "inv_code s \<longleftrightarrow>
     (th_joined s \<longrightarrow> lpc s = L_done) \<and> (lpc s \<in> {L_off, L_lock, L_check, L_wait, L_unlock, L_assert, L_run, L_code, X_contains, X_lock, X_set} \<longrightarrow> \<not> th_exited s) \<and>
     (lpc s \<in> {X_unlock, L_event, L_test, L_close_fds, L_remove, L_free, L_done} \<longrightarrow> exit_code s = result s)"

definition life_inv :: "thread_life \<Rightarrow> bool" where
  "life_inv s \<longleftrightarrow> inv_locks s \<and> inv_start s \<and> inv_end s \<and> inv_code s"

lemmas inv_defs = life_inv_def inv_locks_def inv_start_def inv_end_def inv_code_def touch_def

lemma life_inv_start: "life_inv life_start"
  by (simp add: inv_defs life_start_def)

text \<open>Each function keeps the invariant, by cases on both program counters of the state taken apart.\<close>

lemma StartThread_inv: "life_inv s \<Longrightarrow> s' \<in> set (StartThread_step False s) \<Longrightarrow> life_inv s'"
proof (cases s)
  case (fields m l)
  then show "life_inv s \<Longrightarrow> s' \<in> set (StartThread_step False s) \<Longrightarrow> life_inv s'"
    by (cases m; simp add: StartThread_step_def split: if_splits; cases l; simp add: inv_defs; elim conjE disjE; simp)
qed

lemma ThreadWait_inv: "life_inv s \<Longrightarrow> s' \<in> set (ThreadWait_step s) \<Longrightarrow> life_inv s'"
proof (cases s)
  case (fields m l)
  then show "life_inv s \<Longrightarrow> s' \<in> set (ThreadWait_step s) \<Longrightarrow> life_inv s'"
    by (cases m; simp add: ThreadWait_step_def split: if_splits; cases l; simp add: inv_defs; elim conjE disjE; simp)
qed

lemma ThreadClose_inv: "life_inv s \<Longrightarrow> s' \<in> set (ThreadCloseHandle_step s) \<Longrightarrow> life_inv s'"
proof (cases s)
  case (fields m l)
  then show "life_inv s \<Longrightarrow> s' \<in> set (ThreadCloseHandle_step s) \<Longrightarrow> life_inv s'"
    by (cases m; simp add: ThreadCloseHandle_step_def split: if_splits; cases l; simp add: inv_defs; elim conjE disjE; simp)
qed

lemma thread_launcher_inv: "life_inv s \<Longrightarrow> s' \<in> set (thread_launcher_step False rc s) \<Longrightarrow> life_inv s'"
proof (cases s)
  case (fields m l)
  then show "life_inv s \<Longrightarrow> s' \<in> set (thread_launcher_step False rc s) \<Longrightarrow> life_inv s'"
    by (cases l; simp add: thread_launcher_step_def split: if_splits; cases m; simp add: inv_defs; elim conjE disjE; simp)
qed

lemma ExitThread_inv: "life_inv s \<Longrightarrow> s' \<in> set (ExitThread_step code s) \<Longrightarrow> life_inv s'"
proof (cases s)
  case (fields m l)
  then show "life_inv s \<Longrightarrow> s' \<in> set (ExitThread_step code s) \<Longrightarrow> life_inv s'"
    by (cases l; simp add: ExitThread_step_def split: if_splits; cases m; simp add: inv_defs; elim conjE disjE; simp)
qed

lemma cleanup_inv: "life_inv s \<Longrightarrow> s' \<in> set (cleanup_handle_step s) \<Longrightarrow> life_inv s'"
proof (cases s)
  case (fields m l)
  then show "life_inv s \<Longrightarrow> s' \<in> set (cleanup_handle_step s) \<Longrightarrow> life_inv s'"
    by (cases l; simp add: cleanup_handle_step_def split: if_splits; cases m; simp add: inv_defs; elim conjE disjE; simp)
qed

lemma life_step_inv: "life_step False False s s' \<Longrightarrow> life_inv s \<Longrightarrow> life_inv s'"
  by (induction rule: life_step.induct)
    (blast intro: StartThread_inv ThreadWait_inv ThreadClose_inv thread_launcher_inv ExitThread_inv cleanup_inv)+

lemma life_reachable_inv: "life_reachable False False s \<Longrightarrow> life_inv s"
  by (induction rule: life_reachable.induct) (auto intro: life_inv_start life_step_inv)

section \<open>Runs\<close>

text \<open>A schedule names the function that moves and which of its next states is taken.\<close>

datatype move = Start nat | Wait nat | Close nat | Launch nat | Exit nat | Cleanup nat

fun move_states :: "bool \<Rightarrow> bool \<Rightarrow> DWORD \<Rightarrow> move \<Rightarrow> thread_life \<Rightarrow> thread_life list" where
  "move_states oom spurious rc (Start k) s = drop k (StartThread_step oom s)"
| "move_states oom spurious rc (Wait k) s = drop k (ThreadWait_step s)"
| "move_states oom spurious rc (Close k) s = drop k (ThreadCloseHandle_step s)"
| "move_states oom spurious rc (Launch k) s = drop k (thread_launcher_step spurious rc s)"
| "move_states oom spurious rc (Exit k) s = drop k (ExitThread_step rc s)"
| "move_states oom spurious rc (Cleanup k) s = drop k (cleanup_handle_step s)"

fun life_run :: "bool \<Rightarrow> bool \<Rightarrow> DWORD \<Rightarrow> move list \<Rightarrow> thread_life \<Rightarrow> thread_life option" where
  "life_run oom spurious rc [] s = Some s"
| "life_run oom spurious rc (m # ms) s = (case move_states oom spurious rc m s of [] \<Rightarrow> None | s' # _ \<Rightarrow> life_run oom spurious rc ms s')"

lemma move_states_step: "s' \<in> set (move_states oom spurious rc m s) \<Longrightarrow> life_step oom spurious s s'"
  by (cases m) (auto dest: in_set_dropD intro: life_step.intros)

lemma life_run_reachable: "life_run oom spurious rc ms s = Some s' \<Longrightarrow> life_reachable oom spurious s \<Longrightarrow> life_reachable oom spurious s'"
proof (induction ms arbitrary: s)
  case (Cons m ms)
  then obtain t ts where t: "move_states oom spurious rc m s = t # ts" "life_run oom spurious rc ms t = Some s'" by (auto split: list.splits)
  have "life_step oom spurious s t" using t(1) by (intro move_states_step [of _ _ _ rc m]) simp
  then show ?case using Cons.IH [OF t(2)] Cons.prems(2) life_reachable.step by blast
qed simp

lemmas run_defs = StartThread_step_def ThreadWait_step_def ThreadCloseHandle_step_def thread_launcher_step_def ExitThread_step_def
  cleanup_handle_step_def touch_def life_start_def

text \<open>A complete life: start, end with value 7, wait, close.\<close>

definition orderly :: "move list" where
  "orderly = replicate 6 (Start 0) @ replicate 8 (Launch 0) @ replicate 3 (Wait 0) @ replicate 10 (Close 0)"

text \<open>The thread ends between the poll of \<open>ThreadCloseHandle\<close> and the store to \<open>detached\<close>.\<close>

definition close_race :: "move list" where
  "close_race = replicate 6 (Start 0) @ replicate 6 (Launch 0) @ replicate 4 (Close 0) @ replicate 2 (Launch 0) @ replicate 4 (Close 0)"

definition spurious_start :: "move list" where
  "spurious_start = replicate 2 (Start 0) @ replicate 5 (Launch 0)"

definition failed_add :: "move list" where
  "failed_add = replicate 3 (Start 0) @ [Start 1] @ replicate 2 (Start 0) @ [Launch 0]"

lemma nobody: "x = None \<longleftrightarrow> x \<noteq> Some Main \<and> x \<noteq> Some Launched"
  by (metis actor.exhaust option.distinct(1) option.exhaust)

section \<open>Properties\<close>


lemma orderly_run: "\<exists>s. life_run False False 7 orderly life_start = Some s \<and> mpc s = M_closed \<and> frees s = 1 \<and> th_joined s \<and> result s = 7 \<and> exit_code s = 7"
  by (simp add: orderly_def run_defs numeral_eq_Suc)




text \<open>The three ways in which the code departs from this: a late detach leaks the object, a spurious wake-up fails the assertion, and
  a failed insertion into the dictionary frees an object whose thread runs.\<close>

theorem close_race_leaks:
  "\<exists>s. life_reachable False False s \<and> mpc s = M_closed \<and> lpc s = L_done \<and> frees s = 0"
proof -
  have "\<exists>s. life_run False False 0 close_race life_start = Some s \<and> mpc s = M_closed \<and> lpc s = L_done \<and> frees s = 0"
    by (simp add: close_race_def run_defs numeral_eq_Suc)
  then show ?thesis using life_run_reachable life_reachable.start by blast
qed

theorem spurious_wakeup_aborts:
  "\<exists>s. life_reachable False True s \<and> lpc s = L_aborted"
proof -
  have "\<exists>s. life_run False True 0 spurious_start life_start = Some s \<and> lpc s = L_aborted"
    by (simp add: spurious_start_def run_defs numeral_eq_Suc)
  then show ?thesis using life_run_reachable life_reachable.start by blast
qed

theorem failed_add_frees_running_thread:
  "\<exists>s. life_reachable True False s \<and> misused s"
proof -
  have "\<exists>s. life_run True False 0 failed_add life_start = Some s \<and> misused s"
    by (simp add: failed_add_def run_defs numeral_eq_Suc)
  then show ?thesis using life_run_reachable life_reachable.start by blast
qed

end
