(* ===== verification/Cpu_Text.thy ===== *)
theory Cpu_Text
  imports Descriptors
begin

text \<open>
  The text functions of src/libuzi/cpu-features.c: reading files of unknown size, looking up fields of /proc/cpuinfo, words in
  lists, numbers, and lists of processors. The text between two pointers is a \<open>string\<close>; a pointer into it is what
  follows, or an offset where the code looks backwards.
\<close>

section \<open>Reading\<close>

text \<open>
  The results of successive calls of \<open>read\<close>: bytes, or a failure with its \<open>errno\<close>. No bytes, and the end of the list, are the end of the
  file. An open file is the list of results, a file that cannot be opened is \<open>None\<close>. Only the number of bytes matters to
  \<open>get_file_size\<close>, not how they are spread over the calls.
\<close>

datatype read_result = Bytes string | Failed int

abbreviation (input) EINTR_errno :: int where "EINTR_errno \<equiv> 4"

fun size_loop :: "read_result list \<Rightarrow> int \<Rightarrow> int" where
  "size_loop [] result = result"
| "size_loop (Failed e # rs) result = (if e = EINTR_errno then size_loop rs result else result)"
| "size_loop (Bytes cs # rs) result = (if cs = [] then result else size_loop rs (result + int (length cs)))"

definition get_file_size :: "read_result list option \<Rightarrow> int" where
  "get_file_size file = (case file of None \<Rightarrow> - 1 | Some rs \<Rightarrow> size_loop rs 0)"

fun read_loop :: "read_result list \<Rightarrow> nat \<Rightarrow> string \<Rightarrow> int \<times> string" where
  "read_loop [] buffsize buffer = (int (length buffer), buffer)"
| "read_loop (r # rs) buffsize buffer =
     (if length buffer < buffsize then
        (case r of
           Failed e \<Rightarrow>
             if e = EINTR_errno then read_loop rs buffsize buffer
             else (if buffer = [] then - 1 else int (length buffer), buffer)
         | Bytes cs \<Rightarrow>
             let got = take (buffsize - length buffer) cs in
             if got = [] then (int (length buffer), buffer) else read_loop rs buffsize (buffer @ got))
      else (int (length buffer), buffer))"

definition read_file :: "read_result list option \<Rightarrow> nat \<Rightarrow> int \<times> string" where
  "read_file file buffsize = (case file of None \<Rightarrow> (- 1, []) | Some rs \<Rightarrow> read_loop rs buffsize [])"

section \<open>Fields\<close>

abbreviation (input) NEWLINE :: char where "NEWLINE \<equiv> CHR 0x0A"
abbreviation (input) TAB :: char where "TAB \<equiv> CHR 0x09"

definition memmem :: "string \<Rightarrow> nat \<Rightarrow> string \<Rightarrow> nat option" where
  "memmem buffer p field = find (\<lambda>i. take (length field) (drop i buffer) = field) [p..<Suc (length buffer)]"

definition memchr :: "string \<Rightarrow> nat \<Rightarrow> char \<Rightarrow> nat option" where
  "memchr buffer p c = find (\<lambda>i. buffer ! i = c) [p..<length buffer]"

text \<open>The first loop of \<open>extract_cpuinfo_field\<close>: the field at the start of a line.\<close>

partial_function (option) field_line :: "string \<Rightarrow> string \<Rightarrow> nat \<Rightarrow> nat option option" where
  [code]: "field_line buffer field p =
     (case memmem buffer p field of
        None \<Rightarrow> Some None
      | Some i \<Rightarrow> if i = 0 \<or> buffer ! (i - 1) = NEWLINE then Some (Some i) else field_line buffer field (i + length field))"

text \<open>
  The value of a field, in a new block if \<open>malloc_ok\<close>; its users read it up to the first zero. The character after the colon is
  read without a test that there is one.
\<close>

definition c_string :: "string \<Rightarrow> string" where
  "c_string s = takeWhile (\<lambda>c. c \<noteq> CHR 0x00) s"

definition extract_cpuinfo_field :: "bool \<Rightarrow> string \<Rightarrow> string \<Rightarrow> string option outcome" where
  "extract_cpuinfo_field malloc_ok buffer field =
     (case field_line buffer field 0 of
        None \<Rightarrow> Blocks
      | Some None \<Rightarrow> Done None
      | Some (Some i) \<Rightarrow>
          (case memchr buffer (i + length field) CHR '':'' of
             None \<Rightarrow> Done None
           | Some p \<Rightarrow>
               if p + 1 \<ge> length buffer then Undefined
               else if buffer ! (p + 1) \<noteq> CHR '' '' then Done None
               else let p = p + 2; q = (case memchr buffer p NEWLINE of None \<Rightarrow> length buffer | Some q \<Rightarrow> q); len = q - p
                    in if \<not> malloc_ok then Done None else Done (Some (c_string (take len (drop p buffer))))))"

section \<open>Words\<close>

definition blank :: "char \<Rightarrow> bool" where
  "blank c \<longleftrightarrow> c = CHR '' '' \<or> c = TAB"

function item_loop :: "string \<Rightarrow> string \<Rightarrow> bool" where
  "item_loop p item =
     (if p = [] then False
      else let p = dropWhile blank p; q = dropWhile (\<lambda>c. \<not> blank c) p in
        if length item = length p - length q \<and> take (length item) p = item then True else item_loop q item)"
  by pat_completeness auto
termination
proof (relation "measure (\<lambda>(p, item). length p)")
  fix p item x xa :: string
  assume "p \<noteq> []" "x = dropWhile blank p" "xa = dropWhile (\<lambda>c. \<not> blank c) x"
  moreover have "length (dropWhile P ys) \<le> length ys" for P and ys :: string by (rule length_dropWhile_le)
  moreover have "length (dropWhile (\<lambda>c. \<not> blank c) (dropWhile blank p)) < length p" if "p \<noteq> []"
  proof (cases "blank (hd p)")
    case True
    then have "length (dropWhile blank p) < length p" using that length_dropWhile_le [of blank "tl p"] by (cases p) auto
    then show ?thesis using length_dropWhile_le order.strict_trans1 by metis
  next
    case False
    then show ?thesis using that length_dropWhile_le [of "\<lambda>c. \<not> blank c" "tl p"] by (cases p) auto
  qed
  ultimately show "((xa, item), p, item) \<in> measure (\<lambda>(p, item). length p)" by simp
qed simp

declare item_loop.simps [simp del]

definition has_list_item :: "string option \<Rightarrow> string \<Rightarrow> bool" where
  "has_list_item list item = (case list of None \<Rightarrow> False | Some p \<Rightarrow> item_loop p item)"

section \<open>Numbers\<close>

text \<open>The comparisons are unsigned: a negative difference is too large.\<close>

definition digit_of :: "char \<Rightarrow> int option" where
  "digit_of c =
     (let d = int (of_char c) - 48 in
      if \<not> (0 \<le> d \<and> d < 10) then
        (let d = int (of_char c) - 97;
             d = (if \<not> (0 \<le> d \<and> d < 6) then int (of_char c) - 65 else d)
         in if \<not> (0 \<le> d \<and> d < 6) then None else Some (d + 10))
      else Some d)"

text \<open>The value is kept in 32 bits; the sources ignore overflows.\<close>

fun number_loop :: "int \<Rightarrow> u32 \<Rightarrow> string \<Rightarrow> u32 \<times> string" where
  "number_loop base val [] = (val, [])"
| "number_loop base val (c # cs) =
     (case digit_of c of
        None \<Rightarrow> (val, c # cs)
      | Some d \<Rightarrow> if d \<ge> base then (val, c # cs) else number_loop base (val * word_of_int base + word_of_int d) cs)"

definition parse_number :: "int \<Rightarrow> string \<Rightarrow> (u32 \<times> string) option" where
  "parse_number base input = (let (val, p) = number_loop base 0 input in if length p = length input then None else Some (val, p))"

definition parse_decimal :: "string \<Rightarrow> (u32 \<times> string) option" where
  "parse_decimal input = parse_number 10 input"

definition parse_hexadecimal :: "string \<Rightarrow> (u32 \<times> string) option" where
  "parse_hexadecimal input = parse_number 16 input"

section \<open>Lists of processors\<close>

type_synonym CpuList = u32

definition cpulist_init :: CpuList where
  "cpulist_init = 0"

definition cpulist_and :: "CpuList \<Rightarrow> CpuList \<Rightarrow> CpuList" where
  "cpulist_and list1 list2 = list1 AND list2"

definition cpulist_set :: "int \<Rightarrow> CpuList \<Rightarrow> CpuList" where
  "cpulist_set index cpus = (if 0 \<le> index \<and> index < 32 then cpus OR push_bit (nat index) 1 else cpus)"

definition cpulist_count :: "CpuList \<Rightarrow> nat" where
  "cpulist_count cpus = length (filter (bit cpus) [0..<32])"

text \<open>The loop over a range; at the largest \<^verbatim>\<open>int\<close> the counter overflows.\<close>

function range_loop :: "int \<Rightarrow> int \<Rightarrow> CpuList \<Rightarrow> CpuList option" where
  "range_loop val end_value cpus =
     (if val \<le> end_value then
        (let cpus = cpulist_set val cpus in if val = 2147483647 then None else range_loop (val + 1) end_value cpus)
      else Some cpus)"
  by pat_completeness auto
termination
  by (relation "measure (\<lambda>(val, end_value, cpus). nat (end_value - val + 1))") auto

declare range_loop.simps [simp del]

function cpulist_parse :: "CpuList \<Rightarrow> string \<Rightarrow> CpuList option" where
  "cpulist_parse cpus p =
     (if p \<noteq> [] \<and> hd p \<noteq> NEWLINE then
        (let item = takeWhile (\<lambda>c. c \<noteq> CHR '','') p; q = drop (length item) p in
         case parse_decimal item of
           None \<Rightarrow> Some cpus
         | Some (start_value, r) \<Rightarrow>
             (case (if r \<noteq> [] \<and> hd r = CHR ''-'' then map_option fst (parse_decimal (tl r)) else Some start_value) of
                None \<Rightarrow> Some cpus
              | Some end_value \<Rightarrow>
                  (case range_loop (sint start_value) (sint end_value) cpus of
                     None \<Rightarrow> None
                   | Some cpus \<Rightarrow> cpulist_parse cpus (tl q))))
      else Some cpus)"
  by pat_completeness auto
termination
  by (relation "measure (\<lambda>(cpus, p). length p)") (auto simp: less_diff_conv)

declare cpulist_parse.simps [simp del]

definition cpulist_read_from :: "read_result list option \<Rightarrow> CpuList option" where
  "cpulist_read_from file =
     (let list = cpulist_init; (filelen, buffer) = read_file file 64 in
      if filelen < 0 then Some list else cpulist_parse list (take (nat filelen) buffer))"

definition get_cpu_count :: "read_result list option \<Rightarrow> read_result list option \<Rightarrow> nat option" where
  "get_cpu_count present possible =
     (case (cpulist_read_from present, cpulist_read_from possible) of
        (Some cpus_present, Some cpus_possible) \<Rightarrow> Some (cpulist_count (cpulist_and cpus_present cpus_possible))
      | _ \<Rightarrow> None)"

end
