(* ===== verification/Cpu_Features.thy ===== *)
theory Cpu_Features
  imports Cpu_Text Sysinfo
begin

text \<open>
  The detection of src/libuzi/cpu-features.c on Android and its users in src/libuzi/sysinfo.c: the sources of the capability bits, the
  features of every family of processors, the identity of an ARM processor, and the global variables behind the public functions.
\<close>

section \<open>Flags\<close>

text \<open>The enumerations of src/libuzi/cpu-features.h; a flag is one bit.\<close>

definition one_bit :: "nat \<Rightarrow> 'a::len word" where
  "one_bit n = push_bit n 1"

datatype AndroidCpuFamily = FAMILY_UNKNOWN | FAMILY_ARM | FAMILY_X86 | FAMILY_MIPS | FAMILY_ARM64 | FAMILY_X86_64 | FAMILY_MIPS64

fun family_value :: "AndroidCpuFamily \<Rightarrow> u64" where
  "family_value FAMILY_UNKNOWN = 0"
| "family_value FAMILY_ARM = 1"
| "family_value FAMILY_X86 = 2"
| "family_value FAMILY_MIPS = 3"
| "family_value FAMILY_ARM64 = 4"
| "family_value FAMILY_X86_64 = 5"
| "family_value FAMILY_MIPS64 = 6"

datatype ARM_FEATURE =
  ARMv7 | VFPv3 | NEON | LDREX_STREX | VFPv2 | VFP_D32 | VFP_FP16 | VFP_FMA | NEON_FMA | IDIV_ARM | IDIV_THUMB2 | iWMMXt
| AES | PMULL | SHA1 | SHA2 | CRC32

fun arm_flag :: "ARM_FEATURE \<Rightarrow> u64" where
  "arm_flag ARMv7 = one_bit 0"
| "arm_flag VFPv3 = one_bit 1"
| "arm_flag NEON = one_bit 2"
| "arm_flag LDREX_STREX = one_bit 3"
| "arm_flag VFPv2 = one_bit 4"
| "arm_flag VFP_D32 = one_bit 5"
| "arm_flag VFP_FP16 = one_bit 6"
| "arm_flag VFP_FMA = one_bit 7"
| "arm_flag NEON_FMA = one_bit 8"
| "arm_flag IDIV_ARM = one_bit 9"
| "arm_flag IDIV_THUMB2 = one_bit 10"
| "arm_flag iWMMXt = one_bit 11"
| "arm_flag AES = one_bit 12"
| "arm_flag PMULL = one_bit 13"
| "arm_flag SHA1 = one_bit 14"
| "arm_flag SHA2 = one_bit 15"
| "arm_flag CRC32 = one_bit 16"

datatype ARM64_FEATURE = ARM64_FP | ARM64_ASIMD | ARM64_AES | ARM64_PMULL | ARM64_SHA1 | ARM64_SHA2 | ARM64_CRC32

fun arm64_flag :: "ARM64_FEATURE \<Rightarrow> u64" where
  "arm64_flag ARM64_FP = one_bit 0"
| "arm64_flag ARM64_ASIMD = one_bit 1"
| "arm64_flag ARM64_AES = one_bit 2"
| "arm64_flag ARM64_PMULL = one_bit 3"
| "arm64_flag ARM64_SHA1 = one_bit 4"
| "arm64_flag ARM64_SHA2 = one_bit 5"
| "arm64_flag ARM64_CRC32 = one_bit 6"

datatype X86_FEATURE =
  X86_SSSE3 | X86_POPCNT | X86_MOVBE | X86_SSE4_1 | X86_SSE4_2 | X86_AES_NI | X86_AVX | X86_RDRAND | X86_AVX2 | X86_SHA_NI

fun x86_flag :: "X86_FEATURE \<Rightarrow> u64" where
  "x86_flag X86_SSSE3 = one_bit 0"
| "x86_flag X86_POPCNT = one_bit 1"
| "x86_flag X86_MOVBE = one_bit 2"
| "x86_flag X86_SSE4_1 = one_bit 3"
| "x86_flag X86_SSE4_2 = one_bit 4"
| "x86_flag X86_AES_NI = one_bit 5"
| "x86_flag X86_AVX = one_bit 6"
| "x86_flag X86_RDRAND = one_bit 7"
| "x86_flag X86_AVX2 = one_bit 8"
| "x86_flag X86_SHA_NI = one_bit 9"

datatype MIPS_FEATURE = MIPS_R6 | MIPS_MSA

fun mips_flag :: "MIPS_FEATURE \<Rightarrow> u64" where
  "mips_flag MIPS_R6 = one_bit 0"
| "mips_flag MIPS_MSA = one_bit 1"

text \<open>The capability bits of the kernel.\<close>

datatype ARM_HWCAP = HWCAP_VFP | HWCAP_IWMMXT | HWCAP_NEON | HWCAP_VFPv3 | HWCAP_VFPv3D16 | HWCAP_VFPv4 | HWCAP_IDIVA | HWCAP_IDIVT

fun arm_hwcap :: "ARM_HWCAP \<Rightarrow> u32" where
  "arm_hwcap HWCAP_VFP = one_bit 6"
| "arm_hwcap HWCAP_IWMMXT = one_bit 9"
| "arm_hwcap HWCAP_NEON = one_bit 12"
| "arm_hwcap HWCAP_VFPv3 = one_bit 13"
| "arm_hwcap HWCAP_VFPv3D16 = one_bit 14"
| "arm_hwcap HWCAP_VFPv4 = one_bit 16"
| "arm_hwcap HWCAP_IDIVA = one_bit 17"
| "arm_hwcap HWCAP_IDIVT = one_bit 18"

datatype ARM_HWCAP2 = HWCAP2_AES | HWCAP2_PMULL | HWCAP2_SHA1 | HWCAP2_SHA2 | HWCAP2_CRC32

fun arm_hwcap2 :: "ARM_HWCAP2 \<Rightarrow> u32" where
  "arm_hwcap2 HWCAP2_AES = one_bit 0"
| "arm_hwcap2 HWCAP2_PMULL = one_bit 1"
| "arm_hwcap2 HWCAP2_SHA1 = one_bit 2"
| "arm_hwcap2 HWCAP2_SHA2 = one_bit 3"
| "arm_hwcap2 HWCAP2_CRC32 = one_bit 4"

definition HWCAP_SET_FOR_ARMV8 :: u32 where
  "HWCAP_SET_FOR_ARMV8 = arm_hwcap HWCAP_VFP OR arm_hwcap HWCAP_NEON OR arm_hwcap HWCAP_VFPv3 OR arm_hwcap HWCAP_VFPv4 OR
     arm_hwcap HWCAP_IDIVA OR arm_hwcap HWCAP_IDIVT"

datatype ARM64_HWCAP =
  HWCAP_FP | HWCAP_ASIMD | HWCAP_AES | HWCAP_PMULL | HWCAP_SHA1 | HWCAP_SHA2 | HWCAP_CRC32

fun arm64_hwcap :: "ARM64_HWCAP \<Rightarrow> u32" where
  "arm64_hwcap HWCAP_FP = one_bit 0"
| "arm64_hwcap HWCAP_ASIMD = one_bit 1"
| "arm64_hwcap HWCAP_AES = one_bit 3"
| "arm64_hwcap HWCAP_PMULL = one_bit 4"
| "arm64_hwcap HWCAP_SHA1 = one_bit 5"
| "arm64_hwcap HWCAP_SHA2 = one_bit 6"
| "arm64_hwcap HWCAP_CRC32 = one_bit 7"

datatype MIPS_HWCAP = HWCAP_MIPS_R6 | HWCAP_MIPS_MSA

fun mips_hwcap :: "MIPS_HWCAP \<Rightarrow> u32" where
  "mips_hwcap HWCAP_MIPS_R6 = one_bit 0"
| "mips_hwcap HWCAP_MIPS_MSA = one_bit 1"

text \<open>\<^verbatim>\<open>if (cond) features |= flags\<close>\<close>

definition or_if :: "bool \<Rightarrow> 'a::len word \<Rightarrow> 'a word \<Rightarrow> 'a word" where
  "or_if cond flags features = (if cond then features OR flags else features)"

section \<open>Environment\<close>

text \<open>
  What the system answers: the processor the program is compiled for, two successive readings of /proc/cpuinfo, the two lists of
  processors, the results of \<open>malloc\<close> (for the whole text, and for the n-th field that is looked up), the C library
  (\<open>None\<close>: not opened; \<open>Some None\<close>: without \<^verbatim>\<open>getauxval\<close>), the entries of /proc/self/auxv (\<open>None\<close> in the list: a read that fails), and
  the registers \<^verbatim>\<open>eax\<close>, \<^verbatim>\<open>ebx\<close>, \<^verbatim>\<open>ecx\<close>, \<^verbatim>\<open>edx\<close> after the instruction \<^verbatim>\<open>cpuid\<close>.
\<close>

record cpu_env =
  target :: cpu
  cpuinfo_first :: "read_result list option"
  cpuinfo_second :: "read_result list option"
  present_file :: "read_result list option"
  possible_file :: "read_result list option"
  text_malloc :: bool
  field_malloc :: "nat \<Rightarrow> bool"
  libc :: "(u32 \<Rightarrow> u64) option option"
  self_auxv :: "(u32 \<times> u32) option list option"
  cpuid_regs :: "u32 \<Rightarrow> u32 \<times> u32 \<times> u32 \<times> u32"

abbreviation (input) AT_HWCAP :: u32 where "AT_HWCAP \<equiv> 16"
abbreviation (input) AT_HWCAP2 :: u32 where "AT_HWCAP2 \<equiv> 26"

definition x86_cpuid :: "cpu_env \<Rightarrow> u32 \<Rightarrow> u32 \<times> u32 \<times> u32 \<times> u32" where
  "x86_cpuid e func = cpuid_regs e func"

definition get_elf_hwcap_from_getauxval :: "cpu_env \<Rightarrow> u32 \<Rightarrow> u32" where
  "get_elf_hwcap_from_getauxval e hwcap_type =
     (case libc e of
        None \<Rightarrow> 0
      | Some func \<Rightarrow> (case func of None \<Rightarrow> 0 | Some f \<Rightarrow> ucast (f hwcap_type)))"

fun auxv_loop :: "(u32 \<times> u32) option list \<Rightarrow> u32" where
  "auxv_loop [] = 0"
| "auxv_loop (None # rs) = 0"
| "auxv_loop (Some (tag, val) # rs) =
     (if tag = 0 \<and> val = 0 then 0 else if tag = AT_HWCAP then val else auxv_loop rs)"

definition get_elf_hwcap_from_proc_self_auxv :: "cpu_env \<Rightarrow> u32" where
  "get_elf_hwcap_from_proc_self_auxv e = (case self_auxv e of None \<Rightarrow> 0 | Some rs \<Rightarrow> auxv_loop rs)"

text \<open>
  \<open>strtol\<close> in base 10 with a 32-bit result: blanks, a sign, digits; the value saturates. The second component tells whether a number was
  found.
\<close>

definition space :: "char \<Rightarrow> bool" where
  "space c \<longleftrightarrow> c \<in> {CHR '' '', CHR 0x09, CHR 0x0A, CHR 0x0B, CHR 0x0C, CHR 0x0D}"

definition decimal_digit :: "char \<Rightarrow> bool" where
  "decimal_digit c \<longleftrightarrow> 48 \<le> (of_char c :: nat) \<and> (of_char c :: nat) \<le> 57"

definition strtol10 :: "string \<Rightarrow> int \<times> bool" where
  "strtol10 s =
     (let s = dropWhile space s;
          negative = (s \<noteq> [] \<and> hd s = CHR ''-'');
          s = (if s \<noteq> [] \<and> (hd s = CHR ''-'' \<or> hd s = CHR ''+'') then tl s else s);
          digits = takeWhile decimal_digit s;
          n = foldl (\<lambda>n c. 10 * n + (int (of_char c) - 48)) 0 digits
      in (if negative then max (- 2147483648) (- n) else min 2147483647 n, digits \<noteq> []))"

definition get_elf_hwcap_from_proc_cpuinfo :: "cpu_env \<Rightarrow> string \<Rightarrow> u32 outcome" where
  "get_elf_hwcap_from_proc_cpuinfo e cpuinfo =
     and_then (extract_cpuinfo_field (field_malloc e 2) cpuinfo ''CPU architecture'') (\<lambda>cpuArch.
       if (case cpuArch of None \<Rightarrow> False | Some s \<Rightarrow> fst (strtol10 s) \<ge> 8) then Done HWCAP_SET_FOR_ARMV8
       else and_then (extract_cpuinfo_field (field_malloc e 3) cpuinfo ''Features'') (\<lambda>cpuFeatures.
         if cpuFeatures = None then Done 0
         else Done (fold (\<lambda>(item, flags) hwcaps. or_if (has_list_item cpuFeatures item) flags hwcaps)
           [(''vfp'', arm_hwcap HWCAP_VFP), (''vfpv3'', arm_hwcap HWCAP_VFPv3), (''vfpv3d16'', arm_hwcap HWCAP_VFPv3D16),
            (''vfpv4'', arm_hwcap HWCAP_VFPv4), (''neon'', arm_hwcap HWCAP_NEON), (''idiva'', arm_hwcap HWCAP_IDIVA),
            (''idivt'', arm_hwcap HWCAP_IDIVT), (''idiv'', arm_hwcap HWCAP_IDIVA OR arm_hwcap HWCAP_IDIVT),
            (''iwmmxt'', arm_hwcap HWCAP_IWMMXT)] 0)))"

section \<open>Features\<close>

text \<open>The architecture of an ARM processor.\<close>

definition arm_architecture :: "cpu_env \<Rightarrow> string \<Rightarrow> u64 outcome" where
  "arm_architecture e cpuinfo =
     and_then (extract_cpuinfo_field (field_malloc e 0) cpuinfo ''CPU architecture'') (\<lambda>cpuArch.
       case cpuArch of
         None \<Rightarrow> Done 0
       | Some s \<Rightarrow>
           (let (archNumber, found) = strtol10 s; hasARMv7 = (found \<and> archNumber \<ge> 7) in
            and_then
              (if hasARMv7 then
                 and_then (extract_cpuinfo_field (field_malloc e 1) cpuinfo ''Processor'')
                   (\<lambda>cpuProc. Done (\<not> has_list_item cpuProc ''(v6l)''))
               else Done False)
              (\<lambda>hasARMv7. Done (or_if (archNumber \<ge> 6) (arm_flag LDREX_STREX) (or_if hasARMv7 (arm_flag ARMv7) 0)))))"

definition arm_hwcaps :: "cpu_env \<Rightarrow> string \<Rightarrow> u32 outcome" where
  "arm_hwcaps e cpuinfo =
     (let hwcaps = get_elf_hwcap_from_getauxval e AT_HWCAP;
          hwcaps = (if hwcaps = 0 then get_elf_hwcap_from_proc_self_auxv e else hwcaps)
      in if hwcaps = 0 then get_elf_hwcap_from_proc_cpuinfo e cpuinfo else Done hwcaps)"

definition arm_add_hwcaps :: "u32 \<Rightarrow> u64 \<Rightarrow> u64" where
  "arm_add_hwcaps hwcaps features =
     (if hwcaps \<noteq> 0 then
        let has_vfp = (hwcaps AND arm_hwcap HWCAP_VFP \<noteq> 0);
            has_vfpv3 = (hwcaps AND arm_hwcap HWCAP_VFPv3 \<noteq> 0);
            has_vfpv3d16 = (hwcaps AND arm_hwcap HWCAP_VFPv3D16 \<noteq> 0);
            has_vfpv4 = (hwcaps AND arm_hwcap HWCAP_VFPv4 \<noteq> 0);
            has_neon = (hwcaps AND arm_hwcap HWCAP_NEON \<noteq> 0);
            has_idiva = (hwcaps AND arm_hwcap HWCAP_IDIVA \<noteq> 0);
            has_idivt = (hwcaps AND arm_hwcap HWCAP_IDIVT \<noteq> 0);
            has_iwmmxt = (hwcaps AND arm_hwcap HWCAP_IWMMXT \<noteq> 0);
            features = or_if has_vfpv4 (arm_flag VFPv3 OR arm_flag VFP_FP16 OR arm_flag VFP_FMA) features;
            features = or_if (has_vfpv3 \<or> has_vfpv3d16) (arm_flag VFPv3) features;
            features = (if has_vfp then
                          if features AND arm_flag ARMv7 \<noteq> 0 then features OR arm_flag VFPv3 else features OR arm_flag VFPv2
                        else features);
            features = (if has_neon then
                          or_if has_vfpv4 (arm_flag NEON_FMA) (features OR (arm_flag VFPv3 OR arm_flag NEON OR arm_flag VFP_D32))
                        else features);
            features = or_if (features AND arm_flag VFPv3 \<noteq> 0) (arm_flag VFPv2 OR arm_flag ARMv7) features;
            features = or_if has_idiva (arm_flag IDIV_ARM) features;
            features = or_if has_idivt (arm_flag IDIV_THUMB2) features
        in or_if has_iwmmxt (arm_flag iWMMXt) features
      else features)"

definition arm_add_hwcaps2 :: "u32 \<Rightarrow> u64 \<Rightarrow> u64" where
  "arm_add_hwcaps2 hwcaps2 features =
     (if hwcaps2 \<noteq> 0 then
        let features = or_if (hwcaps2 AND arm_hwcap2 HWCAP2_AES \<noteq> 0) (arm_flag AES) features;
            features = or_if (hwcaps2 AND arm_hwcap2 HWCAP2_PMULL \<noteq> 0) (arm_flag PMULL) features;
            features = or_if (hwcaps2 AND arm_hwcap2 HWCAP2_SHA1 \<noteq> 0) (arm_flag SHA1) features;
            features = or_if (hwcaps2 AND arm_hwcap2 HWCAP2_SHA2 \<noteq> 0) (arm_flag SHA2) features
        in or_if (hwcaps2 AND arm_hwcap2 HWCAP2_CRC32 \<noteq> 0) (arm_flag CRC32) features
      else features)"

text \<open>The identity of an ARM processor is put together from fields: name, whether hexadecimal, position and length in bits.\<close>

definition cpu_id_entries :: "(string \<times> bool \<times> nat \<times> nat) list" where
  "cpu_id_entries =
     [(''CPU implementer'', True, 24, 8), (''CPU variant'', True, 20, 4), (''CPU part'', True, 4, 12), (''CPU revision'', False, 0, 4)]"

text \<open>The number in a field. With the prefix \<^verbatim>\<open>0x\<close> at least one digit has to follow.\<close>

definition cpu_id_number :: "bool \<Rightarrow> string \<Rightarrow> u32 option" where
  "cpu_id_number hexadecimal val =
     map_option fst
       (if take 2 val = ''0x'' \<or> take 2 val = ''0X'' then parse_hexadecimal (drop 2 val)
        else if hexadecimal then parse_hexadecimal val
        else parse_decimal val)"

fun cpu_id_loop :: "cpu_env \<Rightarrow> string \<Rightarrow> nat \<Rightarrow> (string \<times> bool \<times> nat \<times> nat) list \<Rightarrow> u32 \<Rightarrow> u32 outcome" where
  "cpu_id_loop e cpuinfo i [] cpuIdArm = Done cpuIdArm"
| "cpu_id_loop e cpuinfo i ((field, hexadecimal, bit_lshift, bit_length) # entries) cpuIdArm =
     and_then (extract_cpuinfo_field (field_malloc e i) cpuinfo field) (\<lambda>val.
       cpu_id_loop e cpuinfo (i + 1) entries
         (case Option.bind val (cpu_id_number hexadecimal) of
            None \<Rightarrow> cpuIdArm
          | Some val \<Rightarrow> cpuIdArm OR push_bit bit_lshift (val AND mask bit_length)))"

definition cpu_fixes :: "(u32 \<times> u64) list" where
  "cpu_fixes =
     [(0x510006f2, arm_flag IDIV_ARM OR arm_flag IDIV_THUMB2), (0x510006f3, arm_flag IDIV_ARM OR arm_flag IDIV_THUMB2)]"

definition apply_cpu_fixes :: "u32 \<Rightarrow> u64 \<Rightarrow> u64" where
  "apply_cpu_fixes cpuIdArm features = fold (\<lambda>(cpuid, or_flags) features. or_if (cpuIdArm = cpuid) or_flags features) cpu_fixes features"

text \<open>The third test reads the family, not the features.\<close>

definition goldfish_fix :: "AndroidCpuFamily \<Rightarrow> u32 \<Rightarrow> string option \<Rightarrow> u64 \<Rightarrow> u64" where
  "goldfish_fix cpuFamily cpuIdArm hardware features =
     or_if (hardware = Some ''Goldfish'' \<and> cpuIdArm = 0x4100c080 \<and> family_value cpuFamily AND arm_flag ARMv7 \<noteq> 0)
       (arm_flag IDIV_ARM) features"

text \<open>The features of a 64-bit ARM, an Intel and a MIPS processor.\<close>

definition arm64_features :: "u32 \<Rightarrow> u64" where
  "arm64_features hwcaps =
     (if hwcaps \<noteq> 0 then
        let features = or_if (hwcaps AND arm64_hwcap HWCAP_FP \<noteq> 0) (arm64_flag ARM64_FP) 0;
            features = or_if (hwcaps AND arm64_hwcap HWCAP_ASIMD \<noteq> 0) (arm64_flag ARM64_ASIMD) features;
            features = or_if (hwcaps AND arm64_hwcap HWCAP_AES \<noteq> 0) (arm64_flag ARM64_AES) features;
            features = or_if (hwcaps AND arm64_hwcap HWCAP_PMULL \<noteq> 0) (arm64_flag ARM64_PMULL) features;
            features = or_if (hwcaps AND arm64_hwcap HWCAP_SHA1 \<noteq> 0) (arm64_flag ARM64_SHA1) features;
            features = or_if (hwcaps AND arm64_hwcap HWCAP_SHA2 \<noteq> 0) (arm64_flag ARM64_SHA2) features
        in or_if (hwcaps AND arm64_hwcap HWCAP_CRC32 \<noteq> 0) (arm64_flag ARM64_CRC32) features
      else 0)"

definition x86_features :: "cpu_env \<Rightarrow> u64" where
  "x86_features e =
     (let (a, b, c, d) = x86_cpuid e 0;
          vendorIsIntel = (b = 0x756e6547 \<and> c = 0x6c65746e \<and> d = 0x49656e69);
          (a, b, c, d) = x86_cpuid e 1;
          features = or_if (c AND one_bit 9 \<noteq> 0) (x86_flag X86_SSSE3) 0;
          features = or_if (c AND one_bit 23 \<noteq> 0) (x86_flag X86_POPCNT) features;
          features = or_if (c AND one_bit 19 \<noteq> 0) (x86_flag X86_SSE4_1) features;
          features = or_if (c AND one_bit 20 \<noteq> 0) (x86_flag X86_SSE4_2) features;
          features = or_if (vendorIsIntel \<and> c AND one_bit 22 \<noteq> 0) (x86_flag X86_MOVBE) features;
          features = or_if (c AND one_bit 25 \<noteq> 0) (x86_flag X86_AES_NI) features;
          features = or_if (c AND one_bit 28 \<noteq> 0) (x86_flag X86_AVX) features;
          features = or_if (c AND one_bit 30 \<noteq> 0) (x86_flag X86_RDRAND) features;
          (a, b, c, d) = x86_cpuid e 7;
          features = or_if (b AND one_bit 5 \<noteq> 0) (x86_flag X86_AVX2) features
      in or_if (b AND one_bit 29 \<noteq> 0) (x86_flag X86_SHA_NI) features)"

definition mips_features :: "u32 \<Rightarrow> u64" where
  "mips_features hwcaps =
     (if hwcaps \<noteq> 0 then
        or_if (hwcaps AND mips_hwcap HWCAP_MIPS_MSA \<noteq> 0) (mips_flag MIPS_MSA)
          (or_if (hwcaps AND mips_hwcap HWCAP_MIPS_R6 \<noteq> 0) (mips_flag MIPS_R6) 0)
      else 0)"

section \<open>Initialisation\<close>

text \<open>The global variables. \<open>g_once\<close> is true once \<^verbatim>\<open>pthread_once\<close> has called a function.\<close>

record cpu_state =
  g_once :: bool
  g_inited :: bool
  g_cpuFamily :: AndroidCpuFamily
  g_cpuFeatures :: u64
  g_cpuCount :: int
  g_cpuIdArm :: u32

definition cpu_state_start :: cpu_state where
  "cpu_state_start = \<lparr>g_once = False, g_inited = False, g_cpuFamily = FAMILY_UNKNOWN, g_cpuFeatures = 0, g_cpuCount = 0, g_cpuIdArm = 0\<rparr>"

fun family_of :: "cpu \<Rightarrow> AndroidCpuFamily" where
  "family_of M_ARM = FAMILY_ARM"
| "family_of M_IX86 = FAMILY_X86"
| "family_of M_MIPS64 = FAMILY_MIPS64"
| "family_of M_MIPS = FAMILY_MIPS"
| "family_of M_ARM64 = FAMILY_ARM64"
| "family_of M_AMD64 = FAMILY_X86_64"
| "family_of M_PPC = FAMILY_UNKNOWN"
| "family_of M_ALPHA = FAMILY_UNKNOWN"
| "family_of M_other = FAMILY_UNKNOWN"

definition android_cpuInitFamily :: "cpu_env \<Rightarrow> cpu_state \<Rightarrow> cpu_state" where
  "android_cpuInitFamily e g = g\<lparr>g_cpuFamily := family_of (target e)\<rparr>"

definition android_cpuInit_arm :: "cpu_env \<Rightarrow> string \<Rightarrow> cpu_state \<Rightarrow> cpu_state outcome" where
  "android_cpuInit_arm e cpuinfo g =
     and_then (arm_architecture e cpuinfo) (\<lambda>arch.
     and_then (arm_hwcaps e cpuinfo) (\<lambda>hwcaps.
     let features = arm_add_hwcaps hwcaps (g_cpuFeatures g OR arch);
         features = arm_add_hwcaps2 (get_elf_hwcap_from_getauxval e AT_HWCAP2) features
     in and_then (cpu_id_loop e cpuinfo 4 cpu_id_entries (g_cpuIdArm g)) (\<lambda>cpuIdArm.
     let features = apply_cpu_fixes cpuIdArm features
     in and_then (extract_cpuinfo_field (field_malloc e 8) cpuinfo ''Hardware'') (\<lambda>hardware.
     Done (g\<lparr>g_cpuIdArm := cpuIdArm, g_cpuFeatures := goldfish_fix (g_cpuFamily g) cpuIdArm hardware features\<rparr>)))))"

definition android_cpuInit :: "cpu_env \<Rightarrow> cpu_state \<Rightarrow> cpu_state outcome" where
  "android_cpuInit e g =
     (let g = (android_cpuInitFamily e g)\<lparr>g_cpuFeatures := 0, g_cpuCount := 1, g_inited := True\<rparr>;
          cpuinfo_len = get_file_size (cpuinfo_first e)
      in if cpuinfo_len < 0 then Done g
         else if \<not> text_malloc e then Done g
         else let (cpuinfo_len, cpuinfo) = read_file (cpuinfo_second e) (nat cpuinfo_len) in
           if cpuinfo_len < 0 then Done g
           else case get_cpu_count (present_file e) (possible_file e) of
             None \<Rightarrow> Undefined
           | Some n \<Rightarrow>
               let g = g\<lparr>g_cpuCount := if n = 0 then 1 else int n\<rparr> in
               case target e of
                 M_ARM \<Rightarrow> android_cpuInit_arm e cpuinfo g
               | M_ARM64 \<Rightarrow> Done (g\<lparr>g_cpuFeatures := arm64_features (get_elf_hwcap_from_getauxval e AT_HWCAP)\<rparr>)
               | M_IX86 \<Rightarrow> Done (g\<lparr>g_cpuFeatures := x86_features e\<rparr>)
               | M_AMD64 \<Rightarrow> Done (g\<lparr>g_cpuFeatures := x86_features e\<rparr>)
               | M_MIPS \<Rightarrow> Done (g\<lparr>g_cpuFeatures := mips_features (get_elf_hwcap_from_getauxval e AT_HWCAP)\<rparr>)
               | M_MIPS64 \<Rightarrow> Done (g\<lparr>g_cpuFeatures := mips_features (get_elf_hwcap_from_getauxval e AT_HWCAP)\<rparr>)
               | _ \<Rightarrow> Done g)"

section \<open>Public functions\<close>

definition call_once :: "(cpu_state \<Rightarrow> cpu_state outcome) \<Rightarrow> cpu_state \<Rightarrow> cpu_state outcome" where
  "call_once f g = (if g_once g then Done g else and_then (f g) (\<lambda>g. Done (g\<lparr>g_once := True\<rparr>)))"

definition android_getCpuFamily :: "cpu_env \<Rightarrow> cpu_state \<Rightarrow> (AndroidCpuFamily \<times> cpu_state) outcome" where
  "android_getCpuFamily e g = and_then (call_once (android_cpuInit e) g) (\<lambda>g. Done (g_cpuFamily g, g))"

definition android_getCpuFeatures :: "cpu_env \<Rightarrow> cpu_state \<Rightarrow> (u64 \<times> cpu_state) outcome" where
  "android_getCpuFeatures e g = and_then (call_once (android_cpuInit e) g) (\<lambda>g. Done (g_cpuFeatures g, g))"

definition android_getCpuCount :: "cpu_env \<Rightarrow> cpu_state \<Rightarrow> (int \<times> cpu_state) outcome" where
  "android_getCpuCount e g = and_then (call_once (android_cpuInit e) g) (\<lambda>g. Done (g_cpuCount g, g))"

definition android_cpuInitDummy :: "cpu_state \<Rightarrow> cpu_state outcome" where
  "android_cpuInitDummy g = Done (g\<lparr>g_inited := True\<rparr>)"

definition android_setCpu :: "cpu_env \<Rightarrow> int \<Rightarrow> u64 \<Rightarrow> cpu_state \<Rightarrow> (int \<times> cpu_state) outcome" where
  "android_setCpu e cpu_count cpu_features g =
     (if g_inited g then Done (0, g)
      else let g = (android_cpuInitFamily e g)\<lparr>g_cpuCount := if cpu_count \<le> 0 then 1 else cpu_count, g_cpuFeatures := cpu_features\<rparr>
        in and_then (call_once android_cpuInitDummy g) (\<lambda>g. Done (1, g)))"

definition android_getCpuIdArm :: "cpu_env \<Rightarrow> cpu_state \<Rightarrow> (u32 \<times> cpu_state) outcome" where
  "android_getCpuIdArm e g = and_then (call_once (android_cpuInit e) g) (\<lambda>g. Done (g_cpuIdArm g, g))"

definition android_setCpuArm :: "cpu_env \<Rightarrow> int \<Rightarrow> u64 \<Rightarrow> u32 \<Rightarrow> cpu_state \<Rightarrow> (int \<times> cpu_state) outcome" where
  "android_setCpuArm e cpu_count cpu_features cpu_id g =
     and_then (android_setCpu e cpu_count cpu_features g) (\<lambda>(r, g).
       if r = 0 then Done (0, g) else Done (1, g\<lparr>g_cpuIdArm := cpu_id\<rparr>))"

text \<open>The branches of src/libuzi/sysinfo.c for Android.\<close>

fun architecture_of_family :: "AndroidCpuFamily \<Rightarrow> DWORD" where
  "architecture_of_family FAMILY_ARM = 5"
| "architecture_of_family FAMILY_X86 = 0"
| "architecture_of_family FAMILY_MIPS = 1"
| "architecture_of_family FAMILY_ARM64 = 12"
| "architecture_of_family FAMILY_X86_64 = 9"
| "architecture_of_family FAMILY_MIPS64 = 13"
| "architecture_of_family FAMILY_UNKNOWN = 0xFFFF"

definition GetProcessorArchitecture_android :: "cpu_env \<Rightarrow> cpu_state \<Rightarrow> (DWORD \<times> cpu_state) outcome" where
  "GetProcessorArchitecture_android e g = and_then (android_getCpuFamily e g) (\<lambda>(family, g). Done (architecture_of_family family, g))"

definition GetNumberOfProcessors_android :: "cpu_env \<Rightarrow> cpu_state \<Rightarrow> (DWORD \<times> cpu_state) outcome" where
  "GetNumberOfProcessors_android e g = and_then (android_getCpuCount e g) (\<lambda>(n, g). Done (word_of_int n, g))"

definition IsProcessorFeaturePresent_android :: "cpu_env \<Rightarrow> DWORD \<Rightarrow> cpu_state \<Rightarrow> (u64 \<times> cpu_state) outcome" where
  "IsProcessorFeaturePresent_android e f g =
     and_then (android_getCpuFeatures e g) (\<lambda>(features, g).
       Done (if f = 19 \<or> f = 0x8000001B then features AND arm_flag NEON else 0, g))"

end
