(* ===== verification/Cpu_Text_Correct.thy ===== *)
theory Cpu_Text_Correct
  imports Cpu_Text
begin

text \<open>
  What the text functions of src/libuzi/cpu-features.c compute: \<open>has_list_item\<close> is membership in the list of words, \<open>cpulist_parse\<close> reads
  back every printed list of processors, the number of processors is that of the intersection of two lists read from files, and a
  lookup in /proc/cpuinfo finds the first row with the key.
\<close>

section \<open>Words\<close>

text \<open>A reference splitter, one character at a time; \<open>w\<close> is the word read so far.\<close>

fun words_from :: "string \<Rightarrow> string \<Rightarrow> string list" where
  "words_from w [] = (if w = [] then [] else [w])"
| "words_from w (c # cs) =
     (if blank c then (if w = [] then [] else [w]) @ words_from [] cs else words_from (w @ [c]) cs)"

abbreviation words :: "string \<Rightarrow> string list" where
  "words \<equiv> words_from []"

lemma words_skip_blanks: "words (dropWhile blank p) = words p"
  by (induction p) auto

lemma words_from_word:
  "words_from w p = (if w = [] \<and> takeWhile (\<lambda>c. \<not> blank c) p = [] then [] else [w @ takeWhile (\<lambda>c. \<not> blank c) p]) @
     words (dropWhile (\<lambda>c. \<not> blank c) p)"
  by (induction w p rule: words_from.induct) auto

lemma words_unfold:
  assumes "dropWhile blank p \<noteq> []"
  shows "words p = takeWhile (\<lambda>c. \<not> blank c) (dropWhile blank p) # words (dropWhile (\<lambda>c. \<not> blank c) (dropWhile blank p))"
    and "takeWhile (\<lambda>c. \<not> blank c) (dropWhile blank p) \<noteq> []"
proof -
  show ne: "takeWhile (\<lambda>c. \<not> blank c) (dropWhile blank p) \<noteq> []"
    using assms hd_dropWhile [OF assms] by (cases "dropWhile blank p") auto
  show "words p = takeWhile (\<lambda>c. \<not> blank c) (dropWhile blank p) # words (dropWhile (\<lambda>c. \<not> blank c) (dropWhile blank p))"
    using words_from_word [of "[]" "dropWhile blank p"] ne by (simp add: words_skip_blanks)
qed

lemma words_nonempty: "[] \<notin> set (words_from w p)"
  by (induction w p rule: words_from.induct) auto

lemma item_test:
  "length item = length p - length (dropWhile Q p) \<and> take (length item) p = item \<longleftrightarrow> item = takeWhile (\<lambda>c. Q c) p"
proof -
  have "length p - length (dropWhile Q p) = length (takeWhile Q p)"
    by (metis add_diff_cancel_right' length_append takeWhile_dropWhile_id)
  then show ?thesis by (metis takeWhile_eq_take)
qed

lemma last_dropWhile: "dropWhile Q p \<noteq> [] \<Longrightarrow> last (dropWhile Q p) = last p"
  by (metis last_appendR takeWhile_dropWhile_id)

lemma item_loop_words: "item_loop p item \<longleftrightarrow> item \<in> set (words p) \<or> item = [] \<and> p \<noteq> [] \<and> blank (last p)"
proof (induction p item rule: item_loop.induct)
  case (1 p item)
  let ?p = "dropWhile blank p" and ?q = "dropWhile (\<lambda>c. \<not> blank c) (dropWhile blank p)"
  consider "p = []" | "p \<noteq> []" "?p = []" | "p \<noteq> []" "?p \<noteq> []" by blast
  then show ?case
  proof cases
    case 1
    then show ?thesis by (simp add: item_loop.simps)
  next
    case 2
    have "words p = []" using words_skip_blanks [of p] 2 by simp
    moreover have "blank (last p)" using 2 by (simp add: dropWhile_eq_Nil_conv)
    moreover have "item_loop p item \<longleftrightarrow> item = []"
      by (subst item_loop.simps, simp only: 2 Let_def) (simp add: item_loop.simps [of "[]" item])
    ultimately show ?thesis using 2 by simp
  next
    case 3
    have unfold: "item_loop p item \<longleftrightarrow> item = takeWhile (\<lambda>c. \<not> blank c) ?p \<or> item_loop ?q item"
      using item_loop.simps [of p item] 3 item_test [of item ?p "\<lambda>c. \<not> blank c"] by (auto simp: Let_def)
    have last: "?q \<noteq> [] \<and> blank (last ?q) \<longleftrightarrow> blank (last p)"
    proof (cases "?q = []")
      case True
      then have "\<not> blank (last ?p)" using 3 by (metis dropWhile_eq_Nil_conv last_in_set)
      then show ?thesis using True 3 last_dropWhile [of blank p] by simp
    next
      case False
      then show ?thesis using 3 last_dropWhile by metis
    qed
    show ?thesis
    proof (cases "item = takeWhile (\<lambda>c. \<not> blank c) ?p")
      case True
      then show ?thesis using unfold words_unfold [OF 3(2)] by simp
    next
      case False
      then have "\<not> (length item = length ?p - length ?q \<and> take (length item) ?p = item)" using item_test by metis
      from 1 [OF 3(1) refl refl this] show ?thesis using unfold words_unfold [OF 3(2)] False 3(1) last by auto
    qed
  qed
qed

lemma has_list_item_iff: "item \<noteq> [] \<Longrightarrow> has_list_item (Some s) item \<longleftrightarrow> item \<in> set (words s)"
  by (simp add: has_list_item_def item_loop_words)

text \<open>
  \<open>has_list_item\<close> finds exactly the words of the list, where words are separated by any number of blanks and tabs. The empty item is
  found exactly in lists that end with a blank. In an absent list nothing is found.
\<close>

theorem has_list_item_words:
  "(has_list_item (Some s) item \<longleftrightarrow> item \<in> set (words s) \<or> item = [] \<and> s \<noteq> [] \<and> blank (last s)) \<and> \<not> has_list_item None item"
  by (simp add: has_list_item_def item_loop_words)

section \<open>Decimal numbers\<close>

fun show_nat :: "nat \<Rightarrow> string" where
  "show_nat n = (if n < 10 then [char_of (48 + n)] else show_nat (n div 10) @ [char_of (48 + n mod 10)])"

declare show_nat.simps [simp del]

lemma digit_of_char: "d < 10 \<Longrightarrow> digit_of (char_of (48 + d)) = Some (int d)"
  by (simp add: digit_of_def)

definition stops :: "string \<Rightarrow> bool" where
  "stops rest \<longleftrightarrow> (case rest of [] \<Rightarrow> True | c # _ \<Rightarrow> (case digit_of c of None \<Rightarrow> True | Some d \<Rightarrow> d \<ge> 10))"

lemma number_loop_stops: "stops rest \<Longrightarrow> number_loop 10 val rest = (val, rest)"
  by (auto simp: stops_def split: list.splits option.splits)

lemma number_loop_show: "number_loop 10 0 (show_nat n @ rest) = number_loop 10 (word_of_nat n) rest"
proof (induction n arbitrary: rest rule: show_nat.induct)
  case (1 n)
  show ?case
  proof (cases "n < 10")
    case True
    then show ?thesis by (simp add: show_nat.simps [of n] digit_of_char)
  next
    case False
    have "number_loop 10 0 (show_nat n @ rest) = number_loop 10 (word_of_nat (n div 10)) (char_of (48 + n mod 10) # rest)"
      using 1 [OF False, of "char_of (48 + n mod 10) # rest"] False by (simp add: show_nat.simps [of n])
    also have "\<dots> = number_loop 10 (word_of_nat (n div 10) * 10 + word_of_nat (n mod 10)) rest"
      using mod_less_divisor [of 10 n] by (simp add: digit_of_char not_le del: of_nat_mod mod_less_divisor)
    also have "word_of_nat (n div 10) * 10 + word_of_nat (n mod 10) = (word_of_nat n :: u32)"
      by (metis div_mult_mod_eq of_nat_add of_nat_mult of_nat_numeral)
    finally show ?thesis .
  qed
qed

lemma show_nat_nonempty [simp]: "show_nat n \<noteq> []"
  by (simp add: show_nat.simps [of n])

lemma parse_decimal_show: "stops rest \<Longrightarrow> parse_decimal (show_nat n @ rest) = Some (word_of_nat n, rest)"
  by (simp add: parse_decimal_def parse_number_def number_loop_show number_loop_stops)

lemma show_nat_digits: "c \<in> set (show_nat n) \<Longrightarrow> \<exists>d<10. c = char_of (48 + d :: nat)"
proof (induction n rule: show_nat.induct)
  case (1 n)
  show ?case
  proof (cases "n < 10")
    case True
    then have "c = char_of (48 + n)" using 1(2) show_nat.simps [of n] by simp
    then show ?thesis using True by blast
  next
    case False
    then have "c \<in> set (show_nat (n div 10)) \<or> c = char_of (48 + n mod 10)" using 1(2) show_nat.simps [of n] by auto
    moreover have "n mod 10 < 10" by simp
    ultimately show ?thesis using 1(1) [OF False] by blast
  qed
qed

lemma digits_no_separator:
  assumes "d < 10"
  shows "char_of (48 + d :: nat) \<noteq> CHR '',''" "char_of (48 + d :: nat) \<noteq> CHR ''-''" "char_of (48 + d :: nat) \<noteq> NEWLINE"
  using assms by (auto dest!: arg_cong [where f = "of_char :: char \<Rightarrow> nat"])

lemma sint_of_nat_small: "n < 2147483648 \<Longrightarrow> sint (word_of_nat n :: u32) = int n"
  using sint_word_of_int_small [of "int n"] by simp

lemma show_nat_no_separator:
  "CHR '','' \<notin> set (show_nat n)" "CHR ''-'' \<notin> set (show_nat n)" "NEWLINE \<notin> set (show_nat n)"
  using show_nat_digits digits_no_separator by metis+

section \<open>Lists of processors\<close>

text \<open>Printed lists: single numbers and ranges, separated by commas.\<close>

datatype cpu_item = Single nat | Range nat nat

fun show_item :: "cpu_item \<Rightarrow> string" where
  "show_item (Single n) = show_nat n"
| "show_item (Range a b) = show_nat a @ CHR ''-'' # show_nat b"

fun show_items :: "cpu_item list \<Rightarrow> string" where
  "show_items [] = []"
| "show_items [x] = show_item x"
| "show_items (x # y # zs) = show_item x @ CHR '','' # show_items (y # zs)"

fun item_cpus :: "cpu_item \<Rightarrow> nat set" where
  "item_cpus (Single n) = {n}"
| "item_cpus (Range a b) = {a..b}"

fun item_fits :: "cpu_item \<Rightarrow> bool" where
  "item_fits (Single n) \<longleftrightarrow> n < 2147483647"
| "item_fits (Range a b) \<longleftrightarrow> a < 2147483648 \<and> b < 2147483647"

abbreviation items_cpus :: "cpu_item list \<Rightarrow> nat set" where
  "items_cpus items \<equiv> \<Union> (item_cpus ` set items)"

text \<open>\<open>cpus'\<close> is \<open>cpus\<close> and the processors in \<open>S\<close>.\<close>

definition adds :: "CpuList \<Rightarrow> nat set \<Rightarrow> CpuList \<Rightarrow> bool" where
  "adds cpus S cpus' \<longleftrightarrow> (\<forall>i<32. bit cpus' i \<longleftrightarrow> bit cpus i \<or> i \<in> S)"

lemma adds_refl: "adds cpus {} cpus"
  by (simp add: adds_def)

lemma adds_trans: "adds c S c' \<Longrightarrow> adds c' T c'' \<Longrightarrow> adds c (S \<union> T) c''"
  by (auto simp: adds_def)

lemma bit_cpulist_set: "i < 32 \<Longrightarrow> bit (cpulist_set v cpus) i \<longleftrightarrow> bit cpus i \<or> v = int i"
  by (auto simp: cpulist_set_def bit_simps)

lemma range_loop_sets:
  assumes "last_cpu < 2147483647"
  shows "\<exists>c. range_loop v last_cpu cpus = Some c \<and> (\<forall>i<32. bit c i \<longleftrightarrow> bit cpus i \<or> v \<le> int i \<and> int i \<le> last_cpu)"
  using assms
proof (induction v last_cpu cpus rule: range_loop.induct)
  case (1 v last_cpu cpus)
  show ?case
  proof (cases "v \<le> last_cpu")
    case True
    then have "v \<noteq> 2147483647" using "1.prems" by simp
    with 1 True obtain c where c: "range_loop (v + 1) last_cpu (cpulist_set v cpus) = Some c"
      "\<forall>i<32. bit c i \<longleftrightarrow> bit (cpulist_set v cpus) i \<or> v + 1 \<le> int i \<and> int i \<le> last_cpu" by blast
    then have "\<forall>i<32. bit c i \<longleftrightarrow> bit cpus i \<or> v \<le> int i \<and> int i \<le> last_cpu"
      using True by (auto simp: bit_cpulist_set)
    then show ?thesis using c(1) True \<open>v \<noteq> 2147483647\<close> by (simp add: range_loop.simps [of v])
  next
    case False
    then show ?thesis by (auto simp: range_loop.simps [of v])
  qed
qed

lemma range_loop_adds:
  assumes "a < 2147483648" "b < 2147483647"
  shows "\<exists>c. range_loop (sint (word_of_nat a :: u32)) (sint (word_of_nat b :: u32)) cpus = Some c \<and> adds cpus {a..b} c"
  using range_loop_sets [of "int b" "int a" cpus] assms by (auto simp: sint_of_nat_small adds_def)

lemma stops_tail [simp]: "t = [] \<or> t = [NEWLINE] \<Longrightarrow> stops t" "stops (CHR ''-'' # t)"
  by (auto simp: stops_def digit_of_def)

lemma show_item_chars: "CHR '','' \<notin> set (show_item x)"
  by (cases x) (simp_all add: show_nat_no_separator)

lemma show_item_hd: "show_item x \<noteq> [] \<and> hd (show_item x @ zs) \<noteq> NEWLINE"
proof -
  have "hd (show_nat n @ zs) \<in> set (show_nat n)" for n zs by (cases "show_nat n") (use show_nat_nonempty in auto)
  then have "hd (show_nat n @ zs) \<noteq> NEWLINE" for n zs using show_nat_no_separator(3) by metis
  then show ?thesis by (cases x) (simp_all add: append_assoc [symmetric] del: append_assoc)
qed

text \<open>One round of the loop.\<close>

lemma cpulist_parse_item:
  assumes "item_fits x" and t: "t = [] \<or> t = [NEWLINE]" and q: "q = [] \<or> hd q = CHR '',''"
  shows "\<exists>c. cpulist_parse cpus (show_item x @ t @ q) = cpulist_parse c (tl q) \<and> adds cpus (item_cpus x) c"
proof -
  let ?p = "show_item x @ t @ q"
  have "CHR '','' \<notin> set (show_item x @ t)" using t show_item_chars [of x] by auto
  then have item: "takeWhile (\<lambda>c. c \<noteq> CHR '','') ?p = show_item x @ t"
    using q by (cases q) (auto simp: takeWhile_append)
  have start: "?p \<noteq> [] \<and> hd ?p \<noteq> NEWLINE" using show_item_hd [of x "t @ q"] by blast
  note step = cpulist_parse.simps [of cpus ?p, unfolded item Let_def if_P [OF start]]
  show ?thesis
  proof (cases x)
    case (Single n)
    obtain c where "range_loop (sint (word_of_nat n :: u32)) (sint (word_of_nat n :: u32)) cpus = Some c" "adds cpus {n..n} c"
      using range_loop_adds [of n n cpus] assms(1) Single by auto
    then show ?thesis using step Single t by (auto simp: parse_decimal_show)
  next
    case (Range a b)
    obtain c where "range_loop (sint (word_of_nat a :: u32)) (sint (word_of_nat b :: u32)) cpus = Some c" "adds cpus {a..b} c"
      using range_loop_adds [of a b cpus] assms(1) Range by auto
    then show ?thesis using step Range t by (auto simp: parse_decimal_show)
  qed
qed

lemma cpulist_parse_Nil [simp]: "cpulist_parse cpus [] = Some cpus"
  by (simp add: cpulist_parse.simps)

lemma cpulist_parse_items:
  assumes "\<forall>x\<in>set items. item_fits x" and t: "t = [] \<or> t = [NEWLINE]"
  shows "\<exists>c. cpulist_parse cpus (show_items items @ t) = Some c \<and> adds cpus (items_cpus items) c"
  using assms(1)
proof (induction items arbitrary: cpus rule: show_items.induct)
  case 1
  then show ?case using t by (auto simp: cpulist_parse.simps adds_refl)
next
  case (2 x)
  then show ?case using cpulist_parse_item [of x t "[]" cpus] t by auto
next
  case (3 x y zs)
  obtain c where c: "cpulist_parse cpus (show_items (x # y # zs) @ t) = cpulist_parse c (show_items (y # zs) @ t)"
    "adds cpus (item_cpus x) c"
    using cpulist_parse_item [of x "[]" "CHR '','' # show_items (y # zs) @ t" cpus] 3(2) by auto
  obtain c' where "cpulist_parse c (show_items (y # zs) @ t) = Some c'" "adds c (items_cpus (y # zs)) c'"
    using 3(1) [of c] 3(2) by auto
  then show ?case using c adds_trans by fastforce
qed

text \<open>
  \<open>cpulist_parse\<close> reads back every list of numbers and inclusive ranges printed with commas, with or without a final newline: for numbers
  below the largest \<^verbatim>\<open>int\<close> it returns, and the bits below 32 that it adds are exactly those of the listed processors.
\<close>

theorem cpulist_parse_roundtrip:
  assumes "\<forall>x\<in>set items. item_fits x" and "t = [] \<or> t = [NEWLINE]"
  shows "\<exists>c. cpulist_parse cpus (show_items items @ t) = Some c \<and>
    (\<forall>i<32. bit c i \<longleftrightarrow> bit cpus i \<or> (\<exists>x\<in>set items. i \<in> item_cpus x))"
  using cpulist_parse_items [OF assms, of cpus] by (auto simp: adds_def)

section \<open>Files\<close>

text \<open>The text that a sequence of reads delivers, if none fails but by interruption.\<close>

fun delivered :: "read_result list \<Rightarrow> string option" where
  "delivered [] = Some []"
| "delivered (Failed e # rs) = (if e = EINTR_errno then delivered rs else None)"
| "delivered (Bytes cs # rs) = (if cs = [] then Some [] else map_option ((@) cs) (delivered rs))"

lemma size_loop_delivered: "delivered rs = Some s \<Longrightarrow> size_loop rs n = n + int (length s)"
  by (induction rs n arbitrary: s rule: size_loop.induct) (auto split: if_splits)

lemma read_loop_delivered:
  "delivered rs = Some s \<Longrightarrow> length buf \<le> n \<Longrightarrow>
   read_loop rs n buf = (int (length (take n (buf @ s))), take n (buf @ s))"
proof (induction rs n buf arbitrary: s rule: read_loop.induct)
  case (2 r rs n buf)
  show ?case
  proof (cases "length buf < n")
    case False
    then show ?thesis using "2.prems" by simp
  next
    case True
    show ?thesis
    proof (cases r)
      case (Failed e)
      then show ?thesis using 2 True by (auto split: if_splits)
    next
      case (Bytes cs)
      show ?thesis
      proof (cases "cs = []")
        case True
        then show ?thesis using "2.prems" Bytes by simp
      next
        case False
        then obtain s' where s': "delivered rs = Some s'" "s = cs @ s'" using "2.prems" Bytes by auto
        let ?got = "take (n - length buf) cs"
        have "?got \<noteq> []" using False True by simp
        moreover have "take n ((buf @ ?got) @ s') = take n (buf @ s)" using s' True by (simp add: take_append min_def)
        moreover have "length (buf @ ?got) \<le> n" using True by simp
        ultimately show ?thesis
          using "2.IH"(1) [OF True Bytes refl _ s'(1)] True Bytes by (simp add: Let_def del: append_assoc)
      qed
    qed
  qed
qed simp

lemma read_file_delivered: "delivered rs = Some s \<Longrightarrow> read_file (Some rs) n = (int (length (take n s)), take n s)"
  by (simp add: read_file_def read_loop_delivered)

lemma cpulist_read_from_items:
  assumes "delivered rs = Some (show_items items @ [NEWLINE])" "length (show_items items) < 64" "\<forall>x\<in>set items. item_fits x"
  shows "\<exists>c. cpulist_read_from (Some rs) = Some c \<and> adds 0 (items_cpus items) c"
  using cpulist_parse_items [OF assms(3), of "[NEWLINE]" 0] assms(1,2)
  by (simp add: cpulist_read_from_def read_file_delivered cpulist_init_def)

lemma cpulist_count_card: "cpulist_count cpus = card {i. i < 32 \<and> bit cpus i}"
proof -
  have "{i. i < 32 \<and> bit cpus ([0..<32] ! i)} = {i. i < 32 \<and> bit cpus i}" by auto
  then show ?thesis by (simp add: cpulist_count_def length_filter_conv_card)
qed

text \<open>
  C40: With the present and the possible processors as printed lists of less than 64 characters and a newline in the two files of the kernel, delivered
  in pieces of any size with interruptions in between, the number of processors is the number of those below 32 in both lists.
\<close>

theorem get_cpu_count_correct:
  assumes "delivered rs = Some (show_items present @ [NEWLINE])" "delivered rs' = Some (show_items possible @ [NEWLINE])"
    and "length (show_items present) < 64" "length (show_items possible) < 64"
    and "\<forall>x\<in>set present \<union> set possible. item_fits x"
  shows "get_cpu_count (Some rs) (Some rs') = Some (card {i. i < 32 \<and> i \<in> items_cpus present \<and> i \<in> items_cpus possible})"
proof -
  obtain c c' where "cpulist_read_from (Some rs) = Some c" "adds 0 (items_cpus present) c"
    "cpulist_read_from (Some rs') = Some c'" "adds 0 (items_cpus possible) c'"
    using cpulist_read_from_items [OF assms(1,3)] cpulist_read_from_items [OF assms(2,4)] assms(5) by blast
  moreover from this have "{i. i < 32 \<and> bit (cpulist_and c c') i} =
      {i. i < 32 \<and> i \<in> items_cpus present \<and> i \<in> items_cpus possible}"
    by (auto simp: adds_def cpulist_and_def bit_simps)
  ultimately show ?thesis by (simp add: get_cpu_count_def cpulist_count_card)
qed

theorem get_cpu_count_correct_witness:
  "get_cpu_count (Some [Bytes ''0-'', Failed 4, Bytes ''3\<newline>'']) (Some [Bytes ''0,2-7\<newline>'']) = Some 3"
proof -
  have "show_items [Range 0 3] = ''0-3''" "show_items [Single 0, Range 2 7] = ''0,2-7''" by code_simp+
  moreover have "{i :: nat. i < 32 \<and> i \<in> items_cpus [Range 0 3] \<and> i \<in> items_cpus [Single 0, Range 2 7]} = {0, 2, 3}" by auto
  ultimately show ?thesis
    using get_cpu_count_correct [of "[Bytes ''0-'', Failed 4, Bytes ''3\<newline>'']" "[Range 0 3]"
      "[Bytes ''0,2-7\<newline>'']" "[Single 0, Range 2 7]"] by simp
qed

section \<open>Fields\<close>

lemma find_skip: "a \<le> b \<Longrightarrow> b \<le> n \<Longrightarrow> (\<And>j. a \<le> j \<Longrightarrow> j < b \<Longrightarrow> \<not> P j) \<Longrightarrow> find P [a..<n] = find P [b..<n]"
proof (induction "b - a" arbitrary: a)
  case (Suc d)
  then have "a < b" "a < n" by simp_all
  then have "find P [a..<n] = find P [Suc a..<n]" using Suc(5) [of a] by (simp add: upt_conv_Cons)
  also have "\<dots> = find P [b..<n]" using Suc \<open>a < b\<close> by (intro Suc(1)) auto
  finally show ?case .
qed simp

lemma find_first: "a \<le> b \<Longrightarrow> b < n \<Longrightarrow> P b \<Longrightarrow> (\<And>j. a \<le> j \<Longrightarrow> j < b \<Longrightarrow> \<not> P j) \<Longrightarrow> find P [a..<n] = Some b"
  using find_skip [of a b n P] by (simp add: upt_conv_Cons)

lemma find_upt_Some:
  assumes "find P [a..<n] = Some b"
  shows "a \<le> b" "b < n" "P b" "\<And>j. a \<le> j \<Longrightarrow> j < b \<Longrightarrow> \<not> P j"
proof -
  obtain k where k: "k < n - a" "P (a + k)" "b = a + k" "\<forall>j<k. \<not> P (a + j)"
    using assms by (auto simp: find_Some_iff)
  then show "a \<le> b" "b < n" "P b" by auto
  show "\<not> P j" if "a \<le> j" "j < b" for j using k(3,4) that by (metis le_add_diff_inverse nat_add_left_cancel_less)
qed

abbreviation occurs :: "string \<Rightarrow> string \<Rightarrow> nat \<Rightarrow> bool" where
  "occurs buffer field i \<equiv> take (length field) (drop i buffer) = field"

abbreviation line_start :: "string \<Rightarrow> nat \<Rightarrow> bool" where
  "line_start buffer i \<equiv> i = 0 \<or> buffer ! (i - 1) = NEWLINE"

lemma occurs_nth: "occurs buffer field i \<Longrightarrow> i \<le> length buffer \<Longrightarrow> d < length field \<Longrightarrow> buffer ! (i + d) = field ! d"
  by (metis nth_drop nth_take)

lemma occurs_le: "occurs buffer field i \<Longrightarrow> i \<le> length buffer \<Longrightarrow> i + length field \<le> length buffer"
  by (metis add.commute le_diff_conv2 length_drop length_take min.absorb_iff2 min.commute)

text \<open>The search that jumps over occurrences inside a line misses none at the start of a line.\<close>

lemma field_line_find:
  assumes "field \<noteq> []" "NEWLINE \<notin> set field" "p \<le> Suc (length buffer)"
  shows "field_line buffer field p = Some (find (\<lambda>i. occurs buffer field i \<and> line_start buffer i) [p..<Suc (length buffer)])"
  using assms(3)
proof (induction "Suc (length buffer) - p" arbitrary: p rule: less_induct)
  case less
  show ?case
  proof (cases "memmem buffer p field")
    case None
    then have "\<forall>i\<in>set [p..<Suc (length buffer)]. \<not> occurs buffer field i" by (simp add: memmem_def find_None_iff del: upt_Suc)
    then have "find (\<lambda>i. occurs buffer field i \<and> line_start buffer i) [p..<Suc (length buffer)] = None"
      by (auto simp: find_None_iff simp del: upt_Suc)
    then show ?thesis using None by (simp add: field_line.simps [of _ _ p])
  next
    case (Some i)
    then have i: "p \<le> i" "i \<le> length buffer" "occurs buffer field i" and before: "\<And>j. p \<le> j \<Longrightarrow> j < i \<Longrightarrow> \<not> occurs buffer field j"
      using find_upt_Some [of "occurs buffer field" p "Suc (length buffer)" i] by (auto simp: memmem_def simp del: upt_Suc)
    show ?thesis
    proof (cases "line_start buffer i")
      case True
      then have "find (\<lambda>i. occurs buffer field i \<and> line_start buffer i) [p..<Suc (length buffer)] = Some i"
        using i before by (intro find_first) auto
      then show ?thesis using Some True by (simp add: field_line.simps [of _ _ p])
    next
      case False
      have le: "i + length field \<le> length buffer" using occurs_le i by blast
      have "\<not> (occurs buffer field j \<and> line_start buffer j)" if "p \<le> j" "j < i + length field" for j
      proof (cases "j \<le> i")
        case True
        then show ?thesis using before [of j] that False by (cases "j = i") auto
      next
        case inside: False
        then have "buffer ! (i + (j - 1 - i)) = field ! (j - 1 - i)" using that i by (intro occurs_nth) auto
        moreover have "field ! (j - 1 - i) \<in> set field" using inside that by (intro nth_mem) auto
        ultimately show ?thesis using assms(2) inside by auto
      qed
      then have "find (\<lambda>i. occurs buffer field i \<and> line_start buffer i) [p..<Suc (length buffer)] =
          find (\<lambda>i. occurs buffer field i \<and> line_start buffer i) [i + length field..<Suc (length buffer)]"
        using i le by (intro find_skip) auto
      also have "Some \<dots> = field_line buffer field (i + length field)"
      proof (rule less.hyps [symmetric])
        have "0 < length field" using assms(1) by simp
        then show "Suc (length buffer) - (i + length field) < Suc (length buffer) - p" using le i(1) by arith
      qed (use le in simp)
      finally show ?thesis using Some False by (simp add: field_line.simps [of _ _ p])
    qed
  qed
qed

text \<open>The rows of /proc/cpuinfo: a key, tabs, a colon and a space, a value.\<close>

type_synonym row = "string \<times> nat \<times> string"

fun show_row :: "row \<Rightarrow> string" where
  "show_row (key, n, val) = key @ replicate n TAB @ '': '' @ val @ [NEWLINE]"

abbreviation show_rows :: "row list \<Rightarrow> string" where
  "show_rows rows \<equiv> concat (map show_row rows)"

fun row_ok :: "row \<Rightarrow> bool" where
  "row_ok (key, n, val) \<longleftrightarrow> set key \<inter> {CHR '':'', NEWLINE} = {} \<and> set val \<inter> {NEWLINE, CHR 0x00} = {}"

fun row_matches :: "string \<Rightarrow> row \<Rightarrow> bool" where
  "row_matches field (key, n, val) \<longleftrightarrow> take (length field) key = field"

definition field_ok :: "string \<Rightarrow> bool" where
  "field_ok field \<longleftrightarrow> field \<noteq> [] \<and> set field \<inter> {CHR '':'', NEWLINE, TAB} = {}"

lemma take_append_stop:
  assumes "xs = us @ c # vs" "c \<notin> set field"
  shows "take (length field) xs = field \<longleftrightarrow> take (length field) us = field"
proof (cases "length field \<le> length us")
  case True
  then show ?thesis using assms(1) by simp
next
  case False
  then have "c \<in> set (take (length field) xs)" using assms(1) by (auto simp: take_Cons' not_le)
  moreover have "length (take (length field) us) \<noteq> length field" using False by simp
  ultimately show ?thesis using assms(2) by metis
qed

lemma show_row_matches: "field_ok field \<Longrightarrow> take (length field) (show_row r @ rest) = field \<longleftrightarrow> row_matches field r"
proof (cases r)
  case (fields key n val)
  assume "field_ok field"
  then show ?thesis
    using take_append_stop [of "show_row r @ rest" key "if n = 0 then CHR '':'' else TAB"
      "replicate (n - 1) TAB @ (if n = 0 then [] else [CHR '':'']) @ '' '' @ val @ NEWLINE # rest" field] fields
    by (cases n) (auto simp: field_ok_def)
qed

lemma show_row_inside: "row_ok r \<Longrightarrow> j < length (show_row r) - 1 \<Longrightarrow> (show_row r @ rest) ! j \<noteq> NEWLINE"
proof (cases r)
  case (fields key n val)
  assume "row_ok r" and j: "j < length (show_row r) - 1"
  let ?line = "key @ replicate n TAB @ '': '' @ val"
  have "show_row r @ rest = ?line @ NEWLINE # rest" "j < length ?line" using j fields by simp_all
  then have "(show_row r @ rest) ! j = ?line ! j" by (simp only: nth_append if_True)
  moreover have "?line ! j \<in> set ?line" using j fields by (intro nth_mem) simp
  moreover have "NEWLINE \<notin> set ?line" using \<open>row_ok r\<close> fields by auto
  ultimately show ?thesis by metis
qed

lemma show_row_last [simp]: "show_row r \<noteq> []" "last (show_row r) = NEWLINE"
  by (cases r; simp)+

text \<open>The first row whose key starts with the field, and where its text begins.\<close>

fun row_offset :: "string \<Rightarrow> row list \<Rightarrow> nat option" where
  "row_offset field [] = None"
| "row_offset field (r # rows) =
     (if row_matches field r then Some 0 else map_option ((+) (length (show_row r))) (row_offset field rows))"

lemma find_rows:
  assumes "field_ok field" "\<forall>r\<in>set rows. row_ok r" "pre = [] \<or> last pre = NEWLINE" "buffer = pre @ show_rows rows"
  shows "find (\<lambda>i. occurs buffer field i \<and> line_start buffer i) [length pre..<Suc (length buffer)] =
    map_option ((+) (length pre)) (row_offset field rows)"
  using assms(2-4)
proof (induction rows arbitrary: pre)
  case Nil
  then show ?case using assms(1) by (auto simp: field_ok_def)
next
  case (Cons r rows)
  let ?P = "\<lambda>i. occurs buffer field i \<and> line_start buffer i"
  have start: "line_start buffer (length pre)"
    using Cons.prems by (cases "pre = []") (simp_all add: nth_append last_conv_nth)
  have occurs: "occurs buffer field (length pre) \<longleftrightarrow> row_matches field r"
    using Cons.prems show_row_matches [OF assms(1)] by simp
  show ?case
  proof (cases "row_matches field r")
    case True
    then have "find ?P [length pre..<Suc (length buffer)] = Some (length pre)"
      using start occurs Cons.prems by (intro find_first) auto
    then show ?thesis using True by simp
  next
    case False
    let ?pre = "pre @ show_row r"
    have "\<not> ?P j" if "length pre \<le> j" "j < length ?pre" for j
    proof (cases "j = length pre")
      case True
      then show ?thesis using occurs False by simp
    next
      case False
      then have "\<not> j - 1 < length pre" using that by simp
      moreover have "buffer = pre @ show_row r @ show_rows rows" using Cons.prems by simp
      ultimately have "buffer ! (j - 1) = (show_row r @ show_rows rows) ! (j - 1 - length pre)"
        by (simp only: nth_append [of pre] if_False)
      then show ?thesis using show_row_inside [of r "j - 1 - length pre"] Cons.prems(1) that False by auto
    qed
    then have "find ?P [length pre..<Suc (length buffer)] = find ?P [length ?pre..<Suc (length buffer)]"
      using Cons.prems by (intro find_skip) auto
    also have "\<dots> = map_option ((+) (length ?pre)) (row_offset field rows)"
      using Cons.prems by (intro Cons.IH) auto
    also have "\<dots> = map_option ((+) (length pre)) (row_offset field (r # rows))"
      using False by (cases "row_offset field rows") simp_all
    finally show ?thesis .
  qed
qed

lemma row_offset_find:
  "row_offset field rows = map_option (\<lambda>r. length (show_rows (takeWhile (\<lambda>r. \<not> row_matches field r) rows))) (find (row_matches field) rows)"
  by (induction rows) (auto simp: option.map_comp comp_def)

lemma memchr_append:
  assumes "buffer = us @ vs @ c # ws" "p = length us" "c \<notin> set vs"
  shows "memchr buffer p c = Some (length us + length vs)"
  unfolding memchr_def using assms by (intro find_first) (auto simp: nth_append dest: nth_mem)

text \<open>What is read once the row is found.\<close>

lemma extract_from_row:
  assumes "field_line buffer field 0 = Some (Some (length pre))" "buffer = pre @ show_row (key, n, val) @ rest"
    and "row_ok (key, n, val)" "take (length field) key = field"
  shows "extract_cpuinfo_field True buffer field = Done (Some val)"
proof -
  obtain key' where key: "key = field @ key'" using assms(4) by (metis append_take_drop_id)
  let ?colon = "length pre + length key + n"
  have colon: "memchr buffer (length pre + length field) CHR '':'' = Some ?colon"
    using memchr_append [of buffer "pre @ field" "key' @ replicate n TAB" "CHR '':''" "'' '' @ val @ NEWLINE # rest"
      "length pre + length field"] assms(2,3) key by auto
  have newline: "memchr buffer (?colon + 2) NEWLINE = Some (?colon + 2 + length val)"
    using memchr_append [of buffer "pre @ key @ replicate n TAB @ '': ''" val NEWLINE rest "?colon + 2"] assms(2,3)
    by (auto simp: add.assoc)
  have space: "buffer ! (?colon + 1) = CHR '' ''" "?colon + 1 < length buffer"
    using assms(2) by (simp_all add: nth_append)
  have "take (length val) (drop (?colon + 2) buffer) = val" using assms(2) by simp
  moreover have "c_string val = val" using assms(3) by (auto simp: c_string_def takeWhile_eq_all_conv)
  ultimately show ?thesis
    using assms(1) colon newline space by (simp add: extract_cpuinfo_field_def Let_def)
qed

text \<open>
  In a text of rows (keys without colons and newlines, values without newlines and zeros), a lookup returns the value of the first row whose key starts
  with the field, although the field may also occur inside lines, and nothing if there is no such row. The field is a non-empty
  word without colon, tab and newline.
\<close>

theorem extract_cpuinfo_field_correct:
  assumes "field_ok field" "\<forall>r\<in>set rows. row_ok r"
  shows "extract_cpuinfo_field True (show_rows rows) field = Done (map_option (\<lambda>(key, n, val). val) (find (row_matches field) rows))"
proof -
  let ?skipped = "takeWhile (\<lambda>r. \<not> row_matches field r) rows"
  have line: "field_line (show_rows rows) field 0 =
      Some (map_option (\<lambda>r. length (show_rows ?skipped)) (find (row_matches field) rows))"
    using field_line_find [of field 0 "show_rows rows"] find_rows [OF assms, of "[]" "show_rows rows"] assms(1)
    by (auto simp: field_ok_def row_offset_find option.map_comp comp_def simp del: upt_Suc)
  show ?thesis
  proof (cases "find (row_matches field) rows")
    case None
    then show ?thesis using line by (simp add: extract_cpuinfo_field_def)
  next
    case (Some r)
    obtain key n val where r: "r = (key, n, val)" by (cases r)
    have "dropWhile (\<lambda>r. \<not> row_matches field r) rows = r # tl (dropWhile (\<lambda>r. \<not> row_matches field r) rows)"
      using Some by (induction rows) (auto split: if_splits)
    then have "rows = ?skipped @ r # tl (dropWhile (\<lambda>r. \<not> row_matches field r) rows)" by (metis takeWhile_dropWhile_id)
    then have "show_rows rows = show_rows ?skipped @ show_row r @ show_rows (tl (dropWhile (\<lambda>r. \<not> row_matches field r) rows))"
      by (metis concat.simps(2) concat_append list.simps(9) map_append)
    moreover have "row_matches field r" "row_ok r" using Some assms(2) by (auto simp: find_Some_iff)
    ultimately show ?thesis using extract_from_row [of "show_rows rows" field "show_rows ?skipped" key n val] line Some r by simp
  qed
qed

end
