(* ===== verification/Cpu_Features_Correct.thy ===== *)
theory Cpu_Features_Correct
  imports Cpu_Features Cpu_Text_Correct
begin

text \<open>
  Properties of the detection of src/libuzi/cpu-features.c: the flags it reports belong to the family of the processor and respect the
  dependencies that src/libuzi/cpu-features.h documents, the words of the line \<^verbatim>\<open>Features\<close> become the capability bits, and the first public call fixes the
  global variables for ever.
\<close>

named_theorems flags \<open>flags as single bits\<close>

lemma bit_one_bit [flags]: "bit (one_bit n :: 'a::len word) m \<longleftrightarrow> n = m \<and> m < LENGTH('a)"
  by (auto simp: one_bit_def bit_simps)

lemma and_one_bit [flags]: "(x :: 'a::len word) AND one_bit n \<noteq> 0 \<longleftrightarrow> bit x n"
  by (simp add: one_bit_def bit_iff_and_push_bit_not_eq_0)

lemma and_one_bit_zero [flags]: "(x :: 'a::len word) AND one_bit n = 0 \<longleftrightarrow> \<not> bit x n"
  using and_one_bit by blast

lemma bit_or_if [flags]: "bit (or_if c x y) n \<longleftrightarrow> bit y n \<or> c \<and> bit x n"
  by (simp add: or_if_def bit_simps)

lemmas bit_or [flags] = bit_or_iff

section \<open>Dependencies\<close>

text \<open>The flags that each family may report are the lowest bits.\<close>

fun family_width :: "AndroidCpuFamily \<Rightarrow> nat" where
  "family_width FAMILY_UNKNOWN = 0"
| "family_width FAMILY_ARM = 17"
| "family_width FAMILY_X86 = 10"
| "family_width FAMILY_MIPS = 2"
| "family_width FAMILY_ARM64 = 7"
| "family_width FAMILY_X86_64 = 10"
| "family_width FAMILY_MIPS64 = 2"

abbreviation has_arm :: "u64 \<Rightarrow> ARM_FEATURE \<Rightarrow> bool" where
  "has_arm features x \<equiv> features AND arm_flag x \<noteq> 0"

definition arm_closed :: "u64 \<Rightarrow> bool" where
  "arm_closed f \<longleftrightarrow>
     (has_arm f VFPv3 \<longrightarrow> has_arm f VFPv2 \<and> has_arm f ARMv7) \<and>
     (has_arm f NEON \<longrightarrow> has_arm f VFPv3 \<and> has_arm f VFP_D32) \<and>
     (has_arm f NEON_FMA \<longrightarrow> has_arm f NEON \<and> has_arm f VFP_FMA) \<and>
     (has_arm f VFP_FMA \<longrightarrow> has_arm f VFPv3 \<and> has_arm f VFP_FP16)"

definition fits_width :: "nat \<Rightarrow> u64 \<Rightarrow> bool" where
  "fits_width w f \<longleftrightarrow> (\<forall>n. bit f n \<longrightarrow> n < w)"

lemma fits_width_or [simp]: "fits_width w (x OR y) \<longleftrightarrow> fits_width w x \<and> fits_width w y"
  by (auto simp: fits_width_def bit_simps)

lemma fits_width_one_bit [simp]: "n < w \<Longrightarrow> fits_width w (one_bit n)"
  by (simp add: fits_width_def bit_one_bit)

lemma fits_width_or_if [simp]: "fits_width w y \<Longrightarrow> fits_width w x \<Longrightarrow> fits_width w (or_if c x y)"
  by (simp add: or_if_def)

lemma fits_width_0 [simp]: "fits_width w 0"
  by (simp add: fits_width_def)

lemma arm_add_hwcaps_fits: "fits_width 17 f \<Longrightarrow> fits_width 17 (arm_add_hwcaps h f)"
  by (simp add: arm_add_hwcaps_def Let_def)

lemma arm_add_hwcaps2_fits: "fits_width 17 f \<Longrightarrow> fits_width 17 (arm_add_hwcaps2 h f)"
  by (simp add: arm_add_hwcaps2_def Let_def)

lemma apply_cpu_fixes_fits: "fits_width 17 f \<Longrightarrow> fits_width 17 (apply_cpu_fixes i f)"
  by (simp add: apply_cpu_fixes_def cpu_fixes_def)

lemma goldfish_fix_fits: "fits_width 17 f \<Longrightarrow> fits_width 17 (goldfish_fix fam i hw f)"
  by (simp add: goldfish_fix_def)

lemma x86_features_fits: "fits_width 10 (x86_features e)"
  by (simp add: x86_features_def Let_def split: prod.splits)

lemma arm64_features_fits: "fits_width 7 (arm64_features h)"
  by (simp add: arm64_features_def Let_def)

lemma mips_features_fits: "fits_width 2 (mips_features h)"
  by (simp add: mips_features_def)

text \<open>Only the bits 0 to 8 take part in the dependencies.\<close>

lemma arm_closed_bits:
  "arm_closed f \<longleftrightarrow> (bit f 1 \<longrightarrow> bit f 4 \<and> bit f 0) \<and> (bit f 2 \<longrightarrow> bit f 1 \<and> bit f 5) \<and> (bit f 8 \<longrightarrow> bit f 2 \<and> bit f 7) \<and>
     (bit f 7 \<longrightarrow> bit f 1 \<and> bit f 6)"
  by (simp add: arm_closed_def flags)

lemma arm_closed_0 [simp]: "arm_closed 0"
  by (simp add: arm_closed_bits)

lemma arm_add_hwcaps_closed:
  assumes "\<forall>n. bit f n \<longrightarrow> n = 0 \<or> n = 3"
  shows "arm_closed (arm_add_hwcaps h f)"
  using assms by (auto simp: arm_closed_bits arm_add_hwcaps_def Let_def flags)

lemma arm_add_hwcaps2_closed: "arm_closed f \<Longrightarrow> arm_closed (arm_add_hwcaps2 h f)"
  by (simp add: arm_closed_bits arm_add_hwcaps2_def Let_def flags)

lemma apply_cpu_fixes_closed: "arm_closed f \<Longrightarrow> arm_closed (apply_cpu_fixes i f)"
  by (simp add: arm_closed_bits apply_cpu_fixes_def cpu_fixes_def flags)

lemma goldfish_fix_closed: "arm_closed f \<Longrightarrow> arm_closed (goldfish_fix fam i hw f)"
  by (simp add: arm_closed_bits goldfish_fix_def flags)

lemma arm_architecture_bits: "arm_architecture e t = Done f \<Longrightarrow> bit f n \<Longrightarrow> n = 0 \<or> n = 3"
  by (auto simp: arm_architecture_def and_then_Done_iff Let_def case_prod_beta flags split: option.splits if_splits)

lemma cpulist_count_le: "cpulist_count c \<le> 32"
  using length_filter_le [of "bit c" "[0..<32]"] by (simp add: cpulist_count_def)

lemma android_cpuInit_arm_wf:
  assumes "android_cpuInit_arm e t g = Done g'" "g_cpuFeatures g = 0"
  shows "arm_closed (g_cpuFeatures g') \<and> fits_width 17 (g_cpuFeatures g') \<and>
    (\<exists>f i. g' = g\<lparr>g_cpuIdArm := i, g_cpuFeatures := f\<rparr>)"
proof -
  from assms obtain arch hw i hd where arch: "arm_architecture e t = Done arch" and g': "g' = g\<lparr>g_cpuIdArm := i,
      g_cpuFeatures := goldfish_fix (g_cpuFamily g) i hd (apply_cpu_fixes i (arm_add_hwcaps2
        (get_elf_hwcap_from_getauxval e 26) (arm_add_hwcaps hw arch)))\<rparr>"
    by (auto simp: android_cpuInit_arm_def and_then_Done_iff Let_def)
  have bits: "\<forall>n. bit arch n \<longrightarrow> n = 0 \<or> n = 3" using arm_architecture_bits [OF arch] by blast
  then have "fits_width 17 arch" by (auto simp: fits_width_def)
  then show ?thesis
    using bits g' arm_add_hwcaps_closed by (auto intro!: goldfish_fix_closed apply_cpu_fixes_closed arm_add_hwcaps2_closed
      goldfish_fix_fits apply_cpu_fixes_fits arm_add_hwcaps2_fits arm_add_hwcaps_fits)
qed

definition cpu_state_wf :: "cpu_env \<Rightarrow> cpu_state \<Rightarrow> bool" where
  "cpu_state_wf e g \<longleftrightarrow>
     g_inited g \<and> g_cpuFamily g = family_of (target e) \<and> 1 \<le> g_cpuCount g \<and> g_cpuCount g \<le> 32 \<and>
     (\<forall>n. bit (g_cpuFeatures g) n \<longrightarrow> n < family_width (g_cpuFamily g)) \<and>
     (g_cpuFamily g = FAMILY_ARM \<longrightarrow> arm_closed (g_cpuFeatures g))"

lemma android_cpuInit_wf:
  assumes "android_cpuInit e g = Done g'"
  shows "cpu_state_wf e g'"
proof -
  define g0 where "g0 = (android_cpuInitFamily e g)\<lparr>g_cpuFeatures := 0, g_cpuCount := 1, g_inited := True\<rparr>"
  have g0: "g_inited g0" "g_cpuFamily g0 = family_of (target e)" "g_cpuCount g0 = 1" "g_cpuFeatures g0 = 0"
    by (simp_all add: g0_def android_cpuInitFamily_def)
  obtain len t where read: "read_file (cpuinfo_second e) (nat (get_file_size (cpuinfo_first e))) = (len, t)" by fastforce
  show ?thesis
  proof (cases "get_file_size (cpuinfo_first e) < 0 \<or> \<not> text_malloc e \<or> len < 0")
    case True
    then have "g' = g0" using assms read by (auto simp: android_cpuInit_def Let_def g0_def split: if_splits)
    then show ?thesis by (simp add: cpu_state_wf_def g0)
  next
    case False
    then obtain n where n: "get_cpu_count (present_file e) (possible_file e) = Some n"
      using assms read by (auto simp: android_cpuInit_def Let_def split: option.splits)
    have le: "n \<le> 32" using n cpulist_count_le by (auto simp: get_cpu_count_def split: option.splits)
    define g1 where "g1 = g0\<lparr>g_cpuCount := if n = 0 then 1 else int n\<rparr>"
    have g1: "g_inited g1" "g_cpuFamily g1 = family_of (target e)" "1 \<le> g_cpuCount g1" "g_cpuCount g1 \<le> 32" "g_cpuFeatures g1 = 0"
      using le by (auto simp: g1_def g0)
    note run = assms [unfolded android_cpuInit_def Let_def read n prod.case option.case, folded g0_def, folded g1_def]
    show ?thesis
    proof (cases "target e = M_ARM")
      case True
      then have "android_cpuInit_arm e t g1 = Done g'" using run False by simp
      from android_cpuInit_arm_wf [OF this g1(5)] show ?thesis using True g1 by (auto simp: cpu_state_wf_def fits_width_def)
    next
      case other: False
      have "\<exists>f. g' = g1\<lparr>g_cpuFeatures := f\<rparr> \<and> fits_width (family_width (family_of (target e))) f"
        using run False other g1(5) x86_features_fits arm64_features_fits mips_features_fits
        by (cases "target e") (auto intro: exI [of _ 0])
      then show ?thesis using g1 other by (cases "target e") (auto simp: cpu_state_wf_def fits_width_def)
    qed
  qed
qed

text \<open>
  C38: Whenever the detection returns, it leaves a well-formed state: the family is the one the program was compiled for, the number of processors is
  between 1 and 32, every feature bit belongs to the family, and on ARM the documented dependencies hold: VFPv3 comes with VFPv2 and ARMv7, NEON with VFPv3 and
  the 32 registers, the fused instructions of NEON with NEON and those of VFP, and these with VFPv3 and half precision.
\<close>

theorem android_cpuInit_well_formed:
  assumes "android_cpuInit e g = Done g'"
  shows "cpu_state_wf e g'"
  using assms by (rule android_cpuInit_wf)

text \<open>An ARM device whose C library reports VFPv4 and NEON, with an empty /proc/cpuinfo.\<close>

definition example_env :: cpu_env where
  "example_env = \<lparr>target = M_ARM, cpuinfo_first = Some [], cpuinfo_second = Some [], present_file = Some [Bytes ''0-3''],
     possible_file = Some [Bytes ''0-3''], text_malloc = True, field_malloc = (\<lambda>n. True),
     libc = Some (Some (\<lambda>t. if t = 16 then 0x11000 else 0)), self_auxv = None, cpuid_regs = (\<lambda>f. (0, 0, 0, 0))\<rparr>"

theorem android_cpuInit_well_formed_witness:
  "\<exists>g. android_cpuInit example_env cpu_state_start = Done g \<and> cpu_state_wf example_env g \<and> has_arm (g_cpuFeatures g) NEON_FMA"
proof -
  have "case android_cpuInit example_env cpu_state_start of Done g \<Rightarrow> has_arm (g_cpuFeatures g) NEON_FMA | _ \<Rightarrow> False"
    by code_simp
  then obtain g where "android_cpuInit example_env cpu_state_start = Done g" "has_arm (g_cpuFeatures g) NEON_FMA"
    by (auto split: outcome.splits)
  then show ?thesis using android_cpuInit_well_formed by blast
qed

section \<open>Public calls\<close>

text \<open>One public call that returns.\<close>

inductive cpu_call :: "cpu_env \<Rightarrow> cpu_state \<Rightarrow> cpu_state \<Rightarrow> bool" for e where
  family: "android_getCpuFamily e g = Done (x, g') \<Longrightarrow> cpu_call e g g'"
| features: "android_getCpuFeatures e g = Done (f, g') \<Longrightarrow> cpu_call e g g'"
| count: "android_getCpuCount e g = Done (n, g') \<Longrightarrow> cpu_call e g g'"
| id: "android_getCpuIdArm e g = Done (i, g') \<Longrightarrow> cpu_call e g g'"
| set: "android_setCpu e n f g = Done (r, g') \<Longrightarrow> cpu_call e g g'"
| set_arm: "android_setCpuArm e n f i g = Done (r, g') \<Longrightarrow> cpu_call e g g'"

lemmas public_calls = android_getCpuFamily_def android_getCpuFeatures_def android_getCpuCount_def android_getCpuIdArm_def
  android_setCpu_def android_setCpuArm_def android_cpuInitDummy_def android_cpuInitFamily_def call_once_def

text \<open>Once both flags are set, getters read the variables and setters fail.\<close>

lemma frozen_calls:
  assumes "g_once g" "g_inited g"
  shows "android_getCpuFamily e g = Done (g_cpuFamily g, g)" "android_getCpuFeatures e g = Done (g_cpuFeatures g, g)"
    "android_getCpuCount e g = Done (g_cpuCount g, g)" "android_getCpuIdArm e g = Done (g_cpuIdArm g, g)"
    "android_setCpu e n f g = Done (0, g)" "android_setCpuArm e n f i g = Done (0, g)"
  using assms by (simp_all add: public_calls)

lemma cpu_call_frozen: "cpu_call e g g' \<Longrightarrow> g_once g \<Longrightarrow> g_inited g \<Longrightarrow> g' = g"
  by (induction rule: cpu_call.induct) (simp_all add: frozen_calls)

lemma cpu_calls_frozen: "(cpu_call e)\<^sup>*\<^sup>* g g' \<Longrightarrow> g_once g \<Longrightarrow> g_inited g \<Longrightarrow> g' = g"
  by (induction rule: rtranclp_induct) (auto dest: cpu_call_frozen)

lemma first_call:
  assumes "cpu_call e cpu_state_start g"
  shows "g_once g \<and> g_inited g \<and> g_cpuFamily g = family_of (target e) \<and> 1 \<le> g_cpuCount g"
  using assms
  by (cases rule: cpu_call.cases)
    (auto simp: public_calls cpu_state_start_def and_then_Done_iff cpu_state_wf_def dest!: android_cpuInit_wf)

text \<open>
  The first public call that returns, whether it asks for the family, the features, the number of processors or the identity, or sets them, fixes all
  global variables: no later sequence of calls changes them, every getter returns the fixed value, and setting fails. The fixed family is that of the
  program and the fixed number of processors is positive.
\<close>

theorem first_call_fixes:
  assumes "cpu_call e cpu_state_start g" "(cpu_call e)\<^sup>*\<^sup>* g g'"
  shows "g' = g \<and> g_cpuFamily g = family_of (target e) \<and> 1 \<le> g_cpuCount g \<and>
    android_getCpuFamily e g' = Done (g_cpuFamily g, g) \<and> android_getCpuFeatures e g' = Done (g_cpuFeatures g, g) \<and>
    android_getCpuCount e g' = Done (g_cpuCount g, g) \<and> android_getCpuIdArm e g' = Done (g_cpuIdArm g, g) \<and>
    android_setCpu e n f g' = Done (0, g) \<and> android_setCpuArm e n f i g' = Done (0, g)"
  using first_call [OF assms(1)] cpu_calls_frozen [OF assms(2)] by (simp add: frozen_calls)

theorem first_call_fixes_witness:
  "\<exists>g. android_setCpu example_env (- 5) 7 cpu_state_start = Done (1, g) \<and> android_getCpuCount example_env g = Done (1, g) \<and>
     android_getCpuFeatures example_env g = Done (7, g) \<and> android_setCpu example_env 3 0 g = Done (0, g)"
proof -
  obtain g where g: "android_setCpu example_env (- 5) 7 cpu_state_start = Done (1, g)" "g_cpuCount g = 1" "g_cpuFeatures g = 7"
    by (simp add: public_calls cpu_state_start_def)
  show ?thesis using first_call_fixes [OF cpu_call.set [OF g(1)] rtranclp.rtrancl_refl, of 3 0 0] g by auto
qed

text \<open>The values given to the setters are the ones the getters return.\<close>

lemma android_setCpuArm_values:
  assumes "android_setCpuArm e n f i cpu_state_start = Done (r, g)"
  shows "r = 1 \<and> g_cpuCount g = (if n \<le> 0 then 1 else n) \<and> g_cpuFeatures g = f \<and> g_cpuIdArm g = i"
  using assms by (auto simp: public_calls cpu_state_start_def)

text \<open>The architecture agrees with the one of the other systems.\<close>

lemma GetProcessorArchitecture_android_agrees:
  assumes "GetProcessorArchitecture_android e cpu_state_start = Done (a, g)" "target e \<noteq> M_PPC" "target e \<noteq> M_ALPHA"
  shows "a = GetProcessorArchitecture (target e)"
proof -
  obtain fam where fam: "android_getCpuFamily e cpu_state_start = Done (fam, g)" "a = architecture_of_family fam"
    using assms(1) by (auto simp: GetProcessorArchitecture_android_def and_then_Done_iff)
  have "fam = g_cpuFamily g" using fam(1) unfolding android_getCpuFamily_def and_then_Done_iff by blast
  then have "fam = family_of (target e)" using first_call [OF cpu_call.family [OF fam(1)]] by simp
  then show ?thesis using assms(2,3) fam(2) by (cases "target e") simp_all
qed

section \<open>The line Features\<close>

text \<open>The words that stand for a capability.\<close>

fun hwcap_words :: "ARM_HWCAP \<Rightarrow> string set" where
  "hwcap_words HWCAP_VFP = {''vfp''}"
| "hwcap_words HWCAP_IWMMXT = {''iwmmxt''}"
| "hwcap_words HWCAP_NEON = {''neon''}"
| "hwcap_words HWCAP_VFPv3 = {''vfpv3''}"
| "hwcap_words HWCAP_VFPv3D16 = {''vfpv3d16''}"
| "hwcap_words HWCAP_VFPv4 = {''vfpv4''}"
| "hwcap_words HWCAP_IDIVA = {''idiva'', ''idiv''}"
| "hwcap_words HWCAP_IDIVT = {''idivt'', ''idiv''}"

definition row_value :: "string \<Rightarrow> row list \<Rightarrow> string option" where
  "row_value field rows = map_option (\<lambda>(key, n, val). val) (find (row_matches field) rows)"

text \<open>
  C39: From a /proc/cpuinfo made of rows, below architecture 8, a capability bit is reported exactly if one of its words is among the words of the line
  \<^verbatim>\<open>Features\<close>: \<^verbatim>\<open>idiv\<close> stands for both forms of division. Without that line no capability is reported. From architecture 8 on the fixed set of capabilities is reported.
\<close>

theorem hwcaps_are_feature_words:
  assumes "\<forall>r\<in>set rows. row_ok r" "field_malloc e 2" "field_malloc e 3"
  defines "armv8 \<equiv> (case row_value ''CPU architecture'' rows of None \<Rightarrow> False | Some s \<Rightarrow> fst (strtol10 s) \<ge> 8)"
  shows "\<exists>h. get_elf_hwcap_from_proc_cpuinfo e (show_rows rows) = Done h \<and>
    (armv8 \<longrightarrow> h = HWCAP_SET_FOR_ARMV8) \<and>
    (\<not> armv8 \<longrightarrow> (\<forall>c. h AND arm_hwcap c \<noteq> 0 \<longleftrightarrow>
       (\<exists>s. row_value ''Features'' rows = Some s \<and> hwcap_words c \<inter> set (words s) \<noteq> {})))"
proof -
  have arch: "extract_cpuinfo_field (field_malloc e 2) (show_rows rows) ''CPU architecture'' = Done (row_value ''CPU architecture'' rows)"
    and feat: "extract_cpuinfo_field (field_malloc e 3) (show_rows rows) ''Features'' = Done (row_value ''Features'' rows)"
    using extract_cpuinfo_field_correct [OF _ assms(1)] assms(2,3) by (simp_all add: field_ok_def row_value_def)
  show ?thesis
  proof (cases "armv8 \<or> row_value ''Features'' rows = None")
    case True
    then show ?thesis using arch feat by (auto simp: get_elf_hwcap_from_proc_cpuinfo_def armv8_def)
  next
    case False
    then obtain s where s: "row_value ''Features'' rows = Some s" by auto
    define h where "h = fold (\<lambda>(item, flags) hwcaps. or_if (item \<in> set (words s)) flags hwcaps)
      [(''vfp'', arm_hwcap HWCAP_VFP), (''vfpv3'', arm_hwcap HWCAP_VFPv3), (''vfpv3d16'', arm_hwcap HWCAP_VFPv3D16),
       (''vfpv4'', arm_hwcap HWCAP_VFPv4), (''neon'', arm_hwcap HWCAP_NEON), (''idiva'', arm_hwcap HWCAP_IDIVA),
       (''idivt'', arm_hwcap HWCAP_IDIVT), (''idiv'', arm_hwcap HWCAP_IDIVA OR arm_hwcap HWCAP_IDIVT),
       (''iwmmxt'', arm_hwcap HWCAP_IWMMXT)] 0"
    have "get_elf_hwcap_from_proc_cpuinfo e (show_rows rows) = Done h"
      using arch feat False s by (simp add: get_elf_hwcap_from_proc_cpuinfo_def armv8_def has_list_item_iff h_def)
    moreover have "h AND arm_hwcap c \<noteq> 0 \<longleftrightarrow> hwcap_words c \<inter> set (words s) \<noteq> {}" for c
      by (cases c) (auto simp: h_def flags)
    ultimately show ?thesis using False s by auto
  qed
qed

theorem hwcaps_are_feature_words_witness:
  "\<exists>h. get_elf_hwcap_from_proc_cpuinfo example_env ''Features: swp  idiv neon \<newline>'' = Done h \<and> h AND arm_hwcap HWCAP_NEON \<noteq> 0 \<and>
     h AND arm_hwcap HWCAP_IDIVT \<noteq> 0 \<and> h AND arm_hwcap HWCAP_VFP = 0"
proof -
  let ?rows = "[(''Features'', 0, ''swp  idiv neon '')]"
  have printed: "show_rows ?rows = ''Features: swp  idiv neon \<newline>''" by simp
  have val: "row_value ''Features'' ?rows = Some ''swp  idiv neon ''" "row_value ''CPU architecture'' ?rows = None"
    by (simp_all add: row_value_def)
  have words: "words ''swp  idiv neon '' = [''swp'', ''idiv'', ''neon'']" by code_simp
  obtain h where h: "get_elf_hwcap_from_proc_cpuinfo example_env (show_rows ?rows) = Done h"
    and bits: "\<forall>c. h AND arm_hwcap c \<noteq> 0 \<longleftrightarrow> hwcap_words c \<inter> {''swp'', ''idiv'', ''neon''} \<noteq> {}"
    using hwcaps_are_feature_words [of ?rows example_env] val words by (auto simp: example_env_def)
  from bits have "h AND arm_hwcap HWCAP_NEON \<noteq> 0" "h AND arm_hwcap HWCAP_IDIVT \<noteq> 0" "\<not> h AND arm_hwcap HWCAP_VFP \<noteq> 0"
    by (simp_all del: arm_hwcap.simps)
  then show ?thesis using h unfolding printed by blast
qed

section \<open>Behaviour that the sources do not mean\<close>

text \<open>The emulator is given integer division whether or not the features contain ARMv7, because the family is tested instead.\<close>

lemma goldfish_without_armv7: "goldfish_fix FAMILY_ARM 0x4100c080 (Some ''Goldfish'') 0 = arm_flag IDIV_ARM"
  by code_simp

text \<open>The bit of NEON is the bit of MOVBE on Intel processors and of AES on 64-bit ARM processors; the family is not tested.\<close>

definition intel_env :: cpu_env where
  "intel_env = example_env\<lparr>target := M_IX86,
     cpuid_regs := (\<lambda>f. if f = 0 then (0, 0x756e6547, 0x6c65746e, 0x49656e69) else if f = 1 then (0, 0, 0x400000, 0) else (0, 0, 0, 0))\<rparr>"

lemma neon_on_intel:
  "case IsProcessorFeaturePresent_android intel_env 19 cpu_state_start of
     Done (r, g) \<Rightarrow> r \<noteq> 0 \<and> g_cpuFamily g = FAMILY_X86 | _ \<Rightarrow> False"
  by code_simp

text \<open>A colon at the end of the text makes the lookup read past it.\<close>

lemma lookup_reads_past_end: "extract_cpuinfo_field True ''Hardware:'' ''Hardware'' = Undefined"
  by code_simp

text \<open>A range that ends at the largest \<^verbatim>\<open>int\<close> overflows the counter.\<close>

lemma range_overflows: "range_loop 2147483647 2147483647 cpus = None"
  by (simp add: range_loop.simps)

text \<open>A list of 32 separate processors does not fit into the buffer of 64 bytes; 25 of them are counted.\<close>

lemma long_list_cut:
  "let f = Some [Bytes (show_items (map Single [0..<32]))] in get_cpu_count f f = Some 25"
  by code_simp

end
