(* ===== verification/Event_Pipe.thy ===== *)
theory Event_Pipe
  imports Event
begin

text \<open>
  src/libuzi/event.c in the configuration without \<open>eventfd\<close>: an event is a pipe, set while a byte is in it. Closing and the functions on
  descriptors are those of theory \<open>Event\<close>.
\<close>

section \<open>Operations\<close>

text \<open>
  The field at the offset of \<open>pipe_fd[1]\<close>: the flag \<open>bInit\<close> of a timer, the first descriptor of a thread, bytes of the implementation of a
  mutex.
\<close>

fun event_fd1 :: "kobject \<Rightarrow> int outcome" where
  "event_fd1 (EventObject e) = Done (pipe_fd1 e)"
| "event_fd1 (SemaphoreObject m) = Done (sem_fd1 m)"
| "event_fd1 (TimerObject t) = Done (if bInit t then 1 else 0)"
| "event_fd1 (ThreadObject t) = Done (thr_fd0 t)"
| "event_fd1 (MutexObject m) = Undefined"

text \<open>A byte is written only when a poll finds the event not set.\<close>

definition SetEvent_pipe :: "nat \<Rightarrow> addr \<Rightarrow> os \<Rightarrow> (bool \<times> os) outcome" where
  "SetEvent_pipe tid hEvent s = and_then (winpr_Handle_GetInfo hEvent s) (\<lambda>info.
     case info of
       None \<Rightarrow> Done (False, s)
     | Some Object \<Rightarrow> and_then (WaitForSingleObject tid no_wait hEvent 0 s) (\<lambda>(rc, s).
         if rc \<noteq> WAIT_OBJECT_0 then
           and_then (event_fd1 Object) (\<lambda>fd. and_then (sys_write fd 1 s) (\<lambda>(length, s). Done (length = 1, s)))
         else Done (True, s)))"

text \<open>\<open>pipe2\<close> is the result of \<open>pipe\<close>: \<open>None\<close> when it fails, else two free descriptors.\<close>

definition CreateEventW_pipe :: "nat \<Rightarrow> addr \<Rightarrow> (int \<times> int) option \<Rightarrow> bool \<Rightarrow> bool \<Rightarrow> os \<Rightarrow> (addr \<times> os) outcome" where
  "CreateEventW_pipe tid block pipe2 manual bInitialState s =
     (if block = NULL then Done (NULL, s)
      else let event = \<lparr>Mode = UZI_FD_READ, pipe_fd0 = 0, pipe_fd1 = 0, bAttached = False, bManualReset = manual\<rparr> in
      if \<not> bManualReset event then Done (NULL, s\<lparr>objects := (objects s)(block \<mapsto> EventObject event)\<rparr>)
      else case pipe2 of
        None \<Rightarrow> Done (NULL, s\<lparr>objects := (objects s)(block := None)\<rparr>)
      | Some (r, w) \<Rightarrow>
          let event = event\<lparr>pipe_fd0 := r, pipe_fd1 := w\<rparr>;
              s = (sys_pipe r w s)\<lparr>objects := (objects s)(block \<mapsto> EventObject event)\<rparr> in
          if bInitialState then and_then (SetEvent_pipe tid block s) (\<lambda>(_, s). Done (block, s)) else Done (block, s))"

text \<open>The loop of \<open>ResetEvent\<close> reads one byte a round, so that the bytes that are waiting bound the number of rounds.\<close>

fun reset_loop_pipe :: "nat \<Rightarrow> nat \<Rightarrow> addr \<Rightarrow> int outcome \<Rightarrow> os \<Rightarrow> (bool \<times> os) outcome" where
  "reset_loop_pipe 0 tid hEvent fd0 s = Blocks"
| "reset_loop_pipe (Suc fuel) tid hEvent fd0 s =
     and_then (WaitForSingleObject tid no_wait hEvent 0 s) (\<lambda>(rc, s).
       if rc = WAIT_OBJECT_0 then
         and_then fd0 (\<lambda>fd. and_then (sys_read fd 1 s) (\<lambda>(length, s).
           if length < 0 then Done (False, s) else reset_loop_pipe fuel tid hEvent fd0 s))
       else Done (True, s))"

definition ResetEvent_pipe :: "nat \<Rightarrow> addr \<Rightarrow> os \<Rightarrow> (bool \<times> os) outcome" where
  "ResetEvent_pipe tid hEvent s = and_then (winpr_Handle_GetInfo hEvent s) (\<lambda>info.
     case info of
       None \<Rightarrow> Done (False, s)
     | Some Object \<Rightarrow>
         reset_loop_pipe (Suc (case event_fd0 Object of Done fd \<Rightarrow> unread s fd | _ \<Rightarrow> 0)) tid hEvent (event_fd0 Object) s)"

section \<open>The contract of waitable objects\<close>

text \<open>A pipe with \<open>n\<close> bytes behind an event, open at both ends.\<close>

definition event_pipe :: "WINPR_EVENT \<Rightarrow> nat \<Rightarrow> nat \<Rightarrow> os \<Rightarrow> bool" where
  "event_pipe e p n s \<longleftrightarrow> Mode e = UZI_FD_READ \<and> 0 \<le> pipe_fd0 e \<and> \<not> bAttached e \<and> bManualReset e \<and>
     fds s (pipe_fd0 e) = Some (PipeRead p) \<and> fds s (pipe_fd1 e) = Some (PipeWrite p) \<and> p < length (pipes s) \<and>
     pipes s ! p = \<lparr>bytes = n, reader_open = True, writer_open = True\<rparr>"

definition piped :: "nat \<Rightarrow> addr \<Rightarrow> os \<Rightarrow> bool" where
  "piped n h s \<longleftrightarrow> (\<exists>e p. handle_to s h (EventObject e) \<and> event_pipe e p n s)"

interpretation pe: handle_ops piped "\<lambda>n. 0 < n" "\<lambda>n. n"
proof unfold_locales
  fix n h s
  assume h: "piped n h s"
  then obtain e p where e: "handle_to s h (EventObject e)" "event_pipe e p n s" unfolding piped_def by blast
  then show "\<exists>ob. handle_to s h ob \<and> \<not> is_MutexObject ob \<and> 0 \<le> object_fd ob \<and> Object_Mode ob = UZI_FD_READ \<and>
      revents s (object_fd ob, POLLIN) = (if 0 < n then POLLIN else 0)"
    by (intro exI [of _ "EventObject e"]) (simp add: event_pipe_def revents_readable)
  show "\<exists>s'. winpr_Handle_cleanup h s = Done (WAIT_OBJECT_0, s') \<and> piped n h s'"
    using cleanup_event [OF e(1)] h by blast
qed

text \<open>A poll of such an event reports whether a byte is there and changes nothing.\<close>

lemma poll_piped: "piped n h s \<Longrightarrow> WaitForSingleObject tid w h 0 s = Done (if 0 < n then WAIT_OBJECT_0 else WAIT_TIMEOUT, s)"
proof (cases "0 < n")
  case True
  assume h: "piped n h s"
  then obtain e where "handle_to s h (EventObject e)" unfolding piped_def by blast
  then show ?thesis using pe.wait_single_split [OF h] cleanup_event True by simp
qed (use pe.wait_unsignalled in simp)

section \<open>Lemmas\<close>

lemma event_pipe_update:
  "event_pipe e p n s \<Longrightarrow> event_pipe e p k (s\<lparr>pipes := (pipes s)[p := \<lparr>bytes = k, reader_open = True, writer_open = True\<rparr>]\<rparr>)"
  by (simp add: event_pipe_def)

lemma piped_update:
  "handle_to s h (EventObject e) \<Longrightarrow> event_pipe e p n s \<Longrightarrow>
   piped k h (s\<lparr>pipes := (pipes s)[p := \<lparr>bytes = k, reader_open = True, writer_open = True\<rparr>]\<rparr>)"
  unfolding piped_def by (intro exI conjI) (simp add: handle_to_def, erule event_pipe_update)

lemma SetEvent_piped:
  assumes "piped n h s" "n \<le> 1"
  shows "\<exists>s'. SetEvent_pipe tid h s = Done (True, s') \<and> piped 1 h s'"
proof -
  obtain e p where e: "handle_to s h (EventObject e)" "event_pipe e p n s" using assms(1) unfolding piped_def by blast
  show ?thesis
  proof (cases "n = 0")
    case True
    then have "sys_write (pipe_fd1 e) 1 s = Done (1, s\<lparr>pipes := (pipes s)[p := \<lparr>bytes = 1, reader_open = True, writer_open = True\<rparr>]\<rparr>)"
      using e(2) by (simp add: sys_write_def event_pipe_def)
    then show ?thesis using poll_piped [OF assms(1)] True piped_update [OF e] by (simp add: SetEvent_pipe_def GetInfo_handle [OF e(1)])
  next
    case False
    then have "n = 1" using assms(2) by simp
    then show ?thesis using poll_piped [OF assms(1)] assms(1) by (simp add: SetEvent_pipe_def GetInfo_handle [OF e(1)])
  qed
qed

lemma reset_loop_piped:
  "piped n h s \<Longrightarrow> handle_to s h (EventObject e) \<Longrightarrow> n < fuel \<Longrightarrow>
   \<exists>s'. reset_loop_pipe fuel tid h (Done (pipe_fd0 e)) s = Done (True, s') \<and> piped 0 h s'"
proof (induction n arbitrary: fuel s)
  case 0
  then show ?case using poll_piped [OF "0.prems"(1)] by (cases fuel) auto
next
  case (Suc n)
  then obtain p where p: "event_pipe e p (Suc n) s" by (auto simp: piped_def handle_to_def)
  let ?s = "s\<lparr>pipes := (pipes s)[p := \<lparr>bytes = n, reader_open = True, writer_open = True\<rparr>]\<rparr>"
  obtain k where k: "fuel = Suc k" "n < k" using Suc.prems(3) by (cases fuel) auto
  have "sys_read (pipe_fd0 e) 1 s = Done (1, ?s)" using p by (simp add: sys_read_def event_pipe_def Let_def min_def)
  then have "reset_loop_pipe fuel tid h (Done (pipe_fd0 e)) s = reset_loop_pipe k tid h (Done (pipe_fd0 e)) ?s"
    using poll_piped [OF Suc.prems(1)] k(1) by simp
  moreover have "handle_to ?s h (EventObject e)" using Suc.prems(2) by (simp add: handle_to_def)
  ultimately show ?case using Suc.IH [OF piped_update [OF Suc.prems(2) p] _ k(2)] by simp
qed

lemma ResetEvent_piped:
  assumes "piped n h s"
  shows "\<exists>s'. ResetEvent_pipe tid h s = Done (True, s') \<and> piped 0 h s'"
proof -
  obtain e p where e: "handle_to s h (EventObject e)" "event_pipe e p n s" using assms unfolding piped_def by blast
  then have "unread s (pipe_fd0 e) = n" by (simp add: unread_def event_pipe_def)
  then show ?thesis using reset_loop_piped [OF assms e(1), of "Suc n" tid] by (simp add: ResetEvent_pipe_def GetInfo_handle [OF e(1)])
qed

section \<open>Properties\<close>

text \<open>
  C19: Without \<open>eventfd\<close> a manual-reset event is still a flag, and never blocks. Creating one with two different free descriptors gives an event in the
  requested state. \<open>SetEvent\<close> succeeds and leaves exactly one byte in the pipe, however often the event was set before, so that its write cannot block; \<open>ResetEvent\<close>
  empties the pipe and returns TRUE, also when the application has written more bytes to it; a poll reports the flag and changes nothing.
\<close>

theorem pipe_event_is_flag:
  assumes "block \<noteq> NULL" "block \<noteq> INVALID_HANDLE_VALUE" "0 \<le> r" "r \<noteq> wr" and "piped n h s" and "b \<le> 1" "piped b g t"
  shows "(\<exists>s'. CreateEventW_pipe tid block (Some (r, wr)) True init s = Done (block, s') \<and> piped (if init then 1 else 0) block s') \<and>
    (\<exists>t'. SetEvent_pipe tid g t = Done (True, t') \<and> piped 1 g t') \<and>
    (\<exists>s'. ResetEvent_pipe tid h s = Done (True, s') \<and> piped 0 h s') \<and>
    WaitForSingleObject tid w h 0 s = Done (if 0 < n then WAIT_OBJECT_0 else WAIT_TIMEOUT, s)"
proof -
  let ?e = "\<lparr>Mode = UZI_FD_READ, pipe_fd0 = r, pipe_fd1 = wr, bAttached = False, bManualReset = True\<rparr>"
  let ?s = "(sys_pipe r wr s)\<lparr>objects := (objects s)(block \<mapsto> EventObject ?e)\<rparr>"
  have off: "piped 0 block ?s"
    using assms(1-4) by (auto simp: piped_def handle_to_def event_pipe_def sys_pipe_def)
  have "CreateEventW_pipe tid block (Some (r, wr)) True init s =
      (if init then and_then (SetEvent_pipe tid block ?s) (\<lambda>(_, s). Done (block, s)) else Done (block, ?s))"
    using assms(1) by (simp add: CreateEventW_pipe_def Let_def)
  then have "\<exists>s'. CreateEventW_pipe tid block (Some (r, wr)) True init s = Done (block, s') \<and> piped (if init then 1 else 0) block s'"
    using off SetEvent_piped [OF off, of tid] by (cases init) auto
  then show ?thesis using SetEvent_piped [OF assms(7,6), of tid] ResetEvent_piped [OF assms(5), of tid] poll_piped [OF assms(5)] by blast
qed

definition pipe_demo :: os where
  "pipe_demo = \<lparr>fds = [5 \<mapsto> PipeRead 0, 6 \<mapsto> PipeWrite 0], pipes = [\<lparr>bytes = 1, reader_open = True, writer_open = True\<rparr>],
     objects = [100 \<mapsto> EventObject \<lparr>Mode = UZI_FD_READ, pipe_fd0 = 5, pipe_fd1 = 6, bAttached = False, bManualReset = True\<rparr>],
     g_LastError = 0, thread_list = None, handler_installed = False\<rparr>"

lemma pipe_demo_piped: "piped 1 100 pipe_demo"
  by (auto simp: pipe_demo_def piped_def handle_to_def event_pipe_def)

theorem pipe_event_is_flag_witness:
  "\<exists>s1 s2 s3. CreateEventW_pipe 1 400 (Some (7, 8)) True True pipe_demo = Done (400, s1) \<and> piped 1 400 s1 \<and>
    SetEvent_pipe 1 100 pipe_demo = Done (True, s2) \<and> piped 1 100 s2 \<and> ResetEvent_pipe 1 100 pipe_demo = Done (True, s3) \<and> piped 0 100 s3"
  using pipe_event_is_flag [OF _ _ _ _ pipe_demo_piped _ pipe_demo_piped, of 400 7 8 1 True] by auto

end
