(* ===== verification/Timed_Lock.thy ===== *)
theory Timed_Lock
  imports Mutex
begin

text \<open>
  src/libuzi/wait.c in the configuration without \<open>pthread_mutex_timedlock\<close>: the replacement for that function and the timed wait on a mutex that calls it.
\<close>

section \<open>Operations\<close>

text \<open>The difference is converted to an unsigned number before it is split.\<close>

definition sleepytime :: "timespec \<Rightarrow> timespec \<Rightarrow> timespec" where
  "sleepytime timenow timeout = (let diff = ts_difftime timenow timeout in \<lparr>tv_sec = uint (diff div 1000000000), tv_nsec = uint (diff mod 1000000000)\<rparr>)"

text \<open>
  A call of \<open>nanosleep\<close> is a function of the requested time: it gives the reading of the monotonic clock that follows the sleep, and what the
  other threads do meanwhile. The loop does not return when it needs more sleeps than are listed.
\<close>

type_synonym nanosleep = "timespec \<Rightarrow> timespec \<times> (os \<Rightarrow> os)"

fun timedlock_loop :: "nat \<Rightarrow> addr \<Rightarrow> timespec \<Rightarrow> timespec \<Rightarrow> nanosleep list \<Rightarrow> timespec \<Rightarrow> os \<Rightarrow> (bool \<times> os) outcome" where
  "timedlock_loop tid h timeout request sleeps timenow s =
     (case objects s h of
        Some (MutexObject m) \<Rightarrow>
          (case pthread_mutex_trylock tid m of
             Some m' \<Rightarrow> Done (True, s\<lparr>objects := (objects s)(h \<mapsto> MutexObject m')\<rparr>)
           | None \<Rightarrow>
               if sint (ts_difftime timeout timenow) \<ge> 0 then Done (False, s)
               else (case sleeps of
                   [] \<Rightarrow> Blocks
                 | sleep # sleeps' \<Rightarrow> (case sleep request of (timenow', act) \<Rightarrow> timedlock_loop tid h timeout request sleeps' timenow' (act s))))
      | _ \<Rightarrow> Undefined)"

declare timedlock_loop.simps [simp del]

text \<open>\<open>first\<close> is the reading of the clock before the loop, \<open>second\<close> the one after the first attempt.\<close>

definition timedlock_replacement ::
  "nat \<Rightarrow> addr \<Rightarrow> timespec \<Rightarrow> timespec \<Rightarrow> timespec \<Rightarrow> nanosleep list \<Rightarrow> os \<Rightarrow> (bool \<times> os) outcome" where
  "timedlock_replacement tid h timeout first second sleeps s = timedlock_loop tid h timeout (sleepytime first timeout) sleeps second s"

text \<open>The other branches of \<open>WaitForSingleObject\<close> do not depend on the configuration.\<close>

definition WaitForSingleObject_replacement :: "nat \<Rightarrow> surroundings \<Rightarrow> nanosleep list \<Rightarrow> addr \<Rightarrow> DWORD \<Rightarrow> os \<Rightarrow> (DWORD \<times> os) outcome" where
  "WaitForSingleObject_replacement tid w sleeps hHandle dwMilliseconds s = and_then (winpr_Handle_GetInfo hHandle s) (\<lambda>info.
     case info of
       Some (MutexObject _) \<Rightarrow>
         if dwMilliseconds \<noteq> INFINITE then
           and_then (timedlock_replacement tid hHandle (ts_add_ms (monotonic w 0) dwMilliseconds) (monotonic w 1) (monotonic w 2) sleeps s)
             (\<lambda>(locked, s). if \<not> locked then Done (WAIT_TIMEOUT, s) else Done (WAIT_OBJECT_0, s))
         else WaitForSingleObject tid w hHandle dwMilliseconds s
     | _ \<Rightarrow> WaitForSingleObject tid w hHandle dwMilliseconds s)"

section \<open>Lemmas\<close>

text \<open>The differences are exact as long as they fit 63 bits.\<close>

lemma ts_difftime_diff: "ts_difftime old new = word_of_int (ts_ns new - ts_ns old)"
  by (simp add: ts_difftime_def ts_ns_def)

lemma sint_ts_difftime: "\<bar>ts_ns new - ts_ns old\<bar> < 2 ^ 63 \<Longrightarrow> sint (ts_difftime old new) = ts_ns new - ts_ns old"
  by (simp only: ts_difftime_diff sint_sbintrunc') (simp add: signed_take_bit_int_eq_self abs_less_iff)

lemma ts_ns_sleepytime:
  assumes "0 \<le> ts_ns timeout - ts_ns timenow" "ts_ns timeout - ts_ns timenow < 2 ^ 63"
  shows "ts_ns (sleepytime timenow timeout) = ts_ns timeout - ts_ns timenow"
proof -
  let ?d = "ts_difftime timenow timeout"
  have "uint ?d = ts_ns timeout - ts_ns timenow"
    by (simp only: ts_difftime_diff uint_word_of_int) (use assms in simp)
  then show ?thesis by (simp add: sleepytime_def Let_def ts_ns_def [of "\<lparr>tv_sec = _, tv_nsec = _\<rparr>"] uint_div uint_mod)
qed

lemma timedlock_acquire:
  assumes "mutex_at holder h s" "acquire tid holder = Some holder'"
  shows "\<exists>s'. timedlock_loop tid h timeout request sleeps timenow s = Done (True, s') \<and> mutex_at holder' h s'"
  using lock_loop_acquire [OF assms, of True "[]"] assms(1)
  by (subst timedlock_loop.simps) (auto simp: lock_loop.simps [of _ _ _ "[]"] mutex_at_def handle_to_def split: option.splits)

lemma timedlock_refused:
  assumes "mutex_at holder h s" "acquire tid holder = None" "\<bar>ts_ns timenow - ts_ns timeout\<bar> < 2 ^ 63"
  shows "timedlock_loop tid h timeout request sleeps timenow s =
    (if ts_ns timeout \<le> ts_ns timenow then Done (False, s)
     else case sleeps of [] \<Rightarrow> Blocks | sleep # sleeps' \<Rightarrow> timedlock_loop tid h timeout request sleeps' (fst (sleep request)) (snd (sleep request) s))"
proof -
  obtain m where m: "handle_to s h (MutexObject m)" "case holder of None \<Rightarrow> mux_owner m = None \<and> mux_count m = 0
      | Some (t, n) \<Rightarrow> mux_owner m = Some t \<and> mux_count m = n \<and> 0 < n"
    using assms(1) unfolding mutex_at_def by blast
  then have "objects s h = Some (MutexObject m)" "pthread_mutex_trylock tid m = None"
    using assms(2) by (cases holder; auto simp: handle_to_def pthread_mutex_trylock_def split: if_splits)+
  then show ?thesis
    by (subst timedlock_loop.simps) (simp add: sint_ts_difftime [OF assms(3)] case_prod_beta split: list.split)
qed

lemma WaitForSingleObject_replacement_mutex:
  assumes "mutex_at holder h s" "ms \<noteq> INFINITE"
  shows "WaitForSingleObject_replacement tid w sleeps h ms s =
    and_then (timedlock_loop tid h (ts_add_ms (monotonic w 0) ms) (sleepytime (monotonic w 1) (ts_add_ms (monotonic w 0) ms)) sleeps (monotonic w 2) s)
      (\<lambda>(locked, s). Done (if locked then WAIT_OBJECT_0 else WAIT_TIMEOUT, s))"
proof -
  obtain m where "handle_to s h (MutexObject m)" using assms(1) unfolding mutex_at_def by blast
  then show ?thesis using assms(2)
    by (auto simp: WaitForSingleObject_replacement_def GetInfo_handle timedlock_replacement_def intro!: arg_cong2 [where f = and_then])
qed

section \<open>Properties\<close>

text \<open>
  C22: A timed wait on a mutex, on a system without \<open>pthread_mutex_timedlock\<close>, returns after at most one sleep, provided that the clock does not
  go back and that \<open>nanosleep\<close> sleeps for the time it is asked for. A mutex that the thread may take is taken at once. When the deadline has
  passed, the wait times out at once. Otherwise the thread sleeps once, from the first reading of the clock to the deadline; then it takes
  the mutex when it may, and times out when it may not. So a time-out is never reported before the deadline, and a mutex that is
  released during the sleep is obtained only at the deadline.
\<close>

theorem timed_mutex_wait_one_sleep:
  assumes "mutex_at holder h s" "ms \<noteq> INFINITE"
    and "deadline = ts_add_ms (monotonic w 0) ms" "request = sleepytime (monotonic w 1) deadline"
    and "0 \<le> ts_ns (monotonic w 0)" "ts_ns (monotonic w 0) \<le> ts_ns (monotonic w 1)" "ts_ns (monotonic w 1) \<le> ts_ns (monotonic w 2)"
    and "ts_ns (monotonic w 2) < 2 ^ 62"
    and "sleep request = (later, act)" "ts_ns (monotonic w 2) + ts_ns request \<le> ts_ns later" "ts_ns later < 2 ^ 62"
    and "mutex_at holder2 h (act s)"
  shows "case acquire tid holder of
      Some holder' \<Rightarrow> \<exists>s'. WaitForSingleObject_replacement tid w [] h ms s = Done (WAIT_OBJECT_0, s') \<and> mutex_at holder' h s'
    | None \<Rightarrow>
        if ts_ns deadline \<le> ts_ns (monotonic w 2) then WaitForSingleObject_replacement tid w [] h ms s = Done (WAIT_TIMEOUT, s)
        else ts_ns request = ts_ns deadline - ts_ns (monotonic w 1) \<and> ts_ns deadline \<le> ts_ns later \<and>
          (case acquire tid holder2 of
             Some holder' \<Rightarrow> \<exists>s'. WaitForSingleObject_replacement tid w [sleep] h ms s = Done (WAIT_OBJECT_0, s') \<and> mutex_at holder' h s'
           | None \<Rightarrow> WaitForSingleObject_replacement tid w [sleep] h ms s = Done (WAIT_TIMEOUT, act s))"
proof (cases "acquire tid holder")
  case (Some holder')
  then show ?thesis
    using timedlock_acquire [OF assms(1) Some, of deadline request "[]" "monotonic w 2"] WaitForSingleObject_replacement_mutex [OF assms(1,2), of tid w "[]"]
    by (auto simp: assms(3,4))
next
  case None
  have due: "ts_ns (monotonic w 0) \<le> ts_ns deadline" "ts_ns deadline < ts_ns (monotonic w 0) + 2 ^ 52"
    using uint_lt2p [of ms] by (simp_all add: assms(3) ts_ns_add_ms)
  have "0 \<le> ts_ns request" by (simp add: assms(4) ts_ns_def sleepytime_def Let_def)
  then have now: "\<bar>ts_ns (monotonic w 2) - ts_ns deadline\<bar> < 2 ^ 63" and then': "\<bar>ts_ns later - ts_ns deadline\<bar> < 2 ^ 63"
    using assms(5-8,10,11) due by (simp_all add: abs_less_iff)
  note wait = WaitForSingleObject_replacement_mutex [OF assms(1,2), of tid w, folded assms(3), folded assms(4)]
  note refused = timedlock_refused [OF assms(1) None now, of request]
  show ?thesis
  proof (cases "ts_ns deadline \<le> ts_ns (monotonic w 2)")
    case True
    then show ?thesis using None wait [of "[]"] refused [of "[]"] by simp
  next
    case False
    have req: "ts_ns request = ts_ns deadline - ts_ns (monotonic w 1)"
      unfolding assms(4) using False assms(5-8) due by (intro ts_ns_sleepytime) auto
    then have late: "ts_ns deadline \<le> ts_ns later" using assms(7,10) by simp
    have slept: "timedlock_loop tid h deadline request [sleep] (monotonic w 2) s = timedlock_loop tid h deadline request [] later (act s)"
      using refused [of "[sleep]"] False assms(9) by simp
    then have "WaitForSingleObject_replacement tid w [sleep] h ms s = and_then (timedlock_loop tid h deadline request [] later (act s))
        (\<lambda>(locked, s). Done (if locked then WAIT_OBJECT_0 else WAIT_TIMEOUT, s))"
      using wait [of "[sleep]"] by simp
    then show ?thesis
      using None False req late timedlock_acquire [OF assms(12), of tid _ deadline request "[]" later]
        timedlock_refused [OF assms(12) _ then', of tid request "[]"]
      by (cases "acquire tid holder2") auto
  qed
qed

definition held_mutex :: os where
  "held_mutex = \<lparr>fds = Map.empty, pipes = [], objects = [8 \<mapsto> MutexObject \<lparr>mux_Mode = UZI_FD_READ, mux_owner = Some 2, mux_count = 1\<rparr>],
     g_LastError = 0, thread_list = None, handler_installed = False\<rparr>"

theorem timed_mutex_wait_one_sleep_witness:
  "WaitForSingleObject_replacement 1 \<lparr>others = [], monotonic = \<lambda>_. \<lparr>tv_sec = 5, tv_nsec = 0\<rparr>, realtime = \<lambda>_. \<lparr>tv_sec = 0, tv_nsec = 0\<rparr>\<rparr>
     [\<lambda>request. (\<lparr>tv_sec = 5, tv_nsec = 20000000\<rparr>, id)] 8 10 held_mutex = Done (WAIT_TIMEOUT, held_mutex)"
proof -
  have "mutex_at (Some (2, 1)) 8 held_mutex" by (simp add: mutex_at_def handle_to_def held_mutex_def)
  then show ?thesis
    using timed_mutex_wait_one_sleep [of "Some (2, 1)" 8 held_mutex 10 _
        "\<lparr>others = [], monotonic = \<lambda>_. \<lparr>tv_sec = 5, tv_nsec = 0\<rparr>, realtime = \<lambda>_. \<lparr>tv_sec = 0, tv_nsec = 0\<rparr>\<rparr>" _
        "\<lambda>request. (\<lparr>tv_sec = 5, tv_nsec = 20000000\<rparr>, id)" "\<lparr>tv_sec = 5, tv_nsec = 20000000\<rparr>" id "Some (2, 1)" 1]
    by (simp add: ts_ns_add_ms ts_ns_sleepytime ts_ns_def [of "\<lparr>tv_sec = _, tv_nsec = _\<rparr>"])
qed

end
