(* ===== verification/Timer_Fallback.thy ===== *)
theory Timer_Fallback
  imports Waitable_Timer Timer_Queue
begin

text \<open>
  The waitable timers of src/libuzi/timer.c on systems without \<open>timerfd\<close> (\<open>posix\<close>: with POSIX timers, as Linux has them), and the start of the thread of a
  timer queue.
\<close>

section \<open>Operations\<close>

definition InitializeWaitableTimer_fallback :: "bool \<Rightarrow> bool \<Rightarrow> addr \<Rightarrow> WINPR_TIMER \<Rightarrow> os \<Rightarrow> int \<times> os" where
  "InitializeWaitableTimer_fallback posix created handle timer s =
     (if lpArgToCompletionRoutine timer = NULL then (- 1, put_timer handle (timer\<lparr>bInit := True\<rparr>) s)
      else if posix then
        let s = InstallWaitableTimerSignalHandler s in
        if \<not> created then (- 1, s) else (0, put_timer handle (timer\<lparr>bInit := True\<rparr>) s)
      else (- 1, put_timer handle (timer\<lparr>bInit := True\<rparr>) s))"

text \<open>Without a descriptor there is nothing to arm when there is no completion routine; without POSIX timers there is nothing to arm at all.\<close>

definition SetWaitableTimer_fallback :: "bool \<Rightarrow> bool \<Rightarrow> bool \<Rightarrow> addr \<Rightarrow> u64 option \<Rightarrow> LONG \<Rightarrow> addr \<Rightarrow> addr \<Rightarrow> os \<Rightarrow> (bool \<times> os) outcome" where
  "SetWaitableTimer_fallback posix created settime hTimer lpDueTime period pfn lpArg s =
     and_then (winpr_Handle_GetInfo hTimer s) (\<lambda>info.
       case info of
         Some (TimerObject timer) \<Rightarrow>
           (case lpDueTime of
              None \<Rightarrow> Done (False, s)
            | Some due \<Rightarrow>
                if sint period < 0 then Done (False, s)
                else let timer = timer\<lparr>lPeriod := period, pfnCompletionRoutine := pfn, lpArgToCompletionRoutine := lpArg\<rparr>;
                         s = put_timer hTimer timer s;
                         (r, s) = (if \<not> bInit timer then InitializeWaitableTimer_fallback posix created hTimer timer s else (0, s))
                     in if r < 0 then Done (False, s)
                        else if \<not> posix then Done (True, s)
                        else if sint due = - (2 ^ 63) then Undefined
                        else let timer = the_timer (the (objects s hTimer)) in
                          case due_timeout due period of
                            None \<Rightarrow> Done (False, put_timer hTimer (timer\<lparr>tmr_timeout := zero_itimerspec\<rparr>) s)
                          | Some t \<Rightarrow>
                              let s = put_timer hTimer (timer\<lparr>tmr_timeout := t\<rparr>) s in
                              if pfn = NULL then Done (True, s) else Done (settime, s))
       | _ \<Rightarrow> Done (False, s))"

text \<open>
  Starting the thread of a timer queue: the result, and whether the thread runs (\<open>created\<close> is the success of \<open>pthread_create\<close>, which is
  not looked at). The settings of the priority and the initialisations of the locks have no other effect on the queue.
\<close>

definition StartTimerQueueThread :: "bool \<Rightarrow> int \<times> bool" where
  "StartTimerQueueThread created = (0, created)"

definition CreateTimerQueue_started :: "addr \<Rightarrow> bool \<Rightarrow> addr \<times> (WINPR_TIMER_QUEUE \<times> bool) option" where
  "CreateTimerQueue_started block created =
     (case CreateTimerQueue block of (handle, q) \<Rightarrow> (handle, map_option (\<lambda>q. (q, snd (StartTimerQueueThread created))) q))"

section \<open>Properties\<close>

lemma first_call_fails:
  assumes "handle_to s h (TimerObject t)" "\<not> bInit t" "0 \<le> sint period"
  shows "SetWaitableTimer_fallback posix created settime h (Some due) period NULL NULL s =
    Done (False, put_timer h (t\<lparr>lPeriod := period, pfnCompletionRoutine := NULL, lpArgToCompletionRoutine := NULL, bInit := True\<rparr>) s)"
  using assms GetInfo_handle [OF assms(1)] by (simp add: SetWaitableTimer_fallback_def InitializeWaitableTimer_fallback_def put_timer_def Let_def)

lemma second_call_succeeds:
  assumes "handle_to s h (TimerObject t)" "bInit t" "0 \<le> sint period" "sint due \<le> 0" "sint due \<noteq> - (2 ^ 63)"
  shows "\<exists>t'. SetWaitableTimer_fallback posix created settime h (Some due) period NULL NULL s = Done (True, put_timer h t' s) \<and>
    tmr_fd t' = tmr_fd t \<and> bInit t'"
  using assms GetInfo_handle [OF assms(1)]
  by (cases posix) (auto simp: SetWaitableTimer_fallback_def put_timer_def Let_def due_timeout_def)

text \<open>
  On a system without \<open>timerfd\<close> a new timer cannot be set: the first call fails, but marks the timer as initialised. Every later call
  with a due time that has not passed succeeds, although no timer of the system was created or armed. A wait for the timer fails.
\<close>

theorem timer_without_descriptor:
  assumes "handle_to s h (TimerObject t)" "\<not> bInit t" "tmr_fd t = - 1" "0 \<le> sint period" "sint due \<le> 0" "sint due \<noteq> - (2 ^ 63)"
  shows "\<exists>s1 s2. SetWaitableTimer_fallback posix created settime h (Some due) period NULL NULL s = Done (False, s1) \<and>
    SetWaitableTimer_fallback posix created settime h (Some due) period NULL NULL s1 = Done (True, s2) \<and> fds s2 = fds s \<and>
    WaitForSingleObject tid w h ms s2 = Done (WAIT_FAILED, SetLastError ERROR_INVALID_HANDLE s2)"
proof -
  let ?t = "t\<lparr>lPeriod := period, pfnCompletionRoutine := NULL, lpArgToCompletionRoutine := NULL, bInit := True\<rparr>"
  have put: "handle_to (put_timer h u s') h (TimerObject u)" for u s' using assms(1) by (simp add: handle_to_def put_timer_def)
  obtain t' where t': "SetWaitableTimer_fallback posix created settime h (Some due) period NULL NULL (put_timer h ?t s) = Done (True, put_timer h t' (put_timer h ?t s))"
    "tmr_fd t' = - 1" using second_call_succeeds [OF put [of ?t s] _ assms(4-6), of posix created settime] assms(3) by auto
  let ?s = "put_timer h t' (put_timer h ?t s)"
  have "WaitForSingleObject tid w h ms ?s = Done (WAIT_FAILED, SetLastError ERROR_INVALID_HANDLE ?s)"
    using t'(2) by (simp add: WaitForSingleObject_def GetInfo_handle [OF put] getFd_handle [OF put])
  moreover have "fds ?s = fds s" by (simp add: put_timer_def)
  ultimately show ?thesis using first_call_fails [OF assms(1,2,4)] t'(1) by blast
qed

definition new_timer :: os where
  "new_timer = snd (CreateWaitableTimerA 8 True \<lparr>fds = Map.empty, pipes = [], objects = Map.empty, g_LastError = 0, thread_list = None, handler_installed = False\<rparr>)"

theorem timer_without_descriptor_witness:
  "\<exists>s1 s2. SetWaitableTimer_fallback True True True 8 (Some (- 10000000)) 0 NULL NULL new_timer = Done (False, s1) \<and>
    SetWaitableTimer_fallback True True True 8 (Some (- 10000000)) 0 NULL NULL s1 = Done (True, s2)"
proof -
  obtain t where "handle_to new_timer 8 (TimerObject t)" "\<not> bInit t" "tmr_fd t = - 1"
    by (auto simp: new_timer_def CreateWaitableTimerA_def put_timer_def handle_to_def)
  from timer_without_descriptor [OF this, of 0 "- 10000000" True True True 0 no_wait 0] show ?thesis by auto
qed

end
