(* ===== verification/Interlocked_Mutex.thy ===== *)
theory Interlocked_Mutex
  imports Interlocked
begin

text \<open>
  src/libuzi/interlocked.c: \<open>InterlockedCompareExchange64\<close> on systems without an atomic instruction for 64 bits. A mutex makes it atomic: on
  Windows one that the first call creates, elsewhere a static pthread mutex. The calls of any number of threads are interleaved, one access to
  shared memory or one call of the system at a time.
\<close>

section \<open>State and steps\<close>

text \<open>A call of the function is at one of these places; it carries the local variables that are live there.\<close>

datatype cas_pc =
    Test
  | Create
  | Swap (own: addr)
  | CloseOwn (own: addr)
  | LockWait
  | Read (locked: bool)
  | Compare (locked: bool) (previousValue: u64)
  | Store (locked: bool) (previousValue: u64)
  | Unlock (locked: bool) (previousValue: u64)
  | Return (previousValue: u64)

text \<open>
  \<open>static_mutex\<close> is the static variable, \<open>open_mutexes\<close> gives the open mutex handles with their owners. Calls are numbered: a thread that makes
  several calls has several numbers.
\<close>

record cas_state =
  static_mutex :: addr
  open_mutexes :: "addr \<rightharpoonup> nat option"
  Destination :: u64
  pc :: "nat \<Rightarrow> cas_pc"

definition at_pc :: "nat \<Rightarrow> cas_pc \<Rightarrow> cas_state \<Rightarrow> cas_state" where
  "at_pc t p s = s\<lparr>pc := (pc s)(t := p)\<rparr>"

text \<open>
  The steps of \<open>static_mutex_lock\<close>. \<open>handle\<close> is what \<open>CreateMutex\<close> gives: \<open>NULL\<close> or a handle that is not open. A wait for a mutex that is
  held blocks: there is no step.
\<close>

fun static_mutex_lock_step :: "nat \<Rightarrow> addr \<Rightarrow> cas_state \<Rightarrow> cas_pc \<Rightarrow> cas_state option" where
  "static_mutex_lock_step t handle s Test = Some (at_pc t (if static_mutex s = NULL then Create else LockWait) s)"
| "static_mutex_lock_step t handle s Create =
     (if handle = NULL then Some (at_pc t (Read False) s)
      else if open_mutexes s handle \<noteq> None then None
      else Some (at_pc t (Swap handle) (s\<lparr>open_mutexes := (open_mutexes s)(handle \<mapsto> None)\<rparr>)))"
| "static_mutex_lock_step t handle s (Swap h) =
     (case InterlockedCompareExchangePointer (static_mutex s) h NULL of (old, new) \<Rightarrow>
        Some (at_pc t (if old \<noteq> NULL then CloseOwn h else LockWait) (s\<lparr>static_mutex := new\<rparr>)))"
| "static_mutex_lock_step t handle s (CloseOwn h) = Some (at_pc t LockWait (s\<lparr>open_mutexes := (open_mutexes s)(h := None)\<rparr>))"
| "static_mutex_lock_step t handle s LockWait =
     (case open_mutexes s (static_mutex s) of
        None \<Rightarrow> Some (at_pc t (Read False) s)
      | Some None \<Rightarrow> Some (at_pc t (Read True) (s\<lparr>open_mutexes := (open_mutexes s)(static_mutex s \<mapsto> Some t)\<rparr>))
      | Some (Some _) \<Rightarrow> None)"
| "static_mutex_lock_step t handle s _ = None"

text \<open>The steps of the function itself, for a call with the arguments \<open>Exchange\<close> and \<open>Comperand\<close>.\<close>

fun CompareExchange64_step :: "u64 \<Rightarrow> u64 \<Rightarrow> nat \<Rightarrow> addr \<Rightarrow> cas_state \<Rightarrow> cas_pc \<Rightarrow> cas_state option" where
  "CompareExchange64_step Exchange Comperand t handle s (Read l) = Some (at_pc t (Compare l (Destination s)) s)"
| "CompareExchange64_step Exchange Comperand t handle s (Compare l p) =
     Some (at_pc t (if Destination s = Comperand then Store l p else Unlock l p) s)"
| "CompareExchange64_step Exchange Comperand t handle s (Store l p) = Some (at_pc t (Unlock l p) (s\<lparr>Destination := Exchange\<rparr>))"
| "CompareExchange64_step Exchange Comperand t handle s (Unlock l p) =
     Some (at_pc t (Return p)
       (if l then s\<lparr>open_mutexes := (open_mutexes s)(static_mutex s \<mapsto> None)\<rparr> else s))"
| "CompareExchange64_step Exchange Comperand t handle s (Return p) = None"
| "CompareExchange64_step Exchange Comperand t handle s p = static_mutex_lock_step t handle s p"

type_synonym cas_args = "nat \<Rightarrow> u64 \<times> u64"

definition cas_step :: "cas_args \<Rightarrow> nat \<Rightarrow> addr \<Rightarrow> cas_state \<Rightarrow> cas_state option" where
  "cas_step args t handle s = CompareExchange64_step (fst (args t)) (snd (args t)) t handle s (pc s t)"

text \<open>Before any call. The pthread mutex exists from the start; its calls begin with the lock.\<close>

definition cas_init_windows :: "u64 \<Rightarrow> cas_state" where
  "cas_init_windows d = \<lparr>static_mutex = NULL, open_mutexes = Map.empty, Destination = d, pc = \<lambda>_. Test\<rparr>"

definition cas_init_pthread :: "u64 \<Rightarrow> cas_state" where
  "cas_init_pthread d = \<lparr>static_mutex = 1, open_mutexes = [1 \<mapsto> None], Destination = d, pc = \<lambda>_. LockWait\<rparr>"

section \<open>Executions\<close>

text \<open>
  A call takes effect with the step that leaves it with nothing but the release. The executions are those in which \<open>CreateMutex\<close> succeeds; they
  record the order in which the calls take effect.
\<close>

definition takes_effect :: "nat \<Rightarrow> cas_state \<Rightarrow> cas_state \<Rightarrow> bool" where
  "takes_effect t s s' \<longleftrightarrow> \<not> is_Unlock (pc s t) \<and> is_Unlock (pc s' t)"

inductive cas_run :: "cas_args \<Rightarrow> cas_state \<Rightarrow> nat list \<Rightarrow> cas_state \<Rightarrow> bool" for args s\<^sub>0 where
  start: "cas_run args s\<^sub>0 [] s\<^sub>0"
| step: "cas_run args s\<^sub>0 order s \<Longrightarrow> handle \<noteq> NULL \<Longrightarrow> cas_step args t handle s = Some s' \<Longrightarrow>
    cas_run args s\<^sub>0 (if takes_effect t s s' then order @ [t] else order) s'"

text \<open>The specification: the calls one after the other, each atomic.\<close>

fun atomic_calls :: "cas_args \<Rightarrow> nat list \<Rightarrow> u64 \<Rightarrow> (nat \<times> u64) list \<times> u64" where
  "atomic_calls args [] d = ([], d)"
| "atomic_calls args (t # ts) d =
     (case InterlockedCompareExchange64 d (fst (args t)) (snd (args t)) of (r, d') \<Rightarrow>
        case atomic_calls args ts d' of (rs, d'') \<Rightarrow> ((t, r) # rs, d''))"

lemma atomic_calls_snoc:
  "atomic_calls args (ts @ [t]) d = (case atomic_calls args ts d of (rs, d') \<Rightarrow>
     (rs @ [(t, d')], if d' = snd (args t) then fst (args t) else d'))"
  by (induction ts arbitrary: d) (simp_all add: InterlockedCompareExchange64_def case_prod_beta)

lemma atomic_calls_order: "map fst (fst (atomic_calls args ts d)) = ts"
  by (induction ts arbitrary: d) (simp_all add: case_prod_beta)

section \<open>Invariant\<close>

definition holds_lock :: "nat \<Rightarrow> cas_state \<Rightarrow> bool" where
  "holds_lock t s \<longleftrightarrow> open_mutexes s (static_mutex s) = Some (Some t)"

definition owns :: "nat \<Rightarrow> addr \<Rightarrow> cas_state \<Rightarrow> bool" where
  "owns t h s \<longleftrightarrow> pc s t = Swap h \<or> pc s t = CloseOwn h"

fun call_ok :: "cas_args \<Rightarrow> (nat \<times> u64) list \<Rightarrow> nat \<Rightarrow> cas_state \<Rightarrow> cas_pc \<Rightarrow> bool" where
  "call_ok args rs t s (Swap h) \<longleftrightarrow> map_of rs t = None \<and> h \<noteq> NULL \<and> h \<noteq> static_mutex s \<and> open_mutexes s h = Some None"
| "call_ok args rs t s (CloseOwn h) \<longleftrightarrow>
     map_of rs t = None \<and> h \<noteq> NULL \<and> h \<noteq> static_mutex s \<and> open_mutexes s h = Some None \<and> static_mutex s \<noteq> NULL"
| "call_ok args rs t s LockWait \<longleftrightarrow> map_of rs t = None \<and> static_mutex s \<noteq> NULL"
| "call_ok args rs t s (Read l) \<longleftrightarrow> map_of rs t = None \<and> l \<and> holds_lock t s"
| "call_ok args rs t s (Compare l p) \<longleftrightarrow> map_of rs t = None \<and> l \<and> holds_lock t s \<and> p = Destination s"
| "call_ok args rs t s (Store l p) \<longleftrightarrow> map_of rs t = None \<and> l \<and> holds_lock t s \<and> p = Destination s \<and> p = snd (args t)"
| "call_ok args rs t s (Unlock l p) \<longleftrightarrow> map_of rs t = Some p \<and> l \<and> holds_lock t s"
| "call_ok args rs t s (Return p) \<longleftrightarrow> map_of rs t = Some p"
| "call_ok args rs t s _ \<longleftrightarrow> map_of rs t = None"

definition in_lock :: "cas_pc \<Rightarrow> bool" where
  "in_lock p \<longleftrightarrow> is_Read p \<or> is_Compare p \<or> is_Store p \<or> is_Unlock p"

definition mutexes_ok :: "cas_state \<Rightarrow> bool" where
  "mutexes_ok s \<longleftrightarrow> (static_mutex s \<noteq> NULL \<longrightarrow> open_mutexes s (static_mutex s) \<noteq> None) \<and> open_mutexes s NULL = None \<and>
     (\<forall>t. holds_lock t s \<longrightarrow> in_lock (pc s t)) \<and> (\<forall>t u h. owns t h s \<and> owns u h s \<longrightarrow> t = u) \<and>
     (\<forall>h. open_mutexes s h \<noteq> None \<longrightarrow> h = static_mutex s \<or> (\<exists>t. owns t h s))"

definition cas_inv :: "cas_args \<Rightarrow> u64 \<Rightarrow> nat list \<Rightarrow> cas_state \<Rightarrow> bool" where
  "cas_inv args d order s \<longleftrightarrow> mutexes_ok s \<and> Destination s = snd (atomic_calls args order d) \<and>
     (\<forall>t. call_ok args (fst (atomic_calls args order d)) t s (pc s t))"

lemma init_ok: "cas_inv args d [] (cas_init_windows d)" "cas_inv args d [] (cas_init_pthread d)"
  by (auto simp: cas_inv_def mutexes_ok_def cas_init_windows_def cas_init_pthread_def holds_lock_def owns_def)

lemma call_ok_frame:
  assumes "call_ok args rs u s p" "map_of rs' u = map_of rs u" "static_mutex s \<noteq> NULL \<longrightarrow> static_mutex s' \<noteq> NULL"
    and "\<And>h. p = Swap h \<or> p = CloseOwn h \<Longrightarrow> open_mutexes s h = Some None \<Longrightarrow> open_mutexes s' h = Some None \<and> h \<noteq> static_mutex s'"
    and "in_lock p \<Longrightarrow> holds_lock u s \<Longrightarrow> holds_lock u s' \<and> Destination s' = Destination s"
  shows "call_ok args rs' u s' p"
  using assms by (cases p) (auto simp: in_lock_def)

lemma at_pc_simps [simp]:
  "pc (at_pc t q s) = (pc s)(t := q)" "static_mutex (at_pc t q s) = static_mutex s" "open_mutexes (at_pc t q s) = open_mutexes s"
  "Destination (at_pc t q s) = Destination s" "holds_lock u (at_pc t q s) = holds_lock u s"
  by (simp_all add: at_pc_def holds_lock_def)

lemma owns_at_pc [simp]: "owns u h (at_pc t q s) = (if u = t then q = Swap h \<or> q = CloseOwn h else owns u h s)"
  by (simp add: owns_def)

lemma holder_unique: "holds_lock t s \<Longrightarrow> holds_lock u s \<Longrightarrow> t = u"
  by (simp add: holds_lock_def)

lemma mutexes_okI:
  assumes "static_mutex s \<noteq> NULL \<Longrightarrow> open_mutexes s (static_mutex s) \<noteq> None" "open_mutexes s NULL = None"
    and "\<And>t. holds_lock t s \<Longrightarrow> in_lock (pc s t)" "\<And>t u h. owns t h s \<Longrightarrow> owns u h s \<Longrightarrow> t = u"
    and "\<And>h. open_mutexes s h \<noteq> None \<Longrightarrow> h \<noteq> static_mutex s \<Longrightarrow> \<exists>t. owns t h s"
  shows "mutexes_ok s"
  unfolding mutexes_ok_def using assms by blast

lemma mutexes_okD:
  assumes "mutexes_ok s"
  shows "static_mutex s \<noteq> NULL \<Longrightarrow> open_mutexes s (static_mutex s) \<noteq> None" "open_mutexes s NULL = None"
    and "\<And>t. holds_lock t s \<Longrightarrow> in_lock (pc s t)" "\<And>t u h. owns t h s \<Longrightarrow> owns u h s \<Longrightarrow> t = u"
    and "\<And>h. open_mutexes s h \<noteq> None \<Longrightarrow> h \<noteq> static_mutex s \<Longrightarrow> \<exists>t. owns t h s"
  using assms unfolding mutexes_ok_def by blast+

lemma owned_open: "call_ok args rs t s (pc s t) \<Longrightarrow> owns t h s \<Longrightarrow> open_mutexes s h = Some None \<and> h \<noteq> static_mutex s \<and> h \<noteq> NULL"
  by (auto simp: owns_def)

text \<open>A step that changes only the place of a call.\<close>

lemma mutexes_ok_at_pc:
  assumes "mutexes_ok s" "in_lock (pc s t) \<longrightarrow> in_lock q" "\<And>h. owns t h s \<longleftrightarrow> q = Swap h \<or> q = CloseOwn h"
  shows "mutexes_ok (at_pc t q s)"
proof -
  have owns: "owns u h (at_pc t q s) \<longleftrightarrow> owns u h s" for u h using assms(3) by simp
  show ?thesis using mutexes_okD [OF assms(1)] assms(2) unfolding mutexes_ok_def owns by (simp add: all_conj_distrib) blast
qed

text \<open>Steps that do not take effect keep the results of the calls; a step that does appends one.\<close>

lemma call_step_ok:
  assumes "cas_inv args d order s" "pc s' = (pc s)(t := q)" "mutexes_ok s'" "call_ok args rs' t s' q"
    and "static_mutex s \<noteq> NULL \<longrightarrow> static_mutex s' \<noteq> NULL" "\<And>u. u \<noteq> t \<Longrightarrow> map_of rs' u = map_of (fst (atomic_calls args order d)) u"
    and "\<And>u h. u \<noteq> t \<Longrightarrow> owns u h s \<Longrightarrow> open_mutexes s h = Some None \<Longrightarrow> open_mutexes s' h = Some None \<and> h \<noteq> static_mutex s'"
    and "\<And>u. u \<noteq> t \<Longrightarrow> holds_lock u s \<Longrightarrow> holds_lock u s' \<and> Destination s' = Destination s"
  shows "mutexes_ok s' \<and> (\<forall>u. call_ok args rs' u s' (pc s' u))"
proof -
  have "call_ok args rs' u s' (pc s u)" if "u \<noteq> t" for u
    using assms(1) by (intro call_ok_frame [where s = s, OF _ assms(6) [OF that] assms(5)])
      (use that assms(7,8) in \<open>auto simp: cas_inv_def owns_def\<close>)
  then show ?thesis using assms(2-4) by simp
qed

lemma inv_silent:
  assumes "\<not> takes_effect t s s'" "cas_inv args d order s" "Destination s' = Destination s"
    and "mutexes_ok s' \<and> (\<forall>u. call_ok args (fst (atomic_calls args order d)) u s' (pc s' u))"
  shows "cas_inv args d (if takes_effect t s s' then order @ [t] else order) s'"
  using assms by (simp add: cas_inv_def)

lemma inv_effect:
  assumes "takes_effect t s s'" "cas_inv args d order s" "map_of (fst (atomic_calls args order d)) t = None"
    and "Destination s' = (if Destination s = snd (args t) then fst (args t) else Destination s)"
    and "mutexes_ok s' \<and> (\<forall>u. call_ok args (fst (atomic_calls args order d) @ [(t, Destination s)]) u s' (pc s' u))"
  shows "cas_inv args d (if takes_effect t s s' then order @ [t] else order) s'"
  using assms by (simp add: cas_inv_def atomic_calls_snoc case_prod_beta)

definition keeps_inv :: "cas_args \<Rightarrow> nat \<Rightarrow> cas_state \<Rightarrow> cas_state \<Rightarrow> bool" where
  "keeps_inv args t s s' \<longleftrightarrow>
     (\<forall>d order. cas_inv args d order s \<longrightarrow> cas_inv args d (if takes_effect t s s' then order @ [t] else order) s')"

lemma invD:
  assumes "cas_inv args d order s"
  shows "mutexes_ok s" "call_ok args (fst (atomic_calls args order d)) u s (pc s u)"
  using assms by (simp_all add: cas_inv_def)

lemma move_keeps:
  assumes "\<not> is_Unlock q" "in_lock (pc s t) \<longrightarrow> in_lock q" "\<And>h. owns t h s \<longleftrightarrow> q = Swap h \<or> q = CloseOwn h"
    and "\<And>rs. mutexes_ok s \<Longrightarrow> call_ok args rs t s (pc s t) \<Longrightarrow> call_ok args rs t (at_pc t q s) q"
  shows "keeps_inv args t s (at_pc t q s)"
  unfolding keeps_inv_def
proof (intro allI impI)
  fix d order
  assume inv: "cas_inv args d order s"
  note ok = invD(1) [OF inv] and call = invD(2) [OF inv]
  show "cas_inv args d (if takes_effect t s (at_pc t q s) then order @ [t] else order) (at_pc t q s)"
    using mutexes_ok_at_pc [OF ok assms(2,3)] assms(1) assms(4) [OF ok call] owned_open [OF call]
    by (intro inv_silent [OF _ inv] call_step_ok [OF inv]) (auto simp: takes_effect_def)
qed

lemma create_keeps:
  assumes "pc s t = Create" "h \<noteq> NULL" "open_mutexes s h = None"
  shows "keeps_inv args t s (at_pc t (Swap h) (s\<lparr>open_mutexes := (open_mutexes s)(h \<mapsto> None)\<rparr>))" (is "keeps_inv _ _ _ ?s")
  unfolding keeps_inv_def
proof (intro allI impI)
  fix d order
  assume inv: "cas_inv args d order s"
  note ok = mutexes_okD [OF invD(1) [OF inv]] and call = invD(2) [OF inv]
  have neq: "h \<noteq> static_mutex s" using ok(1) assms(2,3) by auto
  have lock: "holds_lock u ?s \<longleftrightarrow> holds_lock u s" for u using neq by (simp add: holds_lock_def)
  have owns: "owns u k ?s \<longleftrightarrow> (if u = t then k = h else owns u k s)" for u k by (auto simp: owns_def)
  have no_own: "\<not> owns t k s" for k using assms(1) by (simp add: owns_def)
  have not_own: "\<not> owns u h s" for u using owned_open [OF call] assms(3) by force
  have "mutexes_ok ?s"
  proof (rule mutexes_okI)
    show "in_lock (pc ?s u)" if "holds_lock u ?s" for u using that ok(3) [of u] lock assms(1) by (auto simp: in_lock_def)
    show "u = v" if "owns u k ?s" "owns v k ?s" for u v k using that ok(4) not_own unfolding owns by (metis (full_types))
    show "\<exists>u. owns u k ?s" if "open_mutexes ?s k \<noteq> None" "k \<noteq> static_mutex ?s" for k
      using that ok(5) [of k] no_own unfolding owns by (cases "k = h") (auto, metis)
  qed (use neq ok(1,2) assms(2) in auto)
  then show "cas_inv args d (if takes_effect t s ?s then order @ [t] else order) ?s"
    using neq assms(1,2) call [of t] owned_open [OF call] not_own
    by (intro inv_silent [OF _ inv] call_step_ok [OF inv]) (auto simp: takes_effect_def holds_lock_def)
qed

lemma swap_keeps:
  assumes "pc s t = Swap h" "static_mutex s = NULL"
  shows "keeps_inv args t s (at_pc t LockWait (s\<lparr>static_mutex := h\<rparr>))" (is "keeps_inv _ _ _ ?s")
  unfolding keeps_inv_def
proof (intro allI impI)
  fix d order
  assume inv: "cas_inv args d order s"
  note ok = mutexes_okD [OF invD(1) [OF inv]] and call = invD(2) [OF inv]
  have h: "open_mutexes s h = Some None" "h \<noteq> NULL" "map_of (fst (atomic_calls args order d)) t = None" using call [of t] assms(1) by auto
  have lock: "\<not> holds_lock u ?s" "\<not> holds_lock u s" for u using h(1) ok(2) assms(2) by (simp_all add: holds_lock_def)
  have owns: "owns u k ?s \<longleftrightarrow> u \<noteq> t \<and> owns u k s" for u k by (auto simp: owns_def)
  have own: "owns t h s" using assms(1) by (simp add: owns_def)
  have "mutexes_ok ?s"
  proof (rule mutexes_okI)
    show "u = v" if "owns u k ?s" "owns v k ?s" for u v k using that ok(4) unfolding owns by blast
    show "\<exists>u. owns u k ?s" if "open_mutexes ?s k \<noteq> None" "k \<noteq> static_mutex ?s" for k
    proof -
      have "k \<noteq> static_mutex s" "k \<noteq> h" using that ok(2) assms(2) by (auto intro!: gr0I)
      moreover have "open_mutexes s k \<noteq> None" using that(1) by simp
      ultimately obtain u where "owns u k s" using ok(5) by blast
      then show ?thesis using \<open>k \<noteq> h\<close> assms(1) unfolding owns by (intro exI [of _ u]) (auto simp: owns_def)
    qed
  qed (use h ok(2) lock in auto)
  then show "cas_inv args d (if takes_effect t s ?s then order @ [t] else order) ?s"
    using h lock ok(4) own owned_open [OF call]
    by (intro inv_silent [OF _ inv] call_step_ok [OF inv]) (auto simp: takes_effect_def)
qed

lemma close_keeps:
  assumes "pc s t = CloseOwn h"
  shows "keeps_inv args t s (at_pc t LockWait (s\<lparr>open_mutexes := (open_mutexes s)(h := None)\<rparr>))" (is "keeps_inv _ _ _ ?s")
  unfolding keeps_inv_def
proof (intro allI impI)
  fix d order
  assume inv: "cas_inv args d order s"
  note ok = mutexes_okD [OF invD(1) [OF inv]] and call = invD(2) [OF inv]
  have h: "h \<noteq> static_mutex s" "static_mutex s \<noteq> NULL" "map_of (fst (atomic_calls args order d)) t = None" using call [of t] assms by auto
  have lock: "holds_lock u ?s \<longleftrightarrow> holds_lock u s" for u using h(1) by (simp add: holds_lock_def)
  have owns: "owns u k ?s \<longleftrightarrow> u \<noteq> t \<and> owns u k s" for u k by (auto simp: owns_def)
  have own: "owns t k s \<longleftrightarrow> k = h" for k using assms by (auto simp: owns_def)
  have "mutexes_ok ?s"
  proof (rule mutexes_okI)
    show "in_lock (pc ?s u)" if "holds_lock u ?s" for u using that ok(3) [of u] lock assms by (auto simp: in_lock_def)
    show "u = v" if "owns u k ?s" "owns v k ?s" for u v k using that ok(4) unfolding owns by blast
    show "\<exists>u. owns u k ?s" if "open_mutexes ?s k \<noteq> None" "k \<noteq> static_mutex ?s" for k
      using that ok(5) [of k] own unfolding owns by (auto split: if_splits) metis
  qed (use h ok(1,2) in auto)
  then show "cas_inv args d (if takes_effect t s ?s then order @ [t] else order) ?s"
    using h ok(4) own owned_open [OF call] lock
    by (intro inv_silent [OF _ inv] call_step_ok [OF inv]) (auto simp: takes_effect_def)
qed

text \<open>Taking and releasing the lock.\<close>

lemma lock_keeps:
  assumes "pc s t = LockWait" "open_mutexes s (static_mutex s) = Some None"
  shows "keeps_inv args t s (at_pc t (Read True) (s\<lparr>open_mutexes := (open_mutexes s)(static_mutex s \<mapsto> Some t)\<rparr>))" (is "keeps_inv _ _ _ ?s")
  unfolding keeps_inv_def
proof (intro allI impI)
  fix d order
  assume inv: "cas_inv args d order s"
  note ok = mutexes_okD [OF invD(1) [OF inv]] and call = invD(2) [OF inv]
  have lock: "holds_lock u ?s \<longleftrightarrow> u = t" "\<not> holds_lock u s" for u using assms(2) by (auto simp: holds_lock_def)
  have owns: "owns u k ?s \<longleftrightarrow> owns u k s" for u k using assms(1) by (simp add: owns_def)
  have "mutexes_ok ?s"
    by (rule mutexes_okI) (use lock owns ok call [of t] assms in \<open>auto simp: in_lock_def split: if_splits\<close>)
  then show "cas_inv args d (if takes_effect t s ?s then order @ [t] else order) ?s"
    using lock call [of t] owned_open [OF call] assms
    by (intro inv_silent [OF _ inv] call_step_ok [OF inv]) (auto simp: takes_effect_def)
qed

lemma unlock_keeps:
  assumes "pc s t = Unlock True p"
  shows "keeps_inv args t s (at_pc t (Return p) (s\<lparr>open_mutexes := (open_mutexes s)(static_mutex s \<mapsto> None)\<rparr>))" (is "keeps_inv _ _ _ ?s")
  unfolding keeps_inv_def
proof (intro allI impI)
  fix d order
  assume inv: "cas_inv args d order s"
  note ok = mutexes_okD [OF invD(1) [OF inv]] and call = invD(2) [OF inv]
  have t: "holds_lock t s" using call [of t] assms by simp
  then have lock: "holds_lock u s \<longleftrightarrow> u = t" "\<not> holds_lock u ?s" for u by (auto simp: holds_lock_def)
  have owns: "owns u k ?s \<longleftrightarrow> owns u k s" for u k using assms by (simp add: owns_def)
  have "static_mutex s \<noteq> NULL" using t ok(2) by (auto simp: holds_lock_def intro!: gr0I)
  then have "mutexes_ok ?s" by (intro mutexes_okI) (use lock owns ok in \<open>auto split: if_splits\<close>)
  then show "cas_inv args d (if takes_effect t s ?s then order @ [t] else order) ?s"
    using lock call [of t] owned_open [OF call] assms
    by (intro inv_silent [OF _ inv] call_step_ok [OF inv]) (auto simp: takes_effect_def)
qed

text \<open>The two steps that take effect: a comparison that fails, and the store.\<close>

lemma effect_keeps:
  assumes "pc s t = Compare True p \<and> Destination s \<noteq> snd (args t) \<and> v = Destination s \<or> pc s t = Store True p \<and> v = fst (args t)"
  shows "keeps_inv args t s (at_pc t (Unlock True p) (s\<lparr>Destination := v\<rparr>))" (is "keeps_inv _ _ _ ?s")
  unfolding keeps_inv_def
proof (intro allI impI)
  fix d order
  assume inv: "cas_inv args d order s"
  note ok = mutexes_okD [OF invD(1) [OF inv]] and call = invD(2) [OF inv]
  have t: "holds_lock t s" "p = Destination s" "map_of (fst (atomic_calls args order d)) t = None"
    "v = (if Destination s = snd (args t) then fst (args t) else Destination s)"
    using call [of t] assms by auto
  then have lock: "holds_lock u s \<longleftrightarrow> u = t" "holds_lock u ?s \<longleftrightarrow> u = t" for u by (auto simp: holds_lock_def)
  have owns: "owns u k ?s \<longleftrightarrow> owns u k s" for u k using assms by (auto simp: owns_def)
  have "mutexes_ok ?s" by (rule mutexes_okI) (use lock owns ok in \<open>auto simp: in_lock_def\<close>)
  then show "cas_inv args d (if takes_effect t s ?s then order @ [t] else order) ?s"
    using lock t owned_open [OF call] assms
    by (intro inv_effect [OF _ inv] call_step_ok [OF inv]) (auto simp: takes_effect_def map_add_def split: option.split)
qed

lemma cas_step_keeps:
  assumes "cas_inv args d order s" "handle \<noteq> NULL" "cas_step args t handle s = Some s'"
  shows "keeps_inv args t s s'"
proof -
  note ok = mutexes_okD [OF invD(1) [OF assms(1)]] and call = invD(2) [OF assms(1), of t]
  show ?thesis
  proof (cases "pc s t")
    case LockWait
    then show ?thesis using assms(3) ok(1) call lock_keeps [OF LockWait] by (auto simp: cas_step_def split: option.splits)
  next
    case (Compare l p)
    then show ?thesis using assms(3) call effect_keeps [of s t p args "Destination s"]
      by (auto simp: cas_step_def in_lock_def owns_def intro!: move_keeps split: if_splits)
  next
    case (Swap h)
    then show ?thesis using assms(3) swap_keeps [OF Swap]
      by (auto simp: cas_step_def InterlockedCompareExchangePointer_def owns_def in_lock_def intro!: move_keeps split: if_splits)
  qed (use assms(2,3) call create_keeps [of s t handle] close_keeps [of s t] unlock_keeps [of s t] effect_keeps [of s t _ args "fst (args t)"] in
      \<open>auto simp: cas_step_def in_lock_def owns_def intro!: move_keeps split: if_splits\<close>)
qed

lemma cas_run_inv:
  assumes "cas_run args s\<^sub>0 order s" "s\<^sub>0 = cas_init_windows d \<or> s\<^sub>0 = cas_init_pthread d"
  shows "cas_inv args d order s"
  using assms
proof (induction rule: cas_run.induct)
  case start
  then show ?case using init_ok by auto
next
  case (step order s handle t s')
  then show ?case using cas_step_keeps [OF step.IH] unfolding keeps_inv_def by blast
qed

lemma cas_run_distinct:
  assumes "cas_run args s\<^sub>0 order s" "s\<^sub>0 = cas_init_windows d \<or> s\<^sub>0 = cas_init_pthread d"
  shows "distinct order"
  using assms
proof (induction rule: cas_run.induct)
  case (step order s handle t s')
  have "t \<notin> set order" if "takes_effect t s s'"
  proof -
    have "is_Compare (pc s t) \<or> is_Store (pc s t)"
      using that step.hyps(3) by (cases "pc s t") (auto simp: takes_effect_def cas_step_def case_prod_beta split: option.splits if_splits)
    then have "map_of (fst (atomic_calls args order d)) t = None"
      using invD(2) [OF cas_run_inv [OF step.hyps(1) step.prems], of t] by (cases "pc s t") auto
    then show ?thesis using atomic_calls_order [of args order d] by (metis map_of_eq_None_iff set_map)
  qed
  then show ?case using step by simp
qed simp

lemma cas_run_finite:
  assumes "cas_run args s\<^sub>0 order s" "s\<^sub>0 = cas_init_windows d \<or> s\<^sub>0 = cas_init_pthread d"
  shows "finite (dom (open_mutexes s))"
  using assms
proof (induction rule: cas_run.induct)
  case start
  then have "dom (open_mutexes s\<^sub>0) \<subseteq> {1}" by (auto simp: cas_init_windows_def cas_init_pthread_def split: if_splits)
  then show ?case using finite_subset by blast
next
  case (step order s handle t s')
  have "dom (open_mutexes s') \<subseteq> insert handle (insert (static_mutex s) (dom (open_mutexes s)))"
    using step.hyps(3) by (cases "pc s t") (auto simp: cas_step_def case_prod_beta split: option.splits if_splits)
  then show ?case using step.IH [OF step.prems] finite_subset by (metis finite_insert)
qed

text \<open>While a call has not returned, some call can go on: the one that holds the lock, and any other when nobody holds it.\<close>

lemma cas_progress:
  assumes "cas_inv args d order s" "finite (dom (open_mutexes s))" "\<not> is_Return (pc s t)"
  shows "\<exists>u handle s'. handle \<noteq> NULL \<and> cas_step args u handle s = Some s'"
proof -
  note ok = mutexes_okD [OF invD(1) [OF assms(1)]] and call = invD(2) [OF assms(1)]
  obtain h where h: "h \<notin> insert 0 (dom (open_mutexes s))" using ex_new_if_finite [of "insert 0 (dom (open_mutexes s))"] assms(2) by auto
  show ?thesis
  proof (cases "\<exists>u. holds_lock u s")
    case True
    then obtain u where "in_lock (pc s u)" using ok(3) by blast
    then show ?thesis using h by (intro exI [of _ u] exI [of _ h], cases "pc s u") (auto simp: cas_step_def in_lock_def)
  next
    case False
    then have "open_mutexes s (static_mutex s) \<noteq> Some (Some u)" for u by (simp add: holds_lock_def)
    then show ?thesis using h assms(3) by (intro exI [of _ t] exI [of _ h], cases "pc s t") (auto simp: cas_step_def case_prod_beta split: option.split)
  qed
qed

section \<open>Properties\<close>

text \<open>
  C14: With a mutex in place of an atomic instruction, \<open>InterlockedCompareExchange64\<close> is still atomic, on Windows and with pthreads, for any
  number of concurrent calls, as long as the mutex can be created. Whatever the interleaving, the calls take effect one after the other, each once: the
  variable has the value, and every call that has returned has the result, that the atomic operation gives in this order. At most one call
  at a time is between the lock and its release; the calls never deadlock; of the mutexes that concurrent first calls create on
  Windows, only the one in the static variable is left when no call is under way.
\<close>

theorem cas64_by_mutex_linearizable:
  assumes "cas_run args s\<^sub>0 order s" "s\<^sub>0 = cas_init_windows d \<or> s\<^sub>0 = cas_init_pthread d"
  shows "Destination s = snd (atomic_calls args order d) \<and> distinct order \<and>
    (\<forall>t p. pc s t = Return p \<longrightarrow> (t, p) \<in> set (fst (atomic_calls args order d))) \<and>
    (\<forall>t u. in_lock (pc s t) \<and> in_lock (pc s u) \<longrightarrow> t = u) \<and>
    (\<forall>t. \<not> is_Return (pc s t) \<longrightarrow> (\<exists>u handle s'. handle \<noteq> NULL \<and> cas_step args u handle s = Some s')) \<and>
    ((\<forall>t. pc s t = Test \<or> is_Return (pc s t)) \<longrightarrow> dom (open_mutexes s) \<subseteq> {static_mutex s})"
proof -
  note inv = cas_run_inv [OF assms]
  note ok = mutexes_okD [OF invD(1) [OF inv]] and call = invD(2) [OF inv]
  have "\<forall>t p. pc s t = Return p \<longrightarrow> (t, p) \<in> set (fst (atomic_calls args order d))"
    using call by (metis call_ok.simps(8) map_of_SomeD)
  moreover have "holds_lock t s" if "in_lock (pc s t)" for t using that call [of t] by (cases "pc s t") (auto simp: in_lock_def)
  then have "\<forall>t u. in_lock (pc s t) \<and> in_lock (pc s u) \<longrightarrow> t = u" using holder_unique by blast
  moreover have "dom (open_mutexes s) \<subseteq> {static_mutex s}" if idle: "\<forall>t. pc s t = Test \<or> is_Return (pc s t)"
  proof
    fix h
    assume "h \<in> dom (open_mutexes s)"
    moreover have "\<not> owns t h s" for t using idle by (auto simp: owns_def dest: spec [of _ t])
    ultimately show "h \<in> {static_mutex s}" using ok(5) [of h] by auto
  qed
  ultimately show ?thesis
    using inv cas_run_distinct [OF assms] cas_progress [OF inv cas_run_finite [OF assms]] unfolding cas_inv_def by blast
qed

text \<open>A schedule names the call that goes on and the handle that \<open>CreateMutex\<close> would give.\<close>

fun cas_schedule :: "cas_args \<Rightarrow> (nat \<times> addr) list \<Rightarrow> nat list \<Rightarrow> cas_state \<Rightarrow> (nat list \<times> cas_state) option" where
  "cas_schedule args [] order s = Some (order, s)"
| "cas_schedule args ((t, handle) # sched) order s =
     (if handle = NULL then None
      else case cas_step args t handle s of
        None \<Rightarrow> None
      | Some s' \<Rightarrow> cas_schedule args sched (if takes_effect t s s' then order @ [t] else order) s')"

lemma cas_schedule_run:
  "cas_run args s\<^sub>0 order s \<Longrightarrow> cas_schedule args sched order s = Some (order', s') \<Longrightarrow> cas_run args s\<^sub>0 order' s'"
proof (induction args sched order s rule: cas_schedule.induct)
  case (2 args t handle sched order s)
  then obtain s1 where s1: "handle \<noteq> NULL" "cas_step args t handle s = Some s1" by (auto split: if_splits option.splits)
  then show ?case using "2.IH" [OF s1 cas_run.step [OF "2.prems"(1) s1]] "2.prems"(2) by simp
qed simp

text \<open>One call stores 7 over 5; a second one, which expects 5, reads 7.\<close>

definition cas_demo :: "(nat list \<times> cas_state) option" where
  "cas_demo = cas_schedule (\<lambda>t. (7, 5)) [(0, 1), (0, 1), (0, 1), (0, 1), (0, 1), (1, 1), (1, 1), (1, 1)] [] (cas_init_pthread 5)"

lemma cas_demo_ends: "\<exists>s. cas_demo = Some ([0, 1], s) \<and> pc s 0 = Return 5 \<and> \<not> is_Return (pc s 1)"
  by (simp add: cas_demo_def cas_init_pthread_def cas_step_def takes_effect_def)

theorem cas64_by_mutex_linearizable_witness:
  "case cas_demo of None \<Rightarrow> False | Some (order, s) \<Rightarrow> order = [0, 1] \<and> pc s 0 = Return 5 \<and>
     Destination s = snd (atomic_calls (\<lambda>t. (7, 5)) order 5) \<and> (0, 5) \<in> set (fst (atomic_calls (\<lambda>t. (7, 5)) order 5)) \<and>
     (\<exists>u handle s'. handle \<noteq> NULL \<and> cas_step (\<lambda>t. (7, 5)) u handle s = Some s')"
proof -
  obtain s where s: "cas_demo = Some ([0, 1], s)" "pc s 0 = Return 5" "\<not> is_Return (pc s 1)" using cas_demo_ends by blast
  then have "cas_run (\<lambda>t. (7, 5)) (cas_init_pthread 5) [0, 1] s" using cas_schedule_run [OF cas_run.start] unfolding cas_demo_def by blast
  from cas64_by_mutex_linearizable [OF this disjI2 [OF refl]] show ?thesis unfolding s(1) option.case prod.case using s(2,3) by blast
qed

end
