(* ===== verification/Layout.thy ===== *)
theory Layout
  imports Descriptors
begin

text \<open>
  The layout of the structures of the headers in memory: sizes, alignments and offsets as the C compilers of the supported systems compute
  them. The library casts between structures (a handle is a pointer to any of the objects), so its correctness rests on these offsets.
\<close>

section \<open>Layout of C types\<close>

text \<open>
  The size of a pointer and the alignment of a 64-bit integer depend on the machine: on i386 the latter is 4 inside a structure. Types
  of the system are \<open>Opaque\<close>, with a size and an alignment.
\<close>

record abi =
  pointer_size :: nat
  align64 :: nat

datatype ctype =
    Scalar nat
  | Pointer
  | Opaque nat nat
  | Array nat ctype
  | Struct "(string \<times> ctype) list"
  | Union "(string \<times> ctype) list"

definition round_up :: "nat \<Rightarrow> nat \<Rightarrow> nat" where
  "round_up k n = (n + k - 1) div k * k"

fun alignof :: "abi \<Rightarrow> ctype \<Rightarrow> nat" and alignof_fields :: "abi \<Rightarrow> (string \<times> ctype) list \<Rightarrow> nat" where
  "alignof a (Scalar n) = (if n = 8 then align64 a else n)"
| "alignof a Pointer = pointer_size a"
| "alignof a (Opaque n k) = k"
| "alignof a (Array n t) = alignof a t"
| "alignof a (Struct fs) = alignof_fields a fs"
| "alignof a (Union fs) = alignof_fields a fs"
| "alignof_fields a [] = 1"
| "alignof_fields a ((f, t) # fs) = max (alignof a t) (alignof_fields a fs)"

text \<open>\<open>struct_end\<close> places the fields from an offset on; \<open>union_end\<close> is the size of the largest member.\<close>

fun sizeof :: "abi \<Rightarrow> ctype \<Rightarrow> nat"
  and struct_end :: "abi \<Rightarrow> nat \<Rightarrow> (string \<times> ctype) list \<Rightarrow> nat"
  and union_end :: "abi \<Rightarrow> (string \<times> ctype) list \<Rightarrow> nat" where
  "sizeof a (Scalar n) = n"
| "sizeof a Pointer = pointer_size a"
| "sizeof a (Opaque n k) = n"
| "sizeof a (Array n t) = n * sizeof a t"
| "sizeof a (Struct fs) = round_up (alignof_fields a fs) (struct_end a 0 fs)"
| "sizeof a (Union fs) = round_up (alignof_fields a fs) (union_end a fs)"
| "struct_end a off [] = off"
| "struct_end a off ((f, t) # fs) = struct_end a (round_up (alignof a t) off + sizeof a t) fs"
| "union_end a [] = 0"
| "union_end a ((f, t) # fs) = max (sizeof a t) (union_end a fs)"

text \<open>The place of a part of an object: fields by name, array elements by index.\<close>

datatype part = Field string | Index nat

fun field_at :: "abi \<Rightarrow> nat \<Rightarrow> (string \<times> ctype) list \<Rightarrow> string \<Rightarrow> (nat \<times> ctype) option" where
  "field_at a off [] f = None"
| "field_at a off ((g, t) # fs) f =
     (let here = round_up (alignof a t) off in if g = f then Some (here, t) else field_at a (here + sizeof a t) fs f)"

fun offsetof :: "abi \<Rightarrow> ctype \<Rightarrow> part list \<Rightarrow> (nat \<times> ctype) option" where
  "offsetof a t [] = Some (0, t)"
| "offsetof a (Struct fs) (Field f # ps) =
     (case field_at a 0 fs f of None \<Rightarrow> None
      | Some (off, t) \<Rightarrow> map_option (\<lambda>(off', u). (off + off', u)) (offsetof a t ps))"
| "offsetof a (Union fs) (Field f # ps) = (case map_of fs f of None \<Rightarrow> None | Some t \<Rightarrow> offsetof a t ps)"
| "offsetof a (Array n t) (Index i # ps) =
     (if i < n then map_option (\<lambda>(off', u). (i * sizeof a t + off', u)) (offsetof a t ps) else None)"
| "offsetof a t ps = None"

definition lp64 :: abi where
  "lp64 = \<lparr>pointer_size = 8, align64 = 8\<rparr>"

definition i386 :: abi where
  "i386 = \<lparr>pointer_size = 4, align64 = 4\<rparr>"

definition arm32 :: abi where
  "arm32 = \<lparr>pointer_size = 4, align64 = 8\<rparr>"

section \<open>Soundness of layouts\<close>

text \<open>Alignments are powers of two.\<close>

definition pow2 :: "nat \<Rightarrow> bool" where
  "pow2 n \<longleftrightarrow> (\<exists>k. n = 2 ^ k)"

fun wf_type :: "abi \<Rightarrow> ctype \<Rightarrow> bool" and wf_fields :: "abi \<Rightarrow> (string \<times> ctype) list \<Rightarrow> bool" where
  "wf_type a (Scalar n) \<longleftrightarrow> (n = 1 \<or> n = 2 \<or> n = 4 \<or> n = 8) \<and> (align64 a = 4 \<or> align64 a = 8)"
| "wf_type a Pointer \<longleftrightarrow> pointer_size a = 4 \<or> pointer_size a = 8"
| "wf_type a (Opaque n k) \<longleftrightarrow> pow2 k \<and> k dvd n"
| "wf_type a (Array n t) \<longleftrightarrow> wf_type a t"
| "wf_type a (Struct fs) \<longleftrightarrow> wf_fields a fs"
| "wf_type a (Union fs) \<longleftrightarrow> wf_fields a fs"
| "wf_fields a [] \<longleftrightarrow> True"
| "wf_fields a ((f, t) # fs) \<longleftrightarrow> wf_type a t \<and> wf_fields a fs"

lemma pow2_pos: "pow2 k \<Longrightarrow> 0 < k"
  by (auto simp: pow2_def)

lemma pow2_max: "pow2 k \<Longrightarrow> pow2 l \<Longrightarrow> pow2 (max k l) \<and> k dvd max k l \<and> l dvd max k l"
  by (auto simp: pow2_def max_def le_imp_power_dvd)

lemma pow2_numerals [simp]: "pow2 (Suc 0)" "pow2 2" "pow2 4" "pow2 8"
  unfolding pow2_def by (rule exI [of _ 0], simp) (rule exI [of _ 1], simp, rule exI [of _ 2], simp, rule exI [of _ 3], simp)

lemma round_up_dvd [simp]: "k dvd round_up k n"
  by (simp add: round_up_def)

lemma round_up_ge: "0 < k \<Longrightarrow> n \<le> round_up k n"
  unfolding round_up_def using div_mult_mod_eq [of "n + k - 1" k] mod_less_divisor [of k "n + k - 1"] by linarith

lemma alignof_pow2: "wf_type a t \<Longrightarrow> pow2 (alignof a t)" "wf_fields a fs \<Longrightarrow> pow2 (alignof_fields a fs)"
  by (induction a t and a fs rule: alignof_alignof_fields.induct) (auto simp: pow2_max)

lemma alignof_field: "(f, t) \<in> set fs \<Longrightarrow> wf_fields a fs \<Longrightarrow> wf_type a t \<and> alignof a t dvd alignof_fields a fs"
proof (induction fs)
  case (Cons p fs)
  obtain g u where p: "p = (g, u)" by fastforce
  then have "alignof a u dvd alignof_fields a (p # fs)" "alignof_fields a fs dvd alignof_fields a (p # fs)"
    using Cons.prems(2) pow2_max [OF alignof_pow2(1) alignof_pow2(2)] by auto
  then show ?case using Cons p by (auto dest: dvd_trans)
qed simp

lemma alignof_dvd_sizeof: "wf_type a t \<Longrightarrow> alignof a t dvd sizeof a t"
  by (induction t) auto

lemma struct_end_ge: "wf_fields a fs \<Longrightarrow> off \<le> struct_end a off fs"
proof (induction fs arbitrary: off)
  case (Cons p fs)
  obtain g u where p: "p = (g, u)" by fastforce
  have "off \<le> round_up (alignof a u) off" using Cons.prems p by (auto intro: round_up_ge pow2_pos alignof_pow2)
  then show ?case using Cons.IH [of "round_up (alignof a u) off + sizeof a u"] Cons.prems p by simp
qed simp

lemma union_end_ge: "(f, t) \<in> set fs \<Longrightarrow> sizeof a t \<le> union_end a fs"
  by (induction fs) auto

lemma field_at_sound:
  "field_at a off fs f = Some (o', t) \<Longrightarrow> wf_fields a fs \<Longrightarrow>
   off \<le> o' \<and> o' + sizeof a t \<le> struct_end a off fs \<and> alignof a t dvd o' \<and> (f, t) \<in> set fs"
proof (induction fs arbitrary: off)
  case (Cons p fs)
  obtain g u where p: "p = (g, u)" by fastforce
  let ?here = "round_up (alignof a u) off"
  have ge: "off \<le> ?here" "?here + sizeof a u \<le> struct_end a (?here + sizeof a u) fs"
    using Cons.prems(2) p by (auto intro: round_up_ge pow2_pos alignof_pow2 struct_end_ge)
  show ?case
  proof (cases "g = f")
    case True
    then show ?thesis using Cons.prems(1) p ge by (auto simp: Let_def)
  next
    case False
    then show ?thesis using Cons.IH [of "?here + sizeof a u"] Cons.prems p ge(1) by (auto simp: Let_def)
  qed
qed simp

text \<open>Two fields of a structure do not overlap.\<close>

lemma field_at_disjoint:
  assumes "f \<noteq> g" "wf_fields a fs" "field_at a off fs f = Some (m, t)" "field_at a off fs g = Some (n, u)"
  shows "m + sizeof a t \<le> n \<or> n + sizeof a u \<le> m"
  using assms(2-4)
proof (induction fs arbitrary: off)
  case (Cons p fs)
  obtain h v where p: "p = (h, v)" by fastforce
  let ?next = "round_up (alignof a v) off + sizeof a v"
  have later: "field_at a ?next fs k = Some (i, w) \<Longrightarrow> ?next \<le> i" for k i w using field_at_sound [of a ?next fs k i w] Cons.prems(1) p by simp
  show ?case using Cons.IH [of ?next] Cons.prems p assms(1) later by (auto simp: Let_def split: if_splits)
qed simp

text \<open>A part of an object lies inside it and is aligned.\<close>

lemma offsetof_sound:
  "offsetof a t ps = Some (off, u) \<Longrightarrow> wf_type a t \<Longrightarrow>
   off + sizeof a u \<le> sizeof a t \<and> alignof a u dvd off \<and> alignof a u dvd alignof a t \<and> wf_type a u"
proof (induction a t ps arbitrary: off rule: offsetof.induct)
  case (2 a fs f ps)
  then obtain o1 t o2 where o: "field_at a 0 fs f = Some (o1, t)" "offsetof a t ps = Some (o2, u)" "off = o1 + o2" by (auto split: option.splits)
  note f = field_at_sound [OF o(1)]
  have t: "wf_type a t" "alignof a t dvd alignof_fields a fs" using f alignof_field [of f t fs a] "2.prems"(2) by auto
  have "o1 + sizeof a t \<le> sizeof a (Struct fs)"
    using f "2.prems"(2) round_up_ge [OF pow2_pos [OF alignof_pow2(2)], of a fs "struct_end a 0 fs"] by simp
  then show ?case using "2.IH" [OF o(1) refl o(2) t(1)] t f "2.prems"(2) o(3) by (auto intro: dvd_trans dvd_add)
next
  case (3 a fs f ps)
  then obtain t where o: "map_of fs f = Some t" "offsetof a t ps = Some (off, u)" by (auto split: option.splits)
  have t: "(f, t) \<in> set fs" "wf_type a t" "alignof a t dvd alignof_fields a fs" using map_of_SomeD [OF o(1)] alignof_field [of f t fs a] "3.prems"(2) by auto
  have "sizeof a t \<le> sizeof a (Union fs)"
    using union_end_ge [OF t(1), of a] round_up_ge [OF pow2_pos [OF alignof_pow2(2)], of a fs "union_end a fs"] "3.prems"(2) by simp
  then show ?case using "3.IH" [OF o t(2)] t by (auto intro: dvd_trans)
next
  case (4 a n t i ps)
  then obtain o2 where o: "i < n" "offsetof a t ps = Some (o2, u)" "off = i * sizeof a t + o2" by (auto split: if_splits)
  have "Suc i * sizeof a t \<le> n * sizeof a t" using o(1) by (intro mult_le_mono1) simp
  then show ?case using "4.IH" [OF o(1,2)] "4.prems"(2) o(3) alignof_dvd_sizeof [of a t] by (auto intro: dvd_add dvd_mult dvd_trans)
qed auto

end
