(* ===== verification/Crt.thy ===== *)
theory Crt
  imports Uzi_Prelude
begin

text \<open>
  src/include/uzi/crt.h: rotations, reversal of the bytes of a number, and the macros that copy, move and fill memory.
\<close>

section \<open>Operations\<close>

text \<open>In C a shift is defined only for a count from 0 up to the width, exclusive: the operation is \<open>None\<close> otherwise.\<close>

definition c_shl :: "'a::len word \<Rightarrow> int \<Rightarrow> 'a word option" where
  "c_shl x n = (if 0 \<le> n \<and> n < int LENGTH('a) then Some (push_bit (nat n) x) else None)"

definition c_shr :: "'a::len word \<Rightarrow> int \<Rightarrow> 'a word option" where
  "c_shr x n = (if 0 \<le> n \<and> n < int LENGTH('a) then Some (drop_bit (nat n) x) else None)"

definition c_or :: "'a::len word option \<Rightarrow> 'a word option \<Rightarrow> 'a word option" where
  "c_or a b = (case (a, b) of (Some x, Some y) \<Rightarrow> Some (x OR y) | _ \<Rightarrow> None)"

definition rotl :: "u32 \<Rightarrow> int \<Rightarrow> u32 option" where
  "rotl value shift = c_or (c_shl value shift) (c_shr value (32 - shift))"

definition rotl64 :: "u64 \<Rightarrow> int \<Rightarrow> u64 option" where
  "rotl64 value shift = c_or (c_shl value shift) (c_shr value (64 - shift))"

definition rotr :: "u32 \<Rightarrow> int \<Rightarrow> u32 option" where
  "rotr value shift = c_or (c_shr value shift) (c_shl value (32 - shift))"

definition rotr64 :: "u64 \<Rightarrow> int \<Rightarrow> u64 option" where
  "rotr64 value shift = c_or (c_shr value shift) (c_shl value (64 - shift))"

text \<open>The versions for compilers without builtins.\<close>

definition byteswap_ulong :: "u32 \<Rightarrow> u32" where
  "byteswap_ulong v = drop_bit 24 v OR drop_bit 8 (v AND 0x00FF0000) OR push_bit 8 (v AND 0x0000FF00) OR push_bit 24 v"

definition byteswap_uint64 :: "u64 \<Rightarrow> u64" where
  "byteswap_uint64 v = push_bit 56 v OR (push_bit 40 v AND 0xFF000000000000) OR (push_bit 24 v AND 0xFF0000000000) OR
     (push_bit 8 v AND 0xFF00000000) OR (drop_bit 8 v AND 0xFF000000) OR (drop_bit 24 v AND 0xFF0000) OR
     (drop_bit 40 v AND 0xFF00) OR drop_bit 56 v"

text \<open>The operands are promoted to \<^verbatim>\<open>int\<close>; the result is converted back to 16 bits.\<close>

definition byteswap_ushort :: "u16 \<Rightarrow> u16" where
  "byteswap_ushort v = ucast (drop_bit 8 (ucast v :: u32) OR push_bit 8 (ucast v :: u32))"

text \<open>
  The memory macros on a memory given as a list of bytes. An access outside it and a copy between regions that overlap are
  undefined; a fill stores the low byte of the value.
\<close>

definition MoveMemory :: "nat \<Rightarrow> nat \<Rightarrow> nat \<Rightarrow> u8 list \<Rightarrow> u8 list option" where
  "MoveMemory Destination Source Length m =
     (if Destination + Length \<le> length m \<and> Source + Length \<le> length m
      then Some (overwrite Destination (take Length (drop Source m)) m) else None)"

definition CopyMemory :: "nat \<Rightarrow> nat \<Rightarrow> nat \<Rightarrow> u8 list \<Rightarrow> u8 list option" where
  "CopyMemory Destination Source Length m =
     (if Destination + Length \<le> Source \<or> Source + Length \<le> Destination then MoveMemory Destination Source Length m else None)"

definition FillMemory :: "nat \<Rightarrow> nat \<Rightarrow> LONG \<Rightarrow> u8 list \<Rightarrow> u8 list option" where
  "FillMemory Destination Length Fill m =
     (if Destination + Length \<le> length m then Some (overwrite Destination (replicate Length (ucast Fill)) m) else None)"

definition ZeroMemory :: "nat \<Rightarrow> nat \<Rightarrow> u8 list \<Rightarrow> u8 list option" where
  "ZeroMemory Destination Length m = FillMemory Destination Length 0 m"

section \<open>Rotations\<close>

lemma shifts_or_rotl:
  assumes "0 < n" "n < LENGTH('a::len)"
  shows "push_bit n x OR drop_bit (LENGTH('a) - n) x = word_rotl n (x :: 'a word)"
proof (rule bit_word_eqI)
  fix k
  assume k: "k < LENGTH('a)"
  show "bit (push_bit n x OR drop_bit (LENGTH('a) - n) x) k = bit (word_rotl n x) k"
  proof (cases "k < n")
    case True
    then have "(k + (LENGTH('a) - n)) mod LENGTH('a) = k + (LENGTH('a) - n)" using assms by simp
    then show ?thesis using True k assms by (simp add: bit_simps add.commute)
  next
    case False
    then have "k + (LENGTH('a) - n) = k - n + LENGTH('a)" using assms by simp
    moreover have "(k - n + LENGTH('a)) mod LENGTH('a) = k - n" using k by simp
    ultimately have "(k + (LENGTH('a) - n)) mod LENGTH('a) = k - n" by (simp only:)
    moreover have "\<not> bit x (LENGTH('a) - n + k)" using False by (intro notI) (auto dest: bit_imp_le_length)
    ultimately show ?thesis using False k assms by (simp add: bit_simps)
  qed
qed

lemma rotr_as_rotl: "0 < n \<Longrightarrow> n < LENGTH('a::len) \<Longrightarrow> word_rotl (LENGTH('a) - n) (x :: 'a word) = word_rotr n x"
  by (rule bit_word_eqI) (simp add: bit_simps)

lemma shifts_or_rotr:
  assumes "0 < n" "n < LENGTH('a::len)"
  shows "drop_bit n x OR push_bit (LENGTH('a) - n) x = word_rotr n (x :: 'a word)"
  using shifts_or_rotl [of "LENGTH('a) - n" x] rotr_as_rotl [OF assms, of x] assms by (simp add: or.commute)

section \<open>Bytes\<close>

text \<open>The bytes of a number, the lowest first.\<close>

definition bytes_of :: "'a::len word \<Rightarrow> u8 list" where
  "bytes_of w = map (\<lambda>i. ucast (drop_bit (8 * i) w)) [0..<LENGTH('a) div 8]"

lemma bytes_of_nth: "i < LENGTH('a::len) div 8 \<Longrightarrow> n < 8 \<Longrightarrow> bit (bytes_of (w :: 'a word) ! i) n = bit w (8 * i + n)"
  by (auto simp: bytes_of_def bit_simps)

text \<open>A number is determined by its bytes.\<close>

lemma bytes_of_inj:
  assumes "8 dvd LENGTH('a::len)" "bytes_of (v :: 'a word) = bytes_of w"
  shows "v = w"
proof (rule bit_word_eqI)
  fix k
  assume "k < LENGTH('a)"
  then have k: "k div 8 < LENGTH('a) div 8" using assms(1) by (auto simp: less_mult_imp_div_less)
  show "bit v k = bit w k"
    using bytes_of_nth [OF k, of "k mod 8" v] bytes_of_nth [OF k, of "k mod 8" w] assms(2) by simp
qed

text \<open>Reversal of the bytes, bit by bit.\<close>

lemma bytes_of_rev:
  fixes v w :: "'a::len word"
  assumes "\<And>i n. i < LENGTH('a) div 8 \<Longrightarrow> n < 8 \<Longrightarrow> bit v (8 * i + n) = bit w (8 * (LENGTH('a) div 8 - Suc i) + n)"
  shows "bytes_of v = rev (bytes_of w)"
proof (rule nth_equalityI)
  fix i
  assume "i < length (bytes_of v)"
  then have i: "i < LENGTH('a) div 8" by (simp add: bytes_of_def)
  have "rev (bytes_of w) ! i = bytes_of w ! (LENGTH('a) div 8 - Suc i)" using i by (simp add: rev_nth bytes_of_def)
  then show "bytes_of v ! i = rev (bytes_of w) ! i"
    using assms [OF i] i by (intro bit_word_eqI) (simp add: bytes_of_nth)
qed (simp add: bytes_of_def)

lemma bit_beyond [simp]: "LENGTH('a) \<le> n \<Longrightarrow> \<not> bit (w :: 'a::len word) n"
  using bit_imp_le_length by fastforce

text \<open>The masks of the sources are bytes of ones.\<close>

lemma byte_masks:
  "(0x00FF0000 :: u32) = push_bit 16 (mask 8)" "(0x0000FF00 :: u32) = push_bit 8 (mask 8)"
  "(0xFF000000000000 :: u64) = push_bit 48 (mask 8)" "(0xFF0000000000 :: u64) = push_bit 40 (mask 8)"
  "(0xFF00000000 :: u64) = push_bit 32 (mask 8)" "(0xFF000000 :: u64) = push_bit 24 (mask 8)"
  "(0xFF0000 :: u64) = push_bit 16 (mask 8)" "(0xFF00 :: u64) = push_bit 8 (mask 8)"
  by (simp_all add: mask_eq_exp_minus_1 push_bit_eq_mult)

lemma less_4_cases: "i < 4 \<Longrightarrow> i \<in> {0, 1, 2, 3 :: nat}"
  by auto

lemma less_8_cases: "i < 8 \<Longrightarrow> i \<in> {0, 1, 2, 3, 4, 5, 6, 7 :: nat}"
  by auto

lemma bytes_byteswap_ushort: "bytes_of (byteswap_ushort v) = rev (bytes_of v)"
  by (rule bytes_of_rev) (auto simp: less_2_cases_iff byteswap_ushort_def bit_simps)

lemma bytes_byteswap_ulong: "bytes_of (byteswap_ulong v) = rev (bytes_of v)"
proof (rule bytes_of_rev)
  fix i n :: nat
  assume i: "i < LENGTH(32) div 8" and n: "n < 8"
  then show "bit (byteswap_ulong v) (8 * i + n) = bit v (8 * (LENGTH(32) div 8 - Suc i) + n)"
    using less_4_cases [of i] by (auto simp: byteswap_ulong_def byte_masks bit_simps)
qed

lemma bit_byte_mask: "n < 8 \<Longrightarrow> bit (x AND push_bit (8 * j) (mask 8) :: 'a::len word) (8 * i + n) \<longleftrightarrow> i = j \<and> bit x (8 * i + n)"
  by (auto simp: bit_simps dest: bit_imp_le_length)

lemmas bit_byte_masks = bit_byte_mask [of _ _ 6, simplified] bit_byte_mask [of _ _ 5, simplified] bit_byte_mask [of _ _ 4, simplified]
  bit_byte_mask [of _ _ 3, simplified] bit_byte_mask [of _ _ 2, simplified] bit_byte_mask [of _ _ 1, simplified]

lemma bytes_byteswap_uint64: "bytes_of (byteswap_uint64 v) = rev (bytes_of v)"
proof (rule bytes_of_rev)
  fix i n :: nat
  assume i: "i < LENGTH(64) div 8" and n: "n < 8"
  have "bit (byteswap_uint64 v) (8 * i + n) \<longleftrightarrow>
      bit (push_bit 56 v) (8 * i + n) \<or> i = 6 \<and> bit (push_bit 40 v) (8 * i + n) \<or> i = 5 \<and> bit (push_bit 24 v) (8 * i + n) \<or>
      i = 4 \<and> bit (push_bit 8 v) (8 * i + n) \<or> i = 3 \<and> bit (drop_bit 8 v) (8 * i + n) \<or> i = 2 \<and> bit (drop_bit 24 v) (8 * i + n) \<or>
      i = Suc 0 \<and> bit (drop_bit 40 v) (8 * i + n) \<or> bit (drop_bit 56 v) (8 * i + n)"
    using n by (simp only: byteswap_uint64_def byte_masks bit_or_iff bit_byte_masks)
  moreover have "i \<in> {0, 1, 2, 3, 4, 5, 6, 7}" using i by (intro less_8_cases) simp
  ultimately show "bit (byteswap_uint64 v) (8 * i + n) = bit v (8 * (LENGTH(64) div 8 - Suc i) + n)"
    using n by (elim insertE emptyE) (simp_all add: bit_push_bit_iff bit_drop_bit_eq)
qed

text \<open>An operation that reverses the bytes is its own inverse.\<close>

lemma rev_bytes_involution: "8 dvd LENGTH('a::len) \<Longrightarrow> (\<And>v. bytes_of (f v) = rev (bytes_of v)) \<Longrightarrow> f (f (v :: 'a word)) = v"
  by (rule bytes_of_inj) simp_all

section \<open>Properties\<close>

text \<open>
  For a count strictly between 0 and the width the rotations are those of the machine: the bits that leave the word on one side come in
  on the other, and rotating to the left and to the right by the same count gives the value back. For the count 0, where the word has to
  stay as it is, the shift by the whole width is undefined. Each byte swap reverses the bytes of the number and is its own inverse.
\<close>

theorem rotations_and_byteswaps:
  "(0 < n \<longrightarrow> n < 32 \<longrightarrow> rotl v n = Some (word_rotl (nat n) v) \<and> rotr v n = Some (word_rotr (nat n) v) \<and>
      Option.bind (rotl v n) (\<lambda>x. rotr x n) = Some v) \<and>
   (0 < n \<longrightarrow> n < 64 \<longrightarrow> rotl64 w n = Some (word_rotl (nat n) w) \<and> rotr64 w n = Some (word_rotr (nat n) w) \<and>
      Option.bind (rotl64 w n) (\<lambda>x. rotr64 x n) = Some w) \<and>
   rotl v 0 = None \<and> rotr v 0 = None \<and> rotl64 w 0 = None \<and> rotr64 w 0 = None \<and>
   bytes_of (byteswap_ushort u) = rev (bytes_of u) \<and> byteswap_ushort (byteswap_ushort u) = u \<and>
   bytes_of (byteswap_ulong v) = rev (bytes_of v) \<and> byteswap_ulong (byteswap_ulong v) = v \<and>
   bytes_of (byteswap_uint64 w) = rev (bytes_of w) \<and> byteswap_uint64 (byteswap_uint64 w) = w"
proof (intro conjI impI)
  assume n: "0 < n" "n < 32"
  show l: "rotl v n = Some (word_rotl (nat n) v)" and r: "rotr v n = Some (word_rotr (nat n) v)"
    using shifts_or_rotl [of "nat n" v] shifts_or_rotr [of "nat n" v] n
    by (simp_all add: rotl_def rotr_def c_or_def c_shl_def c_shr_def nat_diff_distrib)
  show "Option.bind (rotl v n) (\<lambda>x. rotr x n) = Some v"
    using shifts_or_rotr [of "nat n" "word_rotl (nat n) v"] n
    by (simp add: l) (simp add: rotr_def c_or_def c_shl_def c_shr_def nat_diff_distrib)
next
  assume n: "0 < n" "n < 64"
  show l: "rotl64 w n = Some (word_rotl (nat n) w)" and r: "rotr64 w n = Some (word_rotr (nat n) w)"
    using shifts_or_rotl [of "nat n" w] shifts_or_rotr [of "nat n" w] n
    by (simp_all add: rotl64_def rotr64_def c_or_def c_shl_def c_shr_def nat_diff_distrib)
  show "Option.bind (rotl64 w n) (\<lambda>x. rotr64 x n) = Some w"
    using shifts_or_rotr [of "nat n" "word_rotl (nat n) w"] n
    by (simp add: l) (simp add: rotr64_def c_or_def c_shl_def c_shr_def nat_diff_distrib)
qed (simp_all add: rotl_def rotr_def rotl64_def rotr64_def c_or_def c_shl_def c_shr_def bytes_byteswap_ushort bytes_byteswap_ulong bytes_byteswap_uint64
    rev_bytes_involution)

theorem rotations_and_byteswaps_witness:
  "rotl 0x80000001 4 = Some (word_rotl 4 0x80000001) \<and> rotr64 5 63 = Some (word_rotr 63 5)"
  using rotations_and_byteswaps [of 4 "0x80000001"] rotations_and_byteswaps [of 63 _ 5] by simp

text \<open>
  The memory macros. A region that is moved arrives whole, also when source and destination overlap, and nothing else changes; copying regions that
  do not overlap is moving; a filled region holds the low byte of the value.
\<close>

theorem memory_macros:
  assumes "Destination + Length \<le> length m" "Source + Length \<le> length m"
  shows "\<exists>m'. MoveMemory Destination Source Length m = Some m' \<and> length m' = length m \<and>
      take Length (drop Destination m') = take Length (drop Source m) \<and>
      (\<forall>i. i < Destination \<or> Destination + Length \<le> i \<longrightarrow> m' ! i = m ! i)"
    and "Destination + Length \<le> Source \<or> Source + Length \<le> Destination \<Longrightarrow> CopyMemory Destination Source Length m = MoveMemory Destination Source Length m"
    and "\<exists>m'. FillMemory Destination Length Fill m = Some m' \<and> length m' = length m \<and>
      take Length (drop Destination m') = replicate Length (ucast Fill) \<and> (\<forall>i. i < Destination \<or> Destination + Length \<le> i \<longrightarrow> m' ! i = m ! i)"
proof -
  have l: "length (take Length (drop Source m)) = Length" using assms(2) by simp
  show "\<exists>m'. MoveMemory Destination Source Length m = Some m' \<and> length m' = length m \<and>
      take Length (drop Destination m') = take Length (drop Source m) \<and> (\<forall>i. i < Destination \<or> Destination + Length \<le> i \<longrightarrow> m' ! i = m ! i)"
    using assms take_overwrite_window [of Destination "take Length (drop Source m)" m] nth_overwrite_outside [of Destination "take Length (drop Source m)" m] l
    by (simp add: MoveMemory_def)
  show "\<exists>m'. FillMemory Destination Length Fill m = Some m' \<and> length m' = length m \<and>
      take Length (drop Destination m') = replicate Length (ucast Fill) \<and> (\<forall>i. i < Destination \<or> Destination + Length \<le> i \<longrightarrow> m' ! i = m ! i)"
    using assms(1) take_overwrite_window [of Destination "replicate Length (ucast Fill)" m]
      nth_overwrite_outside [of Destination "replicate Length (ucast Fill)" m]
    by (simp add: FillMemory_def)
qed (simp add: CopyMemory_def)

end
