(* ===== verification/Header_Types.thy ===== *)
theory Header_Types
  imports Layout Crt Critical_Section
begin

text \<open>
  The types that the headers declare, as layouts (system types are parameters), and what the library assumes about them: the common beginning of all
  handle objects, the field that lies where an event has its descriptors, the size of the public critical section, the part of a list header that a 64-bit
  compare-and-swap covers, and the sizes that the same types have on Windows.
\<close>

section \<open>src/include/uzi/wtypes.h\<close>

abbreviation BYTE_t :: ctype where "BYTE_t \<equiv> Scalar 1"
abbreviation WORD_t :: ctype where "WORD_t \<equiv> Scalar 2"
abbreviation DWORD_t :: ctype where "DWORD_t \<equiv> Scalar 4"
abbreviation ULONGLONG_t :: ctype where "ULONGLONG_t \<equiv> Scalar 8"

text \<open>On systems other than Apple's a \<^verbatim>\<open>BOOL\<close> has 32 bits, and an \<^verbatim>\<open>int\<close> has as many.\<close>

abbreviation BOOL_t :: ctype where "BOOL_t \<equiv> Scalar 4"
abbreviation int_t :: ctype where "int_t \<equiv> Scalar 4"

text \<open>All scalar and pointer typedefs, in the order of the header. \<open>__int3264\<close> depends on the macros \<open>__ILP64__\<close> and \<open>__LP64__\<close>.\<close>

definition int3264 :: "bool \<Rightarrow> ctype" where
  "int3264 LP64_defined = (if LP64_defined then Scalar 8 else Scalar 4)"

definition fixed_typedefs :: "(string \<times> ctype) list" where
  "fixed_typedefs =
     [(''__int8'', Scalar 1), (''__uint8'', Scalar 1), (''__int16'', Scalar 2), (''__uint16'', Scalar 2), (''__int32'', Scalar 4), (''__uint32'', Scalar 4),
      (''__int64'', Scalar 8), (''__uint64'', Scalar 8), (''PVOID'', Pointer), (''LPVOID'', Pointer), (''PVOID64'', Pointer), (''LPVOID64'', Pointer),
      (''BOOL'', Scalar 4), (''PBOOL'', Pointer), (''LPBOOL'', Pointer), (''BYTE'', Scalar 1), (''byte'', Scalar 1), (''PBYTE'', Pointer), (''LPBYTE'', Pointer),
      (''BOOLEAN'', Scalar 1), (''PBOOLEAN'', Scalar 1), (''CHAR'', Scalar 1), (''UCHAR'', Scalar 1), (''CCHAR'', Scalar 1), (''PCHAR'', Pointer),
      (''LPCH'', Pointer), (''PCH'', Pointer), (''PSTR'', Pointer), (''LPSTR'', Pointer), (''LPCCH'', Pointer), (''PCCH'', Pointer), (''LPCSTR'', Pointer),
      (''PCSTR'', Pointer), (''PUCHAR'', Pointer), (''WCHAR'', Scalar 2), (''UNICODE'', Scalar 2), (''PWCHAR'', Pointer), (''LPWCH'', Pointer), (''PWCH'', Pointer),
      (''BSTR'', Pointer), (''LMSTR'', Pointer), (''LPWSTR'', Pointer), (''PWSTR'', Pointer), (''LPCWCH'', Pointer), (''PCWCH'', Pointer), (''LMCSTR'', Pointer),
      (''LPCWSTR'', Pointer), (''PCWSTR'', Pointer), (''SHORT'', Scalar 2), (''PSHORT'', Pointer), (''INT'', Scalar 4), (''PINT'', Pointer), (''LPINT'', Pointer),
      (''LONG'', Scalar 4), (''PLONG'', Pointer), (''LPLONG'', Pointer), (''LONGLONG'', Scalar 8), (''PLONGLONG'', Pointer), (''UINT'', Scalar 4),
      (''PUINT'', Pointer), (''LPUINT'', Pointer), (''USHORT'', Scalar 2), (''PUSHORT'', Pointer), (''ULONG'', Scalar 4), (''PULONG'', Pointer),
      (''ULONGLONG'', Scalar 8), (''PULONGLONG'', Pointer), (''INT8'', Scalar 1), (''INT16'', Scalar 2), (''INT32'', Scalar 4), (''INT64'', Scalar 8),
      (''PINT8'', Pointer), (''PINT16'', Pointer), (''PINT32'', Pointer), (''PINT64'', Pointer), (''LONG32'', Scalar 4), (''PLONG32'', Pointer),
      (''LONG64'', Scalar 8), (''PLONG64'', Pointer), (''UINT8'', Scalar 1), (''PUINT8'', Pointer), (''UINT16'', Scalar 2), (''PUINT16'', Pointer),
      (''UINT32'', Scalar 4), (''PUINT32'', Pointer), (''UINT64'', Scalar 8), (''PUINT64'', Pointer), (''ULONG64'', Scalar 8), (''PULONG64'', Pointer),
      (''WORD'', Scalar 2), (''PWORD'', Pointer), (''LPWORD'', Pointer), (''DWORD'', Scalar 4), (''DWORD32'', Scalar 4), (''PDWORD'', Pointer),
      (''LPDWORD'', Pointer), (''PDWORD32'', Pointer), (''DWORD64'', Scalar 8), (''DWORDLONG'', Scalar 8), (''QWORD'', Scalar 8), (''PDWORD64'', Pointer),
      (''PDWORDLONG'', Pointer), (''PQWORD'', Pointer), (''PINT_PTR'', Pointer), (''PUINT_PTR'', Pointer), (''PLONG_PTR'', Pointer), (''PULONG_PTR'', Pointer),
      (''PDWORD_PTR'', Pointer), (''PSIZE_T'', Pointer), (''PSSIZE_T'', Pointer), (''FLOAT'', Scalar 4), (''DOUBLE'', Scalar 8), (''HANDLE'', Pointer),
      (''PHANDLE'', Pointer), (''LPHANDLE'', Pointer), (''HINSTANCE'', Pointer), (''HMODULE'', Pointer)]"

definition pointer_typedefs :: "bool \<Rightarrow> (string \<times> ctype) list" where
  "pointer_typedefs LP64_defined = map (\<lambda>n. (n, int3264 LP64_defined))
     [''INT_PTR'', ''UINT_PTR'', ''LONG_PTR'', ''ULONG_PTR'', ''DWORD_PTR'', ''SIZE_T'', ''SSIZE_T'']"

definition GUID_t :: ctype where
  "GUID_t = Struct [(''Data1'', Scalar 4), (''Data2'', Scalar 2), (''Data3'', Scalar 2), (''Data4'', Array 8 BYTE_t)]"

definition LUID_t :: ctype where
  "LUID_t = Struct [(''LowPart'', DWORD_t), (''HighPart'', Scalar 4)]"

text \<open>The member without a name of the union is listed with the empty name.\<close>

definition ULARGE_INTEGER_t :: ctype where
  "ULARGE_INTEGER_t = (let parts = Struct [(''LowPart'', DWORD_t), (''HighPart'', DWORD_t)] in
     Union [('''', parts), (''u'', parts), (''QuadPart'', ULONGLONG_t)])"

definition LARGE_INTEGER_t :: ctype where
  "LARGE_INTEGER_t = (let parts = Struct [(''LowPart'', DWORD_t), (''HighPart'', Scalar 4)] in
     Union [('''', parts), (''u'', parts), (''QuadPart'', Scalar 8)])"

definition FILETIME_t :: ctype where
  "FILETIME_t = Struct [(''dwLowDateTime'', DWORD_t), (''dwHighDateTime'', DWORD_t)]"

definition SYSTEMTIME_t :: ctype where
  "SYSTEMTIME_t = Struct [(''wYear'', WORD_t), (''wMonth'', WORD_t), (''wDayOfWeek'', WORD_t), (''wDay'', WORD_t), (''wHour'', WORD_t),
     (''wMinute'', WORD_t), (''wSecond'', WORD_t), (''wMilliseconds'', WORD_t)]"

definition RPC_SID_IDENTIFIER_AUTHORITY_t :: ctype where
  "RPC_SID_IDENTIFIER_AUTHORITY_t = Struct [(''Value'', Array 6 BYTE_t)]"

text \<open>A flexible array member has no size.\<close>

definition RPC_SID_t :: ctype where
  "RPC_SID_t = Struct [(''Revision'', BYTE_t), (''SubAuthorityCount'', BYTE_t), (''IdentifierAuthority'', RPC_SID_IDENTIFIER_AUTHORITY_t),
     (''SubAuthority'', Array 0 (Scalar 4))]"

definition ACL_t :: ctype where
  "ACL_t = Struct [(''AclRevision'', BYTE_t), (''Sbz1'', BYTE_t), (''AclSize'', WORD_t), (''AceCount'', WORD_t), (''Sbz2'', WORD_t)]"

definition SECURITY_DESCRIPTOR_t :: ctype where
  "SECURITY_DESCRIPTOR_t = Struct [(''Revision'', BYTE_t), (''Sbz1'', BYTE_t), (''Control'', WORD_t), (''Owner'', Pointer), (''Group'', Pointer),
     (''Sacl'', Pointer), (''Dacl'', Pointer)]"

definition SECURITY_ATTRIBUTES_t :: ctype where
  "SECURITY_ATTRIBUTES_t = Struct [(''nLength'', DWORD_t), (''lpSecurityDescriptor'', Pointer), (''bInheritHandle'', BOOL_t)]"

definition PROCESS_INFORMATION_t :: ctype where
  "PROCESS_INFORMATION_t = Struct [(''hProcess'', Pointer), (''hThread'', Pointer), (''dwProcessId'', DWORD_t), (''dwThreadId'', DWORD_t)]"

definition DECIMAL_t :: ctype where
  "DECIMAL_t = Struct [(''wReserved'', WORD_t),
     (''DUMMYUNIONNAME'', Union [(''DUMMYSTRUCTNAME'', Struct [(''scale'', BYTE_t), (''sign'', BYTE_t)]), (''signscale'', WORD_t)]),
     (''Hi32'', Scalar 4),
     (''DUMMYUNIONNAME2'', Union [(''DUMMYSTRUCTNAME2'', Struct [(''Lo32'', Scalar 4), (''Mid32'', Scalar 4)]), (''Lo64'', ULONGLONG_t)])]"

section \<open>src/include/uzi/synch.h, src/include/uzi/uzi.h\<close>

definition RTL_CRITICAL_SECTION_t :: "bool \<Rightarrow> ctype" where
  "RTL_CRITICAL_SECTION_t LP64_defined = Struct [(''DebugInfo'', Pointer), (''LockCount'', Scalar 4), (''RecursionCount'', Scalar 4), (''OwningThread'', Pointer),
     (''LockSemaphore'', Pointer), (''SpinCount'', int3264 LP64_defined)]"

definition REASON_CONTEXT_t :: ctype where
  "REASON_CONTEXT_t = Struct [(''Version'', Scalar 4), (''Flags'', DWORD_t),
     (''Reason'', Union
       [(''Detailed'', Struct [(''LocalizedReasonModule'', Pointer), (''LocalizedReasonId'', Scalar 4), (''ReasonStringCount'', Scalar 4), (''ReasonStrings'', Pointer)]),
        (''SimpleReasonString'', Pointer)])]"

definition RTL_RUN_ONCE_t :: ctype where
  "RTL_RUN_ONCE_t = Struct [(''Ptr'', Pointer)]"

definition RTL_BARRIER_t :: "bool \<Rightarrow> ctype" where
  "RTL_BARRIER_t LP64_defined = Struct [(''Reserved1'', DWORD_t), (''Reserved2'', DWORD_t), (''Reserved3'', Array 2 (int3264 LP64_defined)), (''Reserved4'', DWORD_t), (''Reserved5'', DWORD_t)]"

definition UZI_CS_t :: ctype where
  "UZI_CS_t = Struct [(''opaque'', Array 32 BYTE_t)]"

section \<open>src/include/uzi/sysinfo.h, winsock.h, interlocked.h, collections.h\<close>

definition SYSTEM_INFO_t :: "bool \<Rightarrow> ctype" where
  "SYSTEM_INFO_t LP64_defined = Struct
     [('''', Union [(''dwOemId'', DWORD_t), ('''', Struct [(''wProcessorArchitecture'', WORD_t), (''wReserved'', WORD_t)])]),
      (''dwPageSize'', DWORD_t), (''lpMinimumApplicationAddress'', Pointer), (''lpMaximumApplicationAddress'', Pointer), (''dwActiveProcessorMask'', int3264 LP64_defined),
      (''dwNumberOfProcessors'', DWORD_t), (''dwProcessorType'', DWORD_t), (''dwAllocationGranularity'', DWORD_t), (''wProcessorLevel'', WORD_t), (''wProcessorRevision'', WORD_t)]"

definition WSADATA_t :: "bool \<Rightarrow> ctype" where
  "WSADATA_t M_AMD64_defined = (let strings = [(''szDescription'', Array 257 BYTE_t), (''szSystemStatus'', Array 129 BYTE_t)];
       limits = [(''iMaxSockets'', WORD_t), (''iMaxUdpDg'', WORD_t), (''lpVendorInfo'', Pointer)]
     in Struct ([(''wVersion'', WORD_t), (''wHighVersion'', WORD_t)] @ (if M_AMD64_defined then limits @ strings else strings @ limits)))"

definition sockaddr_in6_old_t :: "ctype \<Rightarrow> ctype" where
  "sockaddr_in6_old_t in6_addr = Struct [(''sin6_family'', WORD_t), (''sin6_port'', WORD_t), (''sin6_flowinfo'', Scalar 4), (''sin6_addr'', in6_addr)]"

definition sockaddr_gen_t :: "ctype \<Rightarrow> ctype \<Rightarrow> ctype \<Rightarrow> ctype" where
  "sockaddr_gen_t sockaddr sockaddr_in in6_addr =
     Union [(''Address'', sockaddr), (''AddressIn'', sockaddr_in), (''AddressIn6'', sockaddr_in6_old_t in6_addr)]"

definition INTERFACE_INFO_t :: "ctype \<Rightarrow> ctype \<Rightarrow> ctype \<Rightarrow> ctype" where
  "INTERFACE_INFO_t sockaddr sockaddr_in in6_addr = (let gen = sockaddr_gen_t sockaddr sockaddr_in in6_addr in
     Struct [(''iiFlags'', Scalar 4), (''iiAddress'', gen), (''iiBroadcastAddress'', gen), (''iiNetmask'', gen)])"

definition WSAPROTOCOLCHAIN_t :: ctype where
  "WSAPROTOCOLCHAIN_t = Struct [(''ChainLen'', int_t), (''ChainEntries'', Array 7 DWORD_t)]"

definition WSAPROTOCOL_INFO_t :: "ctype \<Rightarrow> ctype" where
  "WSAPROTOCOL_INFO_t character = Struct
     [(''dwServiceFlags1'', DWORD_t), (''dwServiceFlags2'', DWORD_t), (''dwServiceFlags3'', DWORD_t), (''dwServiceFlags4'', DWORD_t), (''dwProviderFlags'', DWORD_t),
      (''ProviderId'', GUID_t), (''dwCatalogEntryId'', DWORD_t), (''ProtocolChain'', WSAPROTOCOLCHAIN_t), (''iVersion'', int_t), (''iAddressFamily'', int_t),
      (''iMaxSockAddr'', int_t), (''iMinSockAddr'', int_t), (''iSocketType'', int_t), (''iProtocol'', int_t), (''iProtocolMaxOffset'', int_t),
      (''iNetworkByteOrder'', int_t), (''iSecurityScheme'', int_t), (''dwMessageSize'', DWORD_t), (''dwProviderReserved'', DWORD_t), (''szProtocol'', Array 256 character)]"

definition WSAPROTOCOL_INFOA_t :: ctype where
  "WSAPROTOCOL_INFOA_t = WSAPROTOCOL_INFO_t (Scalar 1)"

definition WSAPROTOCOL_INFOW_t :: ctype where
  "WSAPROTOCOL_INFOW_t = WSAPROTOCOL_INFO_t WORD_t"

definition UZI_LIST_ENTRY_t :: ctype where
  "UZI_LIST_ENTRY_t = Struct [(''Flink'', Pointer), (''Blink'', Pointer)]"

definition UZI_SINGLE_LIST_ENTRY_t :: ctype where
  "UZI_SINGLE_LIST_ENTRY_t = Struct [(''Next'', Pointer)]"

definition UZI_LIST_ENTRY32_t :: ctype where
  "UZI_LIST_ENTRY32_t = Struct [(''Flink'', DWORD_t), (''Blink'', DWORD_t)]"

definition UZI_LIST_ENTRY64_t :: ctype where
  "UZI_LIST_ENTRY64_t = Struct [(''Flink'', ULONGLONG_t), (''Blink'', ULONGLONG_t)]"

definition UZI_SLIST_HEADER_t :: ctype where
  "UZI_SLIST_HEADER_t = Union [(''Alignment'', ULONGLONG_t),
     (''DUMMYSTRUCTNAME'', Struct [(''Next'', UZI_SINGLE_LIST_ENTRY_t), (''Depth'', WORD_t), (''Sequence'', WORD_t)])]"

definition wObject_t :: ctype where
  "wObject_t = Struct [(''fnObjectNew'', Pointer), (''fnObjectInit'', Pointer), (''fnObjectUninit'', Pointer), (''fnObjectFree'', Pointer), (''fnObjectEquals'', Pointer)]"

definition wListDictionaryItem_t :: ctype where
  "wListDictionaryItem_t = Struct [(''key'', Pointer), (''value'', Pointer), (''next'', Pointer)]"

definition wListDictionary_t :: "bool \<Rightarrow> ctype" where
  "wListDictionary_t LP64_defined = Struct [(''synchronized'', BOOL_t), (''lock'', RTL_CRITICAL_SECTION_t LP64_defined), (''head'', Pointer), (''objectKey'', wObject_t), (''objectValue'', wObject_t)]"

section \<open>src/libuzi/handle.h, synch.h, thread.h, alignment.c\<close>

definition WINPR_HANDLE_DEF :: "(string \<times> ctype) list" where
  "WINPR_HANDLE_DEF = [(''Type'', Scalar 4), (''Mode'', Scalar 4), (''ops'', Pointer)]"

definition HANDLE_OPS_t :: ctype where
  "HANDLE_OPS_t = Struct [(''IsHandled'', Pointer), (''CloseHandle'', Pointer), (''GetFd'', Pointer), (''CleanupHandle'', Pointer), (''GetFileSize'', Pointer),
     (''FlushFileBuffers'', Pointer), (''SetEndOfFile'', Pointer), (''SetFilePointer'', Pointer), (''SetFilePointerEx'', Pointer), (''SetFileTime'', Pointer)]"

definition winpr_handle_t :: ctype where
  "winpr_handle_t = Struct WINPR_HANDLE_DEF"

text \<open>The types of the system that the structures contain.\<close>

record system_types =
  pthread_mutex_t :: ctype
  pthread_cond_t :: ctype
  pthread_attr_t :: ctype
  pthread_t :: ctype
  size_t :: ctype
  timer_t :: ctype
  sys_timespec :: ctype
  sched_param :: ctype

definition winpr_mutex_t :: "system_types \<Rightarrow> ctype" where
  "winpr_mutex_t sys = Struct (WINPR_HANDLE_DEF @ [(''mutex'', pthread_mutex_t sys)])"

definition winpr_semaphore_t :: ctype where
  "winpr_semaphore_t = Struct (WINPR_HANDLE_DEF @ [(''pipe_fd'', Array 2 int_t), (''sem'', Pointer)])"

definition winpr_event_t :: ctype where
  "winpr_event_t = Struct (WINPR_HANDLE_DEF @ [(''pipe_fd'', Array 2 int_t), (''bAttached'', BOOL_t), (''bManualReset'', BOOL_t)])"

definition winpr_timer_t :: "system_types \<Rightarrow> bool \<Rightarrow> ctype" where
  "winpr_timer_t sys WITH_POSIX_TIMER = Struct (WINPR_HANDLE_DEF @ [(''fd'', int_t), (''bInit'', BOOL_t), (''lPeriod'', Scalar 4), (''bManualReset'', BOOL_t),
     (''pfnCompletionRoutine'', Pointer), (''lpArgToCompletionRoutine'', Pointer)] @
     (if WITH_POSIX_TIMER then [(''tid'', timer_t sys), (''timeout'', Struct [(''it_interval'', sys_timespec sys), (''it_value'', sys_timespec sys)])] else []))"

definition winpr_timer_queue_t :: "system_types \<Rightarrow> ctype" where
  "winpr_timer_queue_t sys = Struct (WINPR_HANDLE_DEF @ [(''thread'', pthread_t sys), (''attr'', pthread_attr_t sys), (''mutex'', pthread_mutex_t sys),
     (''cond'', pthread_cond_t sys), (''cond_mutex'', pthread_mutex_t sys), (''param'', sched_param sys), (''bCancelled'', BOOL_t), (''activeHead'', Pointer), (''inactiveHead'', Pointer)])"

definition winpr_timer_queue_timer_t :: "system_types \<Rightarrow> ctype" where
  "winpr_timer_queue_timer_t sys = Struct (WINPR_HANDLE_DEF @ [(''Flags'', Scalar 4), (''DueTime'', DWORD_t), (''Period'', DWORD_t), (''Parameter'', Pointer),
     (''Callback'', Pointer), (''FireCount'', int_t), (''StartTime'', sys_timespec sys), (''ExpirationTime'', sys_timespec sys), (''timerQueue'', Pointer), (''next'', Pointer)])"

definition winpr_thread_t :: "system_types \<Rightarrow> ctype" where
  "winpr_thread_t sys = Struct (WINPR_HANDLE_DEF @ [(''started'', BOOL_t), (''pipe_fd'', Array 2 int_t), (''mainProcess'', BOOL_t), (''detached'', BOOL_t), (''joined'', BOOL_t),
     (''exited'', BOOL_t), (''dwExitCode'', DWORD_t), (''thread'', pthread_t sys), (''dwStackSize'', size_t sys), (''lpParameter'', Pointer), (''mutex'', pthread_mutex_t sys),
     (''threadIsReadyMutex'', pthread_mutex_t sys), (''threadIsReady'', pthread_cond_t sys), (''lpStartAddress'', Pointer), (''lpThreadAttributes'', Pointer)])"

definition winpr_process_t :: ctype where
  "winpr_process_t = Struct (WINPR_HANDLE_DEF @ [(''pid'', int_t), (''status'', int_t), (''dwExitCode'', DWORD_t)])"

definition winpr_aligned_mem_t :: "system_types \<Rightarrow> ctype" where
  "winpr_aligned_mem_t sys = Struct [(''sig'', Scalar 4), (''size'', size_t sys), (''base_addr'', Pointer)]"

section \<open>Properties\<close>

lemmas header_structs = winpr_handle_t_def winpr_mutex_t_def winpr_semaphore_t_def winpr_event_t_def winpr_timer_t_def winpr_timer_queue_t_def
  winpr_timer_queue_timer_t_def winpr_thread_t_def winpr_process_t_def WINPR_HANDLE_DEF_def

lemmas abis = lp64_def i386_def arm32_def

definition handle_objects :: "system_types \<Rightarrow> bool \<Rightarrow> ctype list" where
  "handle_objects sys posix = [winpr_handle_t, winpr_mutex_t sys, winpr_semaphore_t, winpr_event_t, winpr_timer_t sys posix, winpr_timer_queue_t sys,
     winpr_timer_queue_timer_t sys, winpr_thread_t sys, winpr_process_t]"



text \<open>Every part of a handle object lies inside it and is aligned, for system types with the usual alignments.\<close>

definition wf_system :: "abi \<Rightarrow> system_types \<Rightarrow> bool" where
  "wf_system a sys \<longleftrightarrow> list_all (wf_type a) [pthread_mutex_t sys, pthread_cond_t sys, pthread_attr_t sys, pthread_t sys, size_t sys, timer_t sys, sys_timespec sys, sched_param sys]"

lemma handle_objects_wf: "a \<in> {lp64, i386, arm32} \<Longrightarrow> wf_system a sys \<Longrightarrow> t \<in> set (handle_objects sys posix) \<Longrightarrow> wf_type a t"
  by (auto simp: handle_objects_def header_structs wf_system_def abis)

theorem handle_parts_inside:
  assumes "a \<in> {lp64, i386, arm32}" "wf_system a sys" "t \<in> set (handle_objects sys posix)" "offsetof a t ps = Some (off, u)"
  shows "off + sizeof a u \<le> sizeof a t \<and> alignof a u dvd off"
  using offsetof_sound [OF assms(4) handle_objects_wf [OF assms(1-3)]] by blast

text \<open>The layout of a critical section, and of the public type that stands for it.\<close>

lemma critical_section_layout:
  "sizeof lp64 (RTL_CRITICAL_SECTION_t True) = 40" "offsetof lp64 (RTL_CRITICAL_SECTION_t True) [Field ''SpinCount''] = Some (32, Scalar 8)"
  "sizeof i386 (RTL_CRITICAL_SECTION_t False) = 24" "sizeof arm32 (RTL_CRITICAL_SECTION_t False) = 24" "sizeof a UZI_CS_t = 32"
  by (simp_all add: RTL_CRITICAL_SECTION_t_def UZI_CS_t_def int3264_def abis round_up_def)

text \<open>
  C4: The public critical section \<open>UZI_CS\<close> has 32 bytes, the critical section that its functions keep in it has 40 bytes on 64-bit systems (24
  bytes, which fit, on 32-bit systems): the spin count begins where \<open>UZI_CS\<close> ends. \<open>UziInitCS\<close> succeeds on a machine with several
  processors and stores a spin count that is not 0, so it overwrites the 8 bytes that follow the caller's object.
\<close>

theorem UziInitCS_overflows:
  assumes "block \<noteq> NULL" "2 \<le> nproc"
  shows "offsetof lp64 (RTL_CRITICAL_SECTION_t True) [Field ''SpinCount''] = Some (sizeof lp64 UZI_CS_t, Scalar 8) \<and>
    sizeof i386 (RTL_CRITICAL_SECTION_t False) < sizeof i386 UZI_CS_t \<and> sizeof arm32 (RTL_CRITICAL_SECTION_t False) < sizeof arm32 UZI_CS_t \<and>
    fst (UziInitCS block True nproc cs spinCount 0) \<and>
    SpinCount (snd (UziInitCS block True nproc cs spinCount 0)) = (if spinCount = 0 then 4000 else ucast spinCount) \<and>
    SpinCount (snd (UziInitCS block True nproc cs spinCount 0)) \<noteq> 0"
proof -
  have "unat spinCount < 2 ^ 32" using unsigned_less [of spinCount] by simp
  then have "(ucast spinCount :: u64) \<noteq> 0" if "spinCount \<noteq> 0" using that by (simp add: word_unat_eq_iff unat_ucast_up)
  then show ?thesis using assms
    by (simp add: critical_section_layout UziInitCS_def InitializeCriticalSectionEx_def SetCriticalSectionSpinCount_def Let_def not_less)
qed

theorem UziInitCS_overflows_witness:
  "\<exists>cs. SpinCount (snd (UziInitCS 8 True 4 cs 0 0)) = 4000 \<and>
     offsetof lp64 (RTL_CRITICAL_SECTION_t True) [Field ''SpinCount''] = Some (sizeof lp64 UZI_CS_t, Scalar 8)"
  using UziInitCS_overflows [of 8 4 _ 0] by simp

text \<open>
  The first member of a list header covers all of it with 32-bit pointers, and only the pointer with 64-bit pointers: the depth and the sequence number are not
  part of a compare-and-swap of \<open>Alignment\<close> there.
\<close>

theorem slist_header_coverage:
  "sizeof i386 UZI_SLIST_HEADER_t = 8" "sizeof arm32 UZI_SLIST_HEADER_t = 8" "sizeof lp64 UZI_SLIST_HEADER_t = 16"
  "offsetof lp64 UZI_SLIST_HEADER_t [Field ''DUMMYSTRUCTNAME'', Field ''Next''] = Some (0, UZI_SINGLE_LIST_ENTRY_t)"
  "offsetof lp64 UZI_SLIST_HEADER_t [Field ''DUMMYSTRUCTNAME'', Field ''Depth''] = Some (8, Scalar 2)"
  "offsetof lp64 UZI_SLIST_HEADER_t [Field ''DUMMYSTRUCTNAME'', Field ''Sequence''] = Some (10, Scalar 2)"
  by (simp_all add: UZI_SLIST_HEADER_t_def UZI_SINGLE_LIST_ENTRY_t_def abis round_up_def)

text \<open>The integer types that hold a pointer have its size where the compiler defines \<open>__LP64__\<close> for 64-bit pointers.\<close>

theorem pointer_types_hold_pointers:
  "a \<in> {lp64, i386, arm32} \<Longrightarrow> (n, t) \<in> set (pointer_typedefs (pointer_size a = 8)) \<Longrightarrow> sizeof a t = sizeof a Pointer"
  by (auto simp: pointer_typedefs_def int3264_def abis)

text \<open>The name \<open>PBOOLEAN\<close>, which has to be that of a pointer, is that of a byte: the declaration lacks an asterisk.\<close>

theorem PBOOLEAN_is_a_byte: "map_of fixed_typedefs ''PBOOLEAN'' = Some (Scalar 1)" "map_of fixed_typedefs ''PBYTE'' = Some Pointer"
  by code_simp+

text \<open>The sizes of the structures are those of the same structures on Windows.\<close>

theorem windows_sizes:
  "sizeof lp64 GUID_t = 16" "sizeof lp64 LUID_t = 8" "sizeof lp64 ULARGE_INTEGER_t = 8" "sizeof lp64 LARGE_INTEGER_t = 8" "sizeof lp64 FILETIME_t = 8" "sizeof lp64 SYSTEMTIME_t = 16"
  "sizeof lp64 RPC_SID_t = 8" "sizeof lp64 ACL_t = 8" "sizeof lp64 SECURITY_DESCRIPTOR_t = 40" "sizeof lp64 SECURITY_ATTRIBUTES_t = 24" "sizeof lp64 PROCESS_INFORMATION_t = 24"
  "sizeof lp64 DECIMAL_t = 16" "sizeof lp64 (SYSTEM_INFO_t True) = 48" "sizeof i386 (SYSTEM_INFO_t False) = 36" "sizeof lp64 (WSADATA_t True) = 408" "sizeof i386 (WSADATA_t False) = 400"
  "sizeof lp64 (RTL_BARRIER_t True) = 32" "sizeof lp64 REASON_CONTEXT_t = 32" "sizeof lp64 RTL_RUN_ONCE_t = 8" "sizeof lp64 WSAPROTOCOL_INFOA_t = 372" "sizeof lp64 WSAPROTOCOL_INFOW_t = 628"
  by (simp_all add: GUID_t_def LUID_t_def ULARGE_INTEGER_t_def LARGE_INTEGER_t_def FILETIME_t_def SYSTEMTIME_t_def RPC_SID_t_def RPC_SID_IDENTIFIER_AUTHORITY_t_def ACL_t_def
      SECURITY_DESCRIPTOR_t_def SECURITY_ATTRIBUTES_t_def PROCESS_INFORMATION_t_def DECIMAL_t_def SYSTEM_INFO_t_def WSADATA_t_def RTL_BARRIER_t_def REASON_CONTEXT_t_def
      RTL_RUN_ONCE_t_def WSAPROTOCOL_INFOA_t_def WSAPROTOCOL_INFOW_t_def WSAPROTOCOL_INFO_t_def WSAPROTOCOLCHAIN_t_def int3264_def abis round_up_def Let_def flip: numeral_2_eq_2)

text \<open>
  The bytes of a number in memory. \<open>LowPart\<close> of a large integer is its low half on a little-endian machine; on a big-endian machine it is the high half,
  because the structure declares it first there too.
\<close>

definition stored :: "bool \<Rightarrow> 'a::len word \<Rightarrow> u8 list" where
  "stored big w = (if big then rev (bytes_of w) else bytes_of w)"

lemma bytes_of_halves: "bytes_of (q :: u64) = bytes_of (ucast q :: u32) @ bytes_of (ucast (drop_bit 32 q) :: u32)"
  by (simp add: bytes_of_def upt_rec) (intro conjI bit_word_eqI; simp add: bit_simps)

theorem large_integer_halves:
  "stored False (ucast q :: u32) = take 4 (stored False (q :: u64))" "stored False (ucast (drop_bit 32 q) :: u32) = drop 4 (stored False q)"
  "stored True (ucast (drop_bit 32 q) :: u32) = take 4 (stored True q)" "stored True (ucast q :: u32) = drop 4 (stored True q)"
  unfolding stored_def bytes_of_halves [of q] by (simp_all add: bytes_of_def)

end
