(* ===== verification/Platform.thy ===== *)
theory Platform
  imports Sysinfo
begin

text \<open>
  src/include/uzi/platform.h, and the parts of src/libuzi/sysinfo.c that depend on it. The header is a program for the preprocessor: a function from the macros that are
  defined before it is included to those defined after. The headers of the system that it includes are parameters.
\<close>

section \<open>The preprocessor\<close>

type_synonym macros = "string \<rightharpoonup> int"

text \<open>\<^verbatim>\<open>#ifndef n\<close>, \<^verbatim>\<open>#define n 1\<close>, \<^verbatim>\<open>#endif\<close>; in an \<^verbatim>\<open>#if\<close> an undefined name has the value 0.\<close>

definition define_1 :: "string \<Rightarrow> macros \<Rightarrow> macros" where
  "define_1 n m = (if m n = None then m(n \<mapsto> 1) else m)"

definition any_defined :: "string list \<Rightarrow> macros \<Rightarrow> bool" where
  "any_defined ns m = list_ex (\<lambda>n. m n \<noteq> None) ns"

definition mvalue :: "macros \<Rightarrow> string \<Rightarrow> int" where
  "mvalue m n = (case m n of None \<Rightarrow> 0 | Some v \<Rightarrow> v)"

definition if_defined :: "string list \<Rightarrow> string \<Rightarrow> macros \<Rightarrow> macros" where
  "if_defined ns n m = (if any_defined ns m then define_1 n m else m)"

section \<open>src/include/uzi/platform.h\<close>

text \<open>A rule defines a macro when one of the given names is defined; the rules are applied in their order.\<close>

fun run_rules :: "(string list \<times> string) list \<Rightarrow> macros \<Rightarrow> macros" where
  "run_rules [] m = m"
| "run_rules ((ns, n) # rs) m = run_rules rs (if_defined ns n m)"

definition x86_rules :: "(string list \<times> string) list" where
  "x86_rules =
     [([''i386'', ''__i386'', ''__i386__'', ''__i486__'', ''__i586__'', ''__i686__'', ''__X86__'', ''_X86_'', ''__I86__'', ''__IA32__'', ''__THW_INTEL__'', ''__INTEL__''], ''_M_IX86''),
      ([''__amd64'', ''__amd64__'', ''__x86_64'', ''__x86_64__'', ''_M_X64''], ''_M_AMD64''),
      ([''_M_IX86'', ''_M_AMD64''], ''_M_IX86_AMD64'')]"

definition arm_rules :: "(string list \<times> string) list" where
  "arm_rules =
     [([''__arm__'', ''__thumb__'', ''__TARGET_ARCH_ARM'', ''__TARGET_ARCH_THUMB''], ''_M_ARM''),
      ([''__aarch64__''], ''_M_ARM64'')]"

definition other_cpu_rules :: "(string list \<times> string) list" where
  "other_cpu_rules =
     [([''mips'', ''__mips'', ''__mips__'', ''__MIPS__''], ''_M_MIPS''),
      ([''mips64'', ''__mips64'', ''__mips64__'', ''__MIPS64__''], ''_M_MIPS64''),
      ([''__ppc__'', ''__powerpc'', ''__powerpc__'', ''__POWERPC__'', ''_ARCH_PPC''], ''_M_PPC''),
      ([''__ia64'', ''__ia64__'', ''_IA64'', ''__IA64__''], ''_M_IA64''),
      ([''__alpha'', ''__alpha__''], ''_M_ALPHA''),
      ([''__sparc'', ''__sparc__''], ''_M_SPARC'')]"

definition cpu_section :: "macros \<Rightarrow> macros" where
  "cpu_section m = run_rules (x86_rules @ arm_rules @ other_cpu_rules) m"

definition winrt_linux_section :: "macros \<Rightarrow> macros" where
  "winrt_linux_section m =
     (let m = (if m ''WINAPI_FAMILY'' \<noteq> None \<and> mvalue m ''WINAPI_FAMILY'' = mvalue m ''WINAPI_FAMILY_APP'' then define_1 ''_WINRT'' m else m);
          m = if_defined [''__cplusplus_winrt''] ''_WINRT'' m
      in if_defined [''linux'', ''__linux''] ''__linux__'' m)"

definition apple_section :: "(macros \<Rightarrow> macros) \<Rightarrow> macros \<Rightarrow> macros" where
  "apple_section TargetConditionals_h m =
     (if m ''__APPLE__'' \<noteq> None \<and> m ''__MACH__'' \<noteq> None then
        let m = TargetConditionals_h m in
        if mvalue m ''TARGET_OS_IPHONE'' = 1 \<or> mvalue m ''TARGET_IPHONE_SIMULATOR'' = 1 then define_1 ''__IOS__'' m
        else if mvalue m ''TARGET_OS_MAC'' = 1 then define_1 ''__MACOSX__'' m
        else m
      else m)"

definition unix_rules :: "(string list \<times> string) list" where
  "unix_rules = [([''sun''], ''__sun''), ([''sgi''], ''__sgi''), ([''__TOS_AIX__''], ''_AIX''), ([''hpux'', ''_hpux''], ''__hpux'')]"

definition endian_includes :: "(macros \<Rightarrow> macros) \<Rightarrow> (macros \<Rightarrow> macros) \<Rightarrow> macros \<Rightarrow> macros" where
  "endian_includes endian_h param_h m =
     (let m = (if m ''__gnu_linux__'' \<noteq> None then endian_h m else m)
      in if any_defined [''__FreeBSD__'', ''__NetBSD__'', ''__OpenBSD__'', ''__DragonFly__'', ''__APPLE__''] m then param_h m else m)"

definition big_endian_section :: "macros \<Rightarrow> macros" where
  "big_endian_section m =
     (if m ''__BYTE_ORDER'' \<noteq> None
      then if mvalue m ''__BYTE_ORDER'' = mvalue m ''__BIG_ENDIAN'' then define_1 ''__BIG_ENDIAN__'' m else m
      else if_defined [''__ARMEB__'', ''__THUMBEB__'', ''__AARCH64EB__'', ''_MIPSEB'', ''__MIPSEB'', ''__MIPSEB__''] ''__BIG_ENDIAN__'' m)"

definition little_endian_section :: "macros \<Rightarrow> macros" where
  "little_endian_section m =
     (if m ''__BYTE_ORDER'' \<noteq> None
      then if mvalue m ''__BYTE_ORDER'' = mvalue m ''__LITTLE_ENDIAN'' then define_1 ''__LITTLE_ENDIAN__'' m else m
      else if_defined [''__ARMEL__'', ''__THUMBEL__'', ''__AARCH64EL__'', ''_MIPSEL'', ''__MIPSEL'', ''__MIPSEL__''] ''__LITTLE_ENDIAN__'' m)"

record system_headers =
  TargetConditionals_h :: "macros \<Rightarrow> macros"
  endian_h :: "macros \<Rightarrow> macros"
  param_h :: "macros \<Rightarrow> macros"

definition platform_h :: "system_headers \<Rightarrow> macros \<Rightarrow> macros" where
  "platform_h hs m =
     little_endian_section (big_endian_section (endian_includes (endian_h hs) (param_h hs)
       (run_rules unix_rules (apple_section (TargetConditionals_h hs) (winrt_linux_section (cpu_section m))))))"

section \<open>src/libuzi/sysinfo.c\<close>

text \<open>The branch of \<open>GetProcessorArchitecture\<close> that is compiled (the first one, for Android, asks the processor at run time).\<close>

definition cpu_of :: "macros \<Rightarrow> cpu" where
  "cpu_of m =
     (if m ''_M_ARM'' \<noteq> None then M_ARM
      else if m ''_M_IX86'' \<noteq> None then M_IX86
      else if m ''_M_MIPS64'' \<noteq> None then M_MIPS64
      else if m ''_M_MIPS'' \<noteq> None then M_MIPS
      else if m ''_M_ARM64'' \<noteq> None then M_ARM64
      else if m ''_M_AMD64'' \<noteq> None then M_AMD64
      else if m ''_M_PPC'' \<noteq> None then M_PPC
      else if m ''_M_ALPHA'' \<noteq> None then M_ALPHA
      else M_other)"

text \<open>
  The number of processors with \<open>sysctl\<close>: what the two calls store, \<open>None\<close> for a call that fails. The second one is made only when the first
  stores 0.
\<close>

definition GetNumberOfProcessors_sysctl :: "DWORD option \<Rightarrow> DWORD option \<Rightarrow> DWORD" where
  "GetNumberOfProcessors_sysctl first second =
     (let numCPUs = 1;
          numCPUs = (case first of None \<Rightarrow> numCPUs | Some v \<Rightarrow> v)
      in if numCPUs < 1 then
           let numCPUs = (case second of None \<Rightarrow> numCPUs | Some v \<Rightarrow> v) in if numCPUs < 1 then 1 else numCPUs
         else numCPUs)"

text \<open>The tick counts of systems other than Linux; the time of day is seconds and microseconds.\<close>

definition GetTickCount_gettimeofday :: "(int \<times> int) option \<Rightarrow> DWORD" where
  "GetTickCount_gettimeofday tv = (case tv of None \<Rightarrow> 0 | Some (sec, usec) \<Rightarrow> word_of_int (sec * 1000 + usec div 1000))"

definition GetTickCount64_gettimeofday :: "(int \<times> int) option \<Rightarrow> u64" where
  "GetTickCount64_gettimeofday tv = (case tv of None \<Rightarrow> 0 | Some (sec, usec) \<Rightarrow> word_of_int (sec * 1000 + usec div 1000))"

section \<open>Lemmas\<close>

text \<open>The names that compilers define for a processor.\<close>

definition names_of :: "cpu \<Rightarrow> string list" where
  "names_of c = (case c of
       M_ARM \<Rightarrow> [''__arm__'', ''__thumb__'', ''__TARGET_ARCH_ARM'', ''__TARGET_ARCH_THUMB'']
     | M_IX86 \<Rightarrow> [''i386'', ''__i386'', ''__i386__'', ''__i486__'', ''__i586__'', ''__i686__'', ''__X86__'', ''_X86_'', ''__I86__'', ''__IA32__'',
         ''__THW_INTEL__'', ''__INTEL__'']
     | M_MIPS64 \<Rightarrow> [''mips64'', ''__mips64'', ''__mips64__'', ''__MIPS64__'']
     | M_MIPS \<Rightarrow> [''mips'', ''__mips'', ''__mips__'', ''__MIPS__'']
     | M_ARM64 \<Rightarrow> [''__aarch64__'']
     | M_AMD64 \<Rightarrow> [''__amd64'', ''__amd64__'', ''__x86_64'', ''__x86_64__'', ''_M_X64'']
     | M_PPC \<Rightarrow> [''__ppc__'', ''__powerpc'', ''__powerpc__'', ''__POWERPC__'', ''_ARCH_PPC'']
     | M_ALPHA \<Rightarrow> [''__alpha'', ''__alpha__'']
     | M_other \<Rightarrow> [])"

definition cpu_macros :: "string list" where
  "cpu_macros = [''_M_ARM'', ''_M_IX86'', ''_M_MIPS64'', ''_M_MIPS'', ''_M_ARM64'', ''_M_AMD64'', ''_M_PPC'', ''_M_ALPHA'', ''_M_IX86_AMD64'']"

lemma define_1_ext: "define_1 n m k = (if k = n \<and> m n = None then Some 1 else m k)"
  by (simp add: define_1_def)

lemma if_defined_ext: "if_defined ns n m k = (if k = n \<and> m n = None \<and> any_defined ns m then Some 1 else m k)"
  by (simp add: if_defined_def define_1_ext)

lemma any_defined_ext [simp]: "any_defined ns m \<longleftrightarrow> (\<exists>n \<in> set ns. m n \<noteq> None)"
  by (simp add: any_defined_def list_ex_iff)

text \<open>A rule whose names and target no other rule touches fires exactly when one of its names is defined beforehand.\<close>

lemma run_rules_append: "run_rules (rs @ rs') m = run_rules rs' (run_rules rs m)"
  by (induction rs arbitrary: m) auto

lemma run_rules_other: "n \<notin> snd ` set rs \<Longrightarrow> run_rules rs m n = m n"
  by (induction rs arbitrary: m) (auto simp: if_defined_ext)

fun fires :: "(string list \<times> string) list \<Rightarrow> string \<Rightarrow> string list option" where
  "fires [] n = None"
| "fires ((ns, k) # rs) n =
     (if k = n then if n \<in> set (map snd rs) then None else Some ns
      else case fires rs n of None \<Rightarrow> None | Some ns' \<Rightarrow> if k \<in> set ns' then None else Some ns')"

lemma fires_defined: "fires rs n = Some ns \<Longrightarrow> m n = None \<Longrightarrow> run_rules rs m n \<noteq> None \<longleftrightarrow> any_defined ns m"
proof (induction rs arbitrary: m)
  case (Cons r rs)
  obtain ns' k where r: "r = (ns', k)" by fastforce
  show ?case
  proof (cases "k = n")
    case True
    then have "n \<notin> snd ` set rs" "ns = ns'" using Cons.prems(1) r by (auto split: if_splits)
    then show ?thesis using True r Cons.prems(2) run_rules_other [of n rs "if_defined ns n m"] by (simp add: if_defined_ext)
  next
    case False
    then have f: "fires rs n = Some ns" "k \<notin> set ns" using Cons.prems(1) r by (auto split: option.splits if_splits)
    have "any_defined ns (if_defined ns' k m) = any_defined ns m" using f(2) by (auto simp: if_defined_ext)
    moreover have "if_defined ns' k m n = None" using False Cons.prems(2) by (simp add: if_defined_ext)
    ultimately show ?thesis using Cons.IH [OF f(1)] by (simp add: r del: any_defined_ext)
  qed
qed simp

lemma cpu_rules_fire:
  "fires (x86_rules @ arm_rules @ other_cpu_rules) ''_M_ARM'' = Some (names_of M_ARM)"
  "fires (x86_rules @ arm_rules @ other_cpu_rules) ''_M_IX86'' = Some (names_of M_IX86)"
  "fires (x86_rules @ arm_rules @ other_cpu_rules) ''_M_MIPS64'' = Some (names_of M_MIPS64)"
  "fires (x86_rules @ arm_rules @ other_cpu_rules) ''_M_MIPS'' = Some (names_of M_MIPS)"
  "fires (x86_rules @ arm_rules @ other_cpu_rules) ''_M_ARM64'' = Some (names_of M_ARM64)"
  "fires (x86_rules @ arm_rules @ other_cpu_rules) ''_M_AMD64'' = Some (names_of M_AMD64)"
  "fires (x86_rules @ arm_rules @ other_cpu_rules) ''_M_PPC'' = Some (names_of M_PPC)"
  "fires (x86_rules @ arm_rules @ other_cpu_rules) ''_M_ALPHA'' = Some (names_of M_ALPHA)"
  by code_simp+

text \<open>A rule on targets of earlier rules fires when one of them is defined in the end.\<close>

lemma run_rules_late:
  assumes "m n = None" "n \<notin> set ns" "n \<notin> snd ` set pre" "set (n # ns) \<inter> snd ` set post = {}"
  shows "run_rules (pre @ (ns, n) # post) m n \<noteq> None \<longleftrightarrow> any_defined ns (run_rules (pre @ (ns, n) # post) m)"
proof -
  let ?m = "run_rules pre m"
  have "run_rules (pre @ (ns, n) # post) m k = if_defined ns n ?m k" if "k \<in> set (n # ns)" for k
    using that assms(4) run_rules_other [of k post "if_defined ns n ?m"] by (auto simp: run_rules_append)
  moreover have "?m n = None" using assms(1,3) by (simp add: run_rules_other)
  ultimately show ?thesis using assms(2) by (auto simp: if_defined_ext)
qed

lemma x86_rule: "m ''_M_IX86_AMD64'' = None \<Longrightarrow> cpu_section m ''_M_IX86_AMD64'' \<noteq> None \<longleftrightarrow> any_defined [''_M_IX86'', ''_M_AMD64''] (cpu_section m)"
proof -
  assume m: "m ''_M_IX86_AMD64'' = None"
  have split: "x86_rules @ arm_rules @ other_cpu_rules = take 2 x86_rules @ ([''_M_IX86'', ''_M_AMD64''], ''_M_IX86_AMD64'') # (arm_rules @ other_cpu_rules)"
    by (simp add: x86_rules_def numeral_2_eq_2)
  have "''_M_IX86_AMD64'' \<notin> set [''_M_IX86'', ''_M_AMD64'']" "''_M_IX86_AMD64'' \<notin> snd ` set (take 2 x86_rules)"
    "set [''_M_IX86_AMD64'', ''_M_IX86'', ''_M_AMD64''] \<inter> snd ` set (arm_rules @ other_cpu_rules) = {}"
    by code_simp+
  from run_rules_late [of m "''_M_IX86_AMD64''" "[''_M_IX86'', ''_M_AMD64'']" "take 2 x86_rules" "arm_rules @ other_cpu_rules", OF m this] show ?thesis unfolding cpu_section_def split .
qed

text \<open>The other sections do not touch the macros for processors, provided that the headers of the system do not.\<close>

definition foreign_macros :: "string list" where
  "foreign_macros = [''_WINRT'', ''__linux__'', ''__IOS__'', ''__MACOSX__'', ''__sun'', ''__sgi'', ''_AIX'', ''__hpux'', ''__BIG_ENDIAN__'', ''__LITTLE_ENDIAN__'']"

lemma foreign_disjoint: "set cpu_macros \<inter> set foreign_macros = {}"
  by code_simp

lemma sections_keep:
  assumes "n \<notin> set foreign_macros"
  shows "winrt_linux_section m n = m n" "big_endian_section m n = m n" "little_endian_section m n = m n" "run_rules unix_rules m n = m n"
    "f m n = m n \<Longrightarrow> apple_section f m n = m n"
proof -
  have n: "n \<noteq> ''_WINRT''" "n \<noteq> ''__linux__''" "n \<noteq> ''__IOS__''" "n \<noteq> ''__MACOSX__''" "n \<noteq> ''__BIG_ENDIAN__''" "n \<noteq> ''__LITTLE_ENDIAN__''"
    using assms by (auto simp: foreign_macros_def)
  show "winrt_linux_section m n = m n" "big_endian_section m n = m n" "little_endian_section m n = m n" "f m n = m n \<Longrightarrow> apple_section f m n = m n"
    using n by (auto simp: winrt_linux_section_def big_endian_section_def little_endian_section_def apple_section_def Let_def if_defined_ext define_1_ext)
  show "run_rules unix_rules m n = m n" using assms by (intro run_rules_other) (auto simp: unix_rules_def foreign_macros_def)
qed

lemma platform_keeps:
  assumes "n \<in> set cpu_macros" "\<And>m'. TargetConditionals_h hs m' n = m' n" "\<And>m'. endian_h hs m' n = m' n" "\<And>m'. param_h hs m' n = m' n"
  shows "platform_h hs m n = cpu_section m n"
proof -
  have n: "n \<notin> set foreign_macros" using assms(1) foreign_disjoint by auto
  have "endian_includes (endian_h hs) (param_h hs) m' n = m' n" for m' using assms(3,4) by (simp add: endian_includes_def Let_def)
  then show ?thesis by (simp add: platform_h_def sections_keep [OF n] assms(2))
qed

section \<open>Properties\<close>

text \<open>
  The header selects the processor by the names that the compiler defines, when it is included with none of its own macros defined and the headers of
  the system leave these alone. A compiler for MIPS64, which defines the names of both MIPS processors, is found to be for MIPS64. The macro for
  the Intel family is defined exactly for its two members. A compiler for a processor that the header knows but the function does
  not, such as SPARC, gives PROCESSOR_ARCHITECTURE_UNKNOWN.
\<close>

theorem platform_selects_processor:
  assumes "\<forall>n \<in> set cpu_macros. m n = None"
    and "\<forall>n \<in> set cpu_macros. \<forall>m'. TargetConditionals_h hs m' n = m' n \<and> endian_h hs m' n = m' n \<and> param_h hs m' n = m' n"
  shows "GetProcessorArchitecture (cpu_of (platform_h hs m)) =
    (if any_defined (names_of M_ARM) m then 5 else if any_defined (names_of M_IX86) m then 0 else if any_defined (names_of M_MIPS64) m then 13
     else if any_defined (names_of M_MIPS) m then 1 else if any_defined (names_of M_ARM64) m then 12 else if any_defined (names_of M_AMD64) m then 9
     else if any_defined (names_of M_PPC) m then 3 else if any_defined (names_of M_ALPHA) m then 2 else 0xFFFF) \<and>
    (platform_h hs m ''_M_IX86_AMD64'' \<noteq> None \<longleftrightarrow> any_defined (names_of M_IX86) m \<or> any_defined (names_of M_AMD64) m)"
proof -
  have keep: "platform_h hs m n = cpu_section m n" if "n \<in> set cpu_macros" for n using assms(2) that by (intro platform_keeps) auto
  have fire: "cpu_section m n \<noteq> None \<longleftrightarrow> any_defined ns m" if "fires (x86_rules @ arm_rules @ other_cpu_rules) n = Some ns" "n \<in> set cpu_macros" for n ns
    using fires_defined [OF that(1)] assms(1) that(2) unfolding cpu_section_def by blast
  note fired = cpu_rules_fire [THEN fire, unfolded cpu_macros_def]
  have defined: "platform_h hs m ''_M_ARM'' \<noteq> None \<longleftrightarrow> any_defined (names_of M_ARM) m" "platform_h hs m ''_M_IX86'' \<noteq> None \<longleftrightarrow> any_defined (names_of M_IX86) m"
    "platform_h hs m ''_M_MIPS64'' \<noteq> None \<longleftrightarrow> any_defined (names_of M_MIPS64) m" "platform_h hs m ''_M_MIPS'' \<noteq> None \<longleftrightarrow> any_defined (names_of M_MIPS) m"
    "platform_h hs m ''_M_ARM64'' \<noteq> None \<longleftrightarrow> any_defined (names_of M_ARM64) m" "platform_h hs m ''_M_AMD64'' \<noteq> None \<longleftrightarrow> any_defined (names_of M_AMD64) m"
    "platform_h hs m ''_M_PPC'' \<noteq> None \<longleftrightarrow> any_defined (names_of M_PPC) m" "platform_h hs m ''_M_ALPHA'' \<noteq> None \<longleftrightarrow> any_defined (names_of M_ALPHA) m"
    using keep fired unfolding cpu_macros_def by (metis list.set_intros)+
  have "platform_h hs m ''_M_IX86_AMD64'' \<noteq> None \<longleftrightarrow> platform_h hs m ''_M_IX86'' \<noteq> None \<or> platform_h hs m ''_M_AMD64'' \<noteq> None"
    using x86_rule [of m] assms(1) keep by (simp add: cpu_macros_def)
  then show ?thesis unfolding cpu_of_def defined by (simp only: if_distrib [of GetProcessorArchitecture] GetProcessorArchitecture.simps simp_thms)
qed

theorem platform_selects_processor_witness:
  "GetProcessorArchitecture (cpu_of (platform_h \<lparr>TargetConditionals_h = id, endian_h = id, param_h = id\<rparr> [''__mips__'' \<mapsto> 1, ''__mips64__'' \<mapsto> 1])) = 13"
proof -
  let ?m = "[''__mips__'' \<mapsto> 1, ''__mips64__'' \<mapsto> (1 :: int)]"
  have "\<forall>n \<in> set cpu_macros. ?m n = None" by code_simp
  moreover have "any_defined (names_of M_MIPS64) ?m" "\<not> any_defined (names_of M_ARM) ?m" "\<not> any_defined (names_of M_IX86) ?m"
    by (simp_all add: names_of_def)
  ultimately show ?thesis
    using platform_selects_processor [of ?m "\<lparr>TargetConditionals_h = id, endian_h = id, param_h = id\<rparr>"] by (simp del: any_defined_ext)
qed

text \<open>
  With a byte order from the headers of the system, exactly the macro of that byte order is defined. Without one, only the names that ARM
  and MIPS compilers define count: a compiler for an Intel processor gets neither macro.
\<close>

theorem byte_order_exclusive:
  assumes "m ''__BIG_ENDIAN__'' = None" "m ''__LITTLE_ENDIAN__'' = None"
  shows "m ''__BYTE_ORDER'' = Some b \<Longrightarrow> m ''__BIG_ENDIAN'' = Some 4321 \<Longrightarrow> m ''__LITTLE_ENDIAN'' = Some 1234 \<Longrightarrow>
      (little_endian_section (big_endian_section m) ''__BIG_ENDIAN__'' \<noteq> None \<longleftrightarrow> b = 4321) \<and>
      (little_endian_section (big_endian_section m) ''__LITTLE_ENDIAN__'' \<noteq> None \<longleftrightarrow> b = 1234)"
    and "m = [''__x86_64__'' \<mapsto> 1] \<Longrightarrow> little_endian_section (big_endian_section m) = m"
  using assms by (auto simp: big_endian_section_def little_endian_section_def mvalue_def define_1_def if_defined_def)

text \<open>The number of processors is never 0, whatever the system answers.\<close>

theorem sysctl_processors_positive: "0 < GetNumberOfProcessors_sysctl first second"
  by (simp add: GetNumberOfProcessors_sysctl_def Let_def word_less_1 word_greater_zero_iff split: option.split)

text \<open>The tick counts are the milliseconds of the clock, with microseconds as with nanoseconds; the 32-bit count is the low half of the other.\<close>

theorem gettimeofday_ticks:
  "GetTickCount_gettimeofday (Some (sec, usec)) = GetTickCount (Some \<lparr>tv_sec = sec, tv_nsec = usec * 1000\<rparr>)"
  "GetTickCount_gettimeofday tv = ucast (GetTickCount64_gettimeofday tv)"
  by (simp add: GetTickCount_gettimeofday_def GetTickCount_def)
    (auto simp only: GetTickCount_gettimeofday_def GetTickCount64_gettimeofday_def ucast_word_of_int ucast_0 split: option.split prod.split)

end
